(* ===== verification/Prelude.thy ===== *)
theory Prelude
  imports Main "HOL-Library.Word"
begin

unbundle bit_operations_syntax

text \<open>
  Shared vocabulary of the development: the machine types of the Rust sources, byte buffers
  and their little-endian readings, and the collections of rewrite rules that carry the
  component proofs.

  \<^item> \<open>bytes\<close> is \<open>Vec<u8>\<close>, \<open>Bytes\<close> and \<open>BytesMut\<close>; \<open>usize\<close> is the 64-bit target's.
  \<^item> \<open>codec_simps\<close>, \<open>step_simps\<close> and \<open>frame_simps\<close> collect the equations of the byte-level
    encoders, of the handlers' steps, and the facts about what a step leaves alone.
\<close>

named_theorems codec_simps "equations of byte-level encoders and decoders"
named_theorems step_simps "equations of handlers and transition functions"
named_theorems frame_simps "what an operation leaves unchanged"

type_synonym u8 = "8 word"
type_synonym u16 = "16 word"
type_synonym u32 = "32 word"
type_synonym u64 = "64 word"
type_synonym u128 = "128 word"
type_synonym usize = "64 word"
type_synonym bytes = "8 word list"

subsection \<open>Little-endian readings\<close>

text \<open>\<open>to_le_bytes\<close> of an integer of \<open>n\<close> bytes, and \<open>from_le_bytes\<close>.\<close>

fun le_bytes :: "nat \<Rightarrow> 'a::len word \<Rightarrow> bytes" where
  "le_bytes 0 w = []"
| "le_bytes (Suc n) w = ucast w # le_bytes n (drop_bit 8 w)"

fun of_le_bytes :: "bytes \<Rightarrow> 'a::len word" where
  "of_le_bytes [] = 0"
| "of_le_bytes (b # bs) = ucast b OR push_bit 8 (of_le_bytes bs)"

lemma length_le_bytes [simp]: "length (le_bytes n w) = n"
  by (induction n w rule: le_bytes.induct) auto

lemma of_le_bytes_le_bytes:
  "of_le_bytes (le_bytes n w) = (take_bit (8 * n) w :: 'a::len word)"
proof (induction n w rule: le_bytes.induct)
  case (1 w)
  show ?case by simp
next
  case (2 n w)
  have "ucast (ucast w :: u8) OR push_bit 8 (take_bit (8 * n) (drop_bit 8 w)) =
      take_bit (8 * Suc n) (w :: 'a word)"
    by (rule bit_word_eqI) (auto simp: bit_simps)
  with "2.IH" show ?case by simp
qed

lemma of_le_bytes_append_zeros [simp]:
  "of_le_bytes (bs @ replicate n 0) = (of_le_bytes bs :: 'a::len word)"
proof (induction bs)
  case Nil
  show ?case by (induction n) auto
next
  case (Cons b bs)
  then show ?case by simp
qed

lemma take_bit_whole: "LENGTH('a::len) \<le> n \<Longrightarrow> take_bit n (w :: 'a word) = w"
  by (rule bit_word_eqI) (auto simp: bit_simps)

lemma bit_below: "l < 2 ^ k \<Longrightarrow> bit (l :: 'a::len word) n \<Longrightarrow> n < k"
  by (metis bit_take_bit_iff less_mask_eq take_bit_eq_mask)

lemma nth_le_bytes: "i < n \<Longrightarrow> le_bytes n w ! i = ucast (drop_bit (8 * i) (w :: 'a::len word))"
proof (induction n w arbitrary: i rule: le_bytes.induct)
  case (1 w)
  then show ?case by simp
next
  case (2 n w)
  then show ?case by (cases i) (auto simp: drop_bit_drop_bit add.commute)
qed

lemma le_bytes_ucast:
  assumes "8 * n \<le> LENGTH('b::len)"
  shows "le_bytes n (ucast (w :: 'a::len word) :: 'b word) = le_bytes n w"
proof (rule nth_equalityI)
  fix i assume "i < length (le_bytes n (ucast w :: 'b word))"
  with assms show "le_bytes n (ucast w :: 'b word) ! i = le_bytes n w ! i"
    by (simp add: nth_le_bytes) (rule bit_word_eqI, auto simp: bit_simps)
qed simp

lemma le_bytes_take_bit [simp]: "le_bytes n (take_bit (8 * n) w) = le_bytes n (w :: 'a::len word)"
proof (rule nth_equalityI)
  fix i assume "i < length (le_bytes n (take_bit (8 * n) w))"
  then show "le_bytes n (take_bit (8 * n) w) ! i = le_bytes n w ! i"
    by (simp add: nth_le_bytes) (rule bit_word_eqI, auto simp: bit_simps)
qed simp

lemma unat_bound: "unat (w :: 'a::len word) < 2 ^ LENGTH('a)"
  by (rule unsigned_less)

lemma unat_ucast_up:
  "LENGTH('a) \<le> LENGTH('b) \<Longrightarrow> unat (ucast (w :: 'a::len word) :: 'b::len word) = unat w"
proof -
  assume "LENGTH('a) \<le> LENGTH('b)"
  then have "(2 :: nat) ^ LENGTH('a) \<le> 2 ^ LENGTH('b)" by (intro power_increasing) simp_all
  with unat_bound [of w] have "unat w < 2 ^ LENGTH('b)" by (rule order_less_le_trans)
  then show ?thesis by (simp add: unsigned_ucast_eq take_bit_nat_eq_self)
qed

lemma mod_pow_cancel: "m \<le> n \<Longrightarrow> (a mod 2 ^ n) mod 2 ^ m = (a mod 2 ^ m :: int)"
  by (simp add: mod_mod_cancel le_imp_power_dvd)

lemma ucast_minus_down:
  "LENGTH('b) \<le> LENGTH('a) \<Longrightarrow> (ucast (a - b :: 'a::len word) :: 'b::len word) = ucast a - ucast b"
  by transfer (simp add: take_bit_eq_mod mod_pow_cancel, metis mod_diff_eq mod_pow_cancel)

lemma ucast_plus_down:
  "LENGTH('b) \<le> LENGTH('a) \<Longrightarrow> (ucast (a + b :: 'a::len word) :: 'b::len word) = ucast a + ucast b"
  by transfer (simp add: take_bit_eq_mod mod_pow_cancel, metis mod_add_eq mod_pow_cancel)

lemma ucast_ucast_id: "LENGTH('a) \<le> LENGTH('b) \<Longrightarrow> ucast (ucast (w :: 'a::len word) :: 'b::len word) = w"
  by (rule bit_word_eqI) (auto simp: bit_simps)

subsection \<open>Lists and options\<close>

lemma takeWhile_eq_replicate: "takeWhile ((=) x) ys = replicate (length (takeWhile ((=) x) ys)) x"
  by (induction ys) auto

lemma takeWhile_rev_split:
  "xs = take (length xs - length (takeWhile P (rev xs))) xs
     @ rev (takeWhile P (rev xs))"
proof -
  have "xs = rev (dropWhile P (rev xs)) @ rev (takeWhile P (rev xs))"
    by (metis rev_append rev_rev_ident takeWhile_dropWhile_id)
  moreover have "length (rev (dropWhile P (rev xs))) =
      length xs - length (takeWhile P (rev xs))"
    by (metis length_append length_rev add_diff_cancel_left' takeWhile_dropWhile_id)
  ultimately show ?thesis by (metis append_eq_conv_conj)
qed

lemma find_map_distinct:
  "distinct (map f xs) \<Longrightarrow> x \<in> set xs \<Longrightarrow> find (\<lambda>y. f y = f x) xs = Some x"
  by (induction xs) auto

text \<open>The sum over a snapshot of a store: what a \<open>HashMap\<close> gives to \<open>len()\<close>.\<close>

definition map_size :: "('k \<rightharpoonup> 'v) \<Rightarrow> nat" where
  "map_size m = card (dom m)"

lemma map_size_upd_new:
  "finite (dom m) \<Longrightarrow> k \<notin> dom m \<Longrightarrow> map_size (m(k \<mapsto> v)) = Suc (map_size m)"
  by (simp add: map_size_def)

lemma map_size_upd_old:
  "k \<in> dom m \<Longrightarrow> map_size (m(k \<mapsto> v)) = map_size m"
  by (simp add: map_size_def insert_absorb)

subsection \<open>Results of handlers\<close>

text \<open>
  What a handler returns: a value, an error that its caller sees (\<open>Err\<close> of the source), or a
  panic, which unwinds the task that runs it.
\<close>

datatype 'a outcome = Done 'a | Failed string | Panicked

text \<open>\<open>i32\<close> arithmetic of the release build.\<close>

definition wrap_i32 :: "int \<Rightarrow> int" where
  "wrap_i32 n = (n + 2 ^ 31) mod 2 ^ 32 - 2 ^ 31"

lemma wrap_i32_id: "- (2 ^ 31) \<le> n \<Longrightarrow> n < 2 ^ 31 \<Longrightarrow> wrap_i32 n = n"
  by (simp add: wrap_i32_def)

lemma wrap_i32_mod:
  "wrap_i32 n = (if n mod 2 ^ 32 < 2 ^ 31 then n mod 2 ^ 32 else n mod 2 ^ 32 - 2 ^ 32)"
proof -
  have s: "(n + 2 ^ 31) mod 2 ^ 32 = (n mod 2 ^ 32 + 2 ^ 31) mod 2 ^ 32" by (simp add: mod_add_left_eq)
  have b: "0 \<le> n mod 2 ^ 32" "n mod 2 ^ 32 < 2 ^ 32" by simp_all
  show ?thesis
  proof (cases "n mod 2 ^ 32 < 2 ^ 31")
    case True
    then show ?thesis unfolding wrap_i32_def s using b by (simp add: mod_pos_pos_trivial)
  next
    case False
    have "(n mod 2 ^ 32 + 2 ^ 31) mod 2 ^ 32 = (n mod 2 ^ 32 + 2 ^ 31 - 2 ^ 32) mod 2 ^ 32"
      by (rule minus_mod_self2 [symmetric])
    also have "\<dots> = n mod 2 ^ 32 + 2 ^ 31 - 2 ^ 32" using b False by (intro mod_pos_pos_trivial) simp_all
    finally show ?thesis unfolding wrap_i32_def s using False by simp
  qed
qed

end
