(* ===== verification/Bytes_Codec.thy ===== *)
theory Bytes_Codec
  imports Prelude
begin

text \<open>
  The length-prefixed framing of \<open>libs/hbb_common/src/bytes_codec.rs\<close>, used by every TCP
  stream of the client and of both servers. A frame is a header of one to four bytes and the
  payload: the two low bits of the first byte give the header's length, the other bits of
  the little-endian header the payload's. \<open>decode\<close> is the \<open>Decoder\<close> instance (it keeps the
  announced length while the payload is incomplete), \<open>encode\<close> the \<open>Encoder\<close> instance.

  The locale \<open>stream_decoder\<close> is what a reader of a byte stream relies on (tokio's
  \<open>FramedRead\<close> calls \<open>decode\<close> until it answers \<open>None\<close>): decoding is unaffected by bytes that
  arrive later, and a frame always makes progress. Its lemmas say that the frames a reader
  sees do not depend on how the network cut the stream.
\<close>

datatype io_error = InvalidData string | InvalidInput string

datatype decode_state = Head | Data usize

record bytes_codec =
  state :: decode_state
  raw :: bool
  max_packet_length :: usize

definition new_codec :: bytes_codec where
  "new_codec = \<lparr>state = Head, raw = False, max_packet_length = -1\<rparr>"

definition set_raw :: "bytes_codec \<Rightarrow> bytes_codec" where
  "set_raw c = c\<lparr>raw := True\<rparr>"

definition set_max_packet_length :: "usize \<Rightarrow> bytes_codec \<Rightarrow> bytes_codec" where
  "set_max_packet_length n c = c\<lparr>max_packet_length := n\<rparr>"

subsection \<open>Decoding\<close>

definition head_len :: "bytes \<Rightarrow> nat" where
  "head_len src = unat ((src ! 0 AND 0x3) + 1)"

definition head_number :: "bytes \<Rightarrow> usize" where
  "head_number src =
     (let n = ucast (src ! 0);
          n = (if head_len src > 1 then n OR push_bit 8 (ucast (src ! 1)) else n);
          n = (if head_len src > 2 then n OR push_bit 16 (ucast (src ! 2)) else n);
          n = (if head_len src > 3 then n OR push_bit 24 (ucast (src ! 3)) else n)
      in drop_bit 2 n)"

definition decode_head :: "bytes_codec \<Rightarrow> bytes \<Rightarrow> (io_error + usize option) \<times> bytes" where
  "decode_head c src =
     (if src = [] then (Inr None, src)
      else if length src < head_len src then (Inr None, src)
      else let n = head_number src in
        if n > max_packet_length c then (Inl (InvalidData ''Too big packet''), src)
        else (Inr (Some n), drop (head_len src) src))"

definition decode_data :: "usize \<Rightarrow> bytes \<Rightarrow> bytes option \<times> bytes" where
  "decode_data n src =
     (if length src < unat n then (None, src)
      else (Some (take (unat n) src), drop (unat n) src))"

definition decode_payload ::
  "bytes_codec \<Rightarrow> usize \<Rightarrow> bytes \<Rightarrow> (io_error + bytes option) \<times> bytes_codec \<times> bytes" where
  "decode_payload c n src =
     (case decode_data n src of
        (Some d, src') \<Rightarrow> (Inr (Some d), c\<lparr>state := Head\<rparr>, src')
      | (None, src') \<Rightarrow> (Inr None, c, src'))"

definition decode ::
  "bytes_codec \<Rightarrow> bytes \<Rightarrow> (io_error + bytes option) \<times> bytes_codec \<times> bytes" where
  "decode c src =
     (if raw c then
        (if src \<noteq> [] then (Inr (Some src), c, []) else (Inr None, c, src))
      else case state c of
        Head \<Rightarrow> (case decode_head c src of
            (Inl e, src') \<Rightarrow> (Inl e, c, src')
          | (Inr None, src') \<Rightarrow> (Inr None, c, src')
          | (Inr (Some n), src') \<Rightarrow> decode_payload (c\<lparr>state := Data n\<rparr>) n src')
      | Data n \<Rightarrow> decode_payload c n src)"

subsection \<open>Encoding\<close>

definition put_u8 :: "u8 \<Rightarrow> bytes" where
  "put_u8 w = [w]"

definition put_u16_le :: "u16 \<Rightarrow> bytes" where
  "put_u16_le w = le_bytes 2 w"

definition put_u32_le :: "u32 \<Rightarrow> bytes" where
  "put_u32_le w = le_bytes 4 w"

definition encode_head :: "nat \<Rightarrow> bytes option" where
  "encode_head len =
     (let l = push_bit 2 (of_nat len :: usize) in
      if len \<le> 0x3F then Some (put_u8 (ucast l))
      else if len \<le> 0x3FFF then Some (put_u16_le (ucast l OR 0x1))
      else if len \<le> 0x3FFFFF then
        (let h = (ucast l :: u32) OR 0x2
         in Some (put_u16_le (ucast (h AND 0xFFFF)) @ put_u8 (ucast (drop_bit 16 h))))
      else if len \<le> 0x3FFFFFFF then Some (put_u32_le (ucast l OR 0x3))
      else None)"

definition encode :: "bytes_codec \<Rightarrow> bytes \<Rightarrow> bytes \<Rightarrow> io_error + bytes" where
  "encode c data buf =
     (if raw c then Inr (buf @ data)
      else case encode_head (length data) of
        Some h \<Rightarrow> Inr (buf @ h @ data)
      | None \<Rightarrow> Inl (InvalidInput ''Overflow''))"

subsection \<open>The header, as one little-endian word\<close>

text \<open>
  The four size classes of \<open>encode_head\<close> are one format: the word \<open>head_word k len\<close>, whose two
  low bits are \<open>k - 1\<close>, written in \<open>k = head_size len\<close> little-endian bytes.
\<close>

definition head_word :: "nat \<Rightarrow> nat \<Rightarrow> usize" where
  "head_word k len = push_bit 2 (of_nat len) OR of_nat (k - 1)"

definition head_size :: "nat \<Rightarrow> nat" where
  "head_size len = (if len \<le> 0x3F then 1 else if len \<le> 0x3FFF then 2
     else if len \<le> 0x3FFFFF then 3 else 4)"

lemma le_bytes_3:
  "le_bytes 2 ((ucast h :: u32) AND 65535) @ [ucast (drop_bit 16 (ucast h :: u32))] =
     le_bytes 3 (h :: usize)"
proof -
  have "(ucast h :: u32) AND 65535 = take_bit 16 (ucast h)"
    by (simp add: take_bit_eq_mask mask_eq_exp_minus_1)
  moreover have "ucast (drop_bit 16 (ucast h :: u32)) = (ucast (drop_bit 16 h) :: u8)"
    by (rule bit_word_eqI) (auto simp: bit_simps)
  moreover have "le_bytes 3 h = le_bytes 2 h @ [ucast (drop_bit 16 h)]"
    by (simp add: numeral_eq_Suc)
  ultimately show ?thesis
    using le_bytes_take_bit [of 2 "ucast h :: u32"] by (simp add: le_bytes_ucast)
qed

lemma encode_head_eq:
  "encode_head len =
     (if len \<le> 0x3FFFFFFF
      then Some (le_bytes (head_size len) (head_word (head_size len) len)) else None)"
proof -
  have or: "(ucast (l :: usize) OR 1 :: u16) = ucast (l OR 1)"
     "(ucast l OR 2 :: u32) = ucast (l OR 2)" "(ucast l OR 3 :: u32) = ucast (l OR 3)" for l
    by (simp_all add: unsigned_or_eq)
  obtain l where l: "push_bit 2 (of_nat len :: usize) = l" by simp
  show ?thesis
    unfolding encode_head_def Let_def head_word_def head_size_def l
    by (simp add: or le_bytes_3 le_bytes_ucast put_u8_def put_u32_le_def put_u16_le_def)
qed

lemma of_nat_below: "len \<le> 0x3FFFFFFF \<Longrightarrow> (of_nat len :: usize) < 2 ^ 30"
  by (simp add: word_less_nat_alt unat_of_nat take_bit_nat_eq_self)

lemma head_number_alt:
  assumes "head_len src \<in> {1..4}" "head_len src \<le> length src"
  shows "head_number src = drop_bit 2 (of_le_bytes (take (head_len src) src))"
proof -
  have e: "take (Suc 0) src = [src ! 0]" if "Suc 0 \<le> length src"
    using that by (cases src) auto
  have e2: "take 2 src = [src ! 0, src ! 1]" if "2 \<le> length src"
    using that by (cases src; cases "tl src") (auto simp: numeral_eq_Suc)
  have e3: "take 3 src = [src ! 0, src ! 1, src ! 2]" if "3 \<le> length src"
    using that by (cases src; cases "tl src"; cases "tl (tl src)") (auto simp: numeral_eq_Suc)
  have e4: "take 4 src = [src ! 0, src ! 1, src ! 2, src ! 3]" if "4 \<le> length src"
    using that by (cases src; cases "tl src"; cases "tl (tl src)"; cases "tl (tl (tl src))")
       (auto simp: numeral_eq_Suc)
  from assms consider "head_len src = 1" | "head_len src = 2" | "head_len src = 3" | "head_len src = 4"
    by fastforce
  then show ?thesis
    using assms(2) by cases (simp_all add: head_number_def e e2 e3 e4 push_bit_or or.assoc)
qed

lemma head_len_range: "head_len src \<in> {1..4}"
proof -
  have "src ! 0 AND 3 = take_bit 2 (src ! 0)" by (simp add: take_bit_eq_mask mask_eq_exp_minus_1)
  moreover have "unat (take_bit 2 (src ! 0)) < 4" using take_bit_nat_less_exp [of 2 "unat (src ! 0)"] by (simp add: unsigned_take_bit_eq)
  ultimately show ?thesis by (simp add: head_len_def unat_word_ariths)
qed

lemma one_to_four: "k \<in> {1..4} \<Longrightarrow> k = 1 \<or> k = 2 \<or> k = 3 \<or> k = (4 :: nat)"
  by auto

lemma head_size_range: "head_size len \<in> {1..4}"
  by (simp add: head_size_def)

lemma head_size_bound: "len \<le> 0x3FFFFFFF \<Longrightarrow> len < 2 ^ (8 * head_size len - 2)"
  by (simp add: head_size_def)

lemma le_bytes_hd: "0 < n \<Longrightarrow> le_bytes n w ! 0 = ucast (w :: 'a::len word)"
  by (cases n) auto

lemma drop_bit_head_word:
  assumes "k \<in> {1..4}" and len: "len < 2 ^ (8 * k - 2)"
  shows "drop_bit 2 (take_bit (8 * k) (head_word k len)) = of_nat len"
proof (rule bit_word_eqI)
  fix n assume "n < LENGTH(64)"
  obtain t where t: "(of_nat (k - 1) :: usize) = t" by simp
  have "\<not> bit (of_nat (k - 1) :: usize) (2 + n)"
    using bit_below [of "of_nat (k - 1) :: usize" 2 "2 + n"] one_to_four [OF assms(1)] by auto
  have "n < 8 * k - 2" if "bit (of_nat len :: usize) n"
  proof (rule bit_below)
    show "(of_nat len :: usize) < 2 ^ (8 * k - 2)"
      using one_to_four [OF assms(1)] len by (auto simp: word_less_nat_alt unat_of_nat)
  qed (rule that)
  then show "bit (drop_bit 2 (take_bit (8 * k) (head_word k len))) n = bit (of_nat len :: usize) n"
    using \<open>\<not> bit (of_nat (k - 1)) (2 + n)\<close> assms(1) \<open>n < LENGTH(64)\<close>
    unfolding head_word_def t by (auto simp: bit_simps)
qed

lemma head_len_encoded:
  assumes "k \<in> {1..4}"
  shows "head_len (le_bytes k (head_word k len) @ rest) = k"
proof -
  have "(ucast (head_word k len) :: u8) AND 3 = of_nat (k - 1)"
  proof -
    have "(ucast (head_word k len) :: u8) AND 3 = take_bit 2 (ucast (head_word k len))"
      by (simp add: take_bit_eq_mask mask_eq_exp_minus_1)
    also have "\<dots> = take_bit 2 (of_nat (k - 1))"
      by (rule bit_word_eqI) (auto simp: bit_simps head_word_def)
    also have "\<dots> = of_nat (k - 1)"
      using one_to_four [OF assms] by auto
    finally show ?thesis .
  qed
  moreover have "(le_bytes k (head_word k len) @ rest) ! 0 = ucast (head_word k len)"
    using assms by (simp add: nth_append le_bytes_hd)
  ultimately show ?thesis
    using one_to_four [OF assms] by (auto simp: head_len_def)
qed

lemma head_number_encoded:
  assumes "k \<in> {1..4}" "len < 2 ^ (8 * k - 2)"
  shows "head_number (le_bytes k (head_word k len) @ rest) = of_nat len"
  using assms head_number_alt [of "le_bytes k (head_word k len) @ rest"]
  by (simp add: head_len_encoded of_le_bytes_le_bytes drop_bit_head_word)

subsection \<open>The contract of a stream decoder\<close>

text \<open>
  \<open>drain\<close> is the reader's inner loop: call the decoder until it has no frame, collecting the
  frames. The fuel is a bound on the number of calls; \<open>drain_fuel_ok\<close> shows that the
  decoder's own measure is always enough.
\<close>

fun drain ::
  "('c \<Rightarrow> bytes \<Rightarrow> ('e + 'd option) \<times> 'c \<times> bytes) \<Rightarrow> nat \<Rightarrow> 'c \<Rightarrow> bytes
     \<Rightarrow> 'd list \<times> 'e option \<times> 'c \<times> bytes" where
  "drain dec 0 c src = ([], None, c, src)"
| "drain dec (Suc k) c src =
     (case dec c src of
        (Inl e, c', src') \<Rightarrow> ([], Some e, c', src')
      | (Inr None, c', src') \<Rightarrow> ([], None, c', src')
      | (Inr (Some d), c', src') \<Rightarrow>
          (case drain dec k c' src' of (ds, r) \<Rightarrow> (d # ds, r)))"

locale stream_decoder =
  fixes dec :: "'c \<Rightarrow> bytes \<Rightarrow> ('e + 'd option) \<times> 'c \<times> bytes"
    and rank :: "'c \<Rightarrow> bytes \<Rightarrow> nat"
    and ok :: "'c \<Rightarrow> bool"
  assumes frame_progress: "dec c src = (Inr (Some d), c', src') \<Longrightarrow> rank c' src' < rank c src"
    and frame_stable: "ok c \<Longrightarrow> dec c src = (Inr (Some d), c', src')
      \<Longrightarrow> dec c (src @ later) = (Inr (Some d), c', src' @ later)"
    and wait_resumes: "ok c \<Longrightarrow> dec c src = (Inr None, c', src')
      \<Longrightarrow> dec c (src @ later) = dec c' (src' @ later)"
    and fail_stable: "ok c \<Longrightarrow> dec c src = (Inl e, c', src')
      \<Longrightarrow> dec c (src @ later) = (Inl e, c', src' @ later)"
    and ok_kept: "ok c \<Longrightarrow> dec c src = (r, c', src') \<Longrightarrow> ok c'"
begin

lemma drain_fuel_ok:
  assumes "rank c src < k" "rank c src < k'"
  shows "drain dec k c src = drain dec k' c src"
  using assms
proof (induction k arbitrary: k' c src)
  case 0
  then show ?case by simp
next
  case (Suc k)
  obtain j where k': "k' = Suc j" using Suc.prems(2) by (cases k') auto
  obtain r c' src' where d: "dec c src = (r, c', src')" by (cases "dec c src") auto
  show ?case
  proof (cases "\<exists>x. r = Inr (Some x)")
    case True
    with d have "rank c' src' < k" "rank c' src' < j"
      using frame_progress Suc.prems k' by fastforce+
    then have "drain dec k c' src' = drain dec j c' src'" by (rule Suc.IH)
    with True d k' show ?thesis by auto
  next
    case False
    with d k' show ?thesis by (auto split: sum.splits option.splits)
  qed
qed

definition frames :: "'c \<Rightarrow> bytes \<Rightarrow> 'd list \<times> 'e option \<times> 'c \<times> bytes" where
  "frames c src = drain dec (Suc (rank c src)) c src"

lemma frames_unfold:
  "frames c src =
     (case dec c src of
        (Inl e, c', src') \<Rightarrow> ([], Some e, c', src')
      | (Inr None, c', src') \<Rightarrow> ([], None, c', src')
      | (Inr (Some d), c', src') \<Rightarrow> (case frames c' src' of (ds, r) \<Rightarrow> (d # ds, r)))"
proof (cases "\<exists>d c' src'. dec c src = (Inr (Some d), c', src')")
  case True
  then obtain d c' src' where d: "dec c src = (Inr (Some d), c', src')" by blast
  then have "drain dec (rank c src) c' src' = drain dec (Suc (rank c' src')) c' src'"
    using frame_progress [OF d] by (intro drain_fuel_ok) auto
  with d show ?thesis by (simp add: frames_def)
next
  case False
  then show ?thesis by (auto simp: frames_def split: prod.splits sum.splits option.splits)
qed

text \<open>More bytes never change the frames already seen; the reader resumes where it stopped.\<close>

lemma frames_append:
  assumes "ok c" and "frames c src = (ds, None, c', src')"
  shows "frames c (src @ later) = (case frames c' (src' @ later) of (es, r) \<Rightarrow> (ds @ es, r))"
  using assms
proof (induction "rank c src" arbitrary: c src ds rule: less_induct)
  case less
  obtain r c1 src1 where d: "dec c src = (r, c1, src1)" by (cases "dec c src") auto
  show ?case
  proof (cases r)
    case (Inl e)
    with d less.prems(2) show ?thesis by (simp add: frames_unfold [of c src])
  next
    case (Inr o1)
    show ?thesis
    proof (cases o1)
      case None
      with d Inr less.prems(2) have eq: "c1 = c'" "src1 = src'" "ds = []"
        by (simp_all add: frames_unfold [of c src])
      have "dec c (src @ later) = dec c' (src' @ later)"
        using wait_resumes [OF less.prems(1)] d Inr None eq by simp
      then have "frames c (src @ later) = frames c' (src' @ later)"
        by (simp add: frames_unfold [of c] frames_unfold [of c'])
      with eq show ?thesis by (simp split: prod.split)
    next
      case (Some x)
      obtain ds1 where ds1: "frames c1 src1 = (ds1, None, c', src')" "ds = x # ds1"
        using d Inr Some less.prems(2)
        by (cases "frames c1 src1") (auto simp: frames_unfold [of c src])
      have "ok c1" using ok_kept [OF less.prems(1) d] .
      then have ih: "frames c1 (src1 @ later) =
          (case frames c' (src' @ later) of (es, r) \<Rightarrow> (ds1 @ es, r))"
        using less.hyps ds1(1) frame_progress d Inr Some by blast
      have "dec c (src @ later) = (Inr (Some x), c1, src1 @ later)"
        using frame_stable [OF less.prems(1)] d Inr Some by simp
      with ih ds1(2) show ?thesis
        by (simp add: frames_unfold [of c "src @ later"] split: prod.split)
    qed
  qed
qed

lemma frames_ok: "ok c \<Longrightarrow> frames c src = (ds, e, c', src') \<Longrightarrow> ok c'"
proof (induction "rank c src" arbitrary: c src ds rule: less_induct)
  case less
  obtain r c1 src1 where d: "dec c src = (r, c1, src1)" by (cases "dec c src") auto
  then have ok1: "ok c1" using ok_kept less.prems(1) by blast
  show ?case
  proof (cases "\<exists>x. r = Inr (Some x)")
    case True
    then obtain x where x: "dec c src = (Inr (Some x), c1, src1)" using d by blast
    then obtain ds1 where "frames c1 src1 = (ds1, e, c', src')"
      using less.prems(2) by (cases "frames c1 src1") (auto simp: frames_unfold [of c src])
    then show ?thesis using less.hyps ok1 frame_progress x by blast
  next
    case False
    with d ok1 less.prems(2) show ?thesis
      by (auto simp: frames_unfold [of c src] split: sum.splits option.splits)
  qed
qed

lemma frames_append_fail:
  assumes "ok c" and "frames c src = (ds, Some e, c', src')"
  shows "frames c (src @ later) = (ds, Some e, c', src' @ later)"
  using assms
proof (induction "rank c src" arbitrary: c src ds rule: less_induct)
  case less
  obtain r c1 src1 where d: "dec c src = (r, c1, src1)" by (cases "dec c src") auto
  then have ok1: "ok c1" using ok_kept less.prems(1) by blast
  show ?case
  proof (cases "\<exists>x. r = Inr (Some x)")
    case True
    then obtain x where x: "dec c src = (Inr (Some x), c1, src1)" using d by blast
    then obtain ds1 where f1: "frames c1 src1 = (ds1, Some e, c', src')" "ds = x # ds1"
      using less.prems(2) by (cases "frames c1 src1") (auto simp: frames_unfold [of c src])
    have "frames c1 (src1 @ later) = (ds1, Some e, c', src' @ later)"
      using less.hyps ok1 frame_progress x f1(1) by blast
    then show ?thesis
      using frame_stable [OF less.prems(1) x] f1(2) by (simp add: frames_unfold [of c "src @ later"])
  next
    case False
    with d less.prems(2) obtain "r = Inl e" "c1 = c'" "src1 = src'" "ds = []"
      by (auto simp: frames_unfold [of c src] split: sum.splits option.splits)
    then show ?thesis
      using fail_stable [OF less.prems(1)] d by (simp add: frames_unfold [of c "src @ later"])
  qed
qed

lemma frames_drained:
  assumes "ok c" and "frames c src = (ds, None, c', src')"
  shows "frames c' src' = ([], None, c', src')"
  using frames_append [OF assms, of "[]"] assms(2) by (auto split: prod.splits)

end

text \<open>
  \<open>read_chunks\<close> is a reader over a whole connection: each chunk the network delivers is
  appended to the buffer, and the buffer is drained.
\<close>

fun read_chunks ::
  "('c \<Rightarrow> bytes \<Rightarrow> ('e + 'd option) \<times> 'c \<times> bytes) \<Rightarrow> ('c \<Rightarrow> bytes \<Rightarrow> nat) \<Rightarrow> 'c \<Rightarrow> bytes
     \<Rightarrow> bytes list \<Rightarrow> 'd list \<times> 'e option \<times> 'c \<times> bytes" where
  "read_chunks dec rank c buf [] = ([], None, c, buf)"
| "read_chunks dec rank c buf (x # xs) =
     (case drain dec (Suc (rank c (buf @ x))) c (buf @ x) of
        (ds, Some e, c', buf') \<Rightarrow> (ds, Some e, c', buf')
      | (ds, None, c', buf') \<Rightarrow>
          (case read_chunks dec rank c' buf' xs of (es, r) \<Rightarrow> (ds @ es, r)))"

locale framing = stream_decoder dec rank ok
  for dec :: "'c \<Rightarrow> bytes \<Rightarrow> ('e + 'd option) \<times> 'c \<times> bytes"
    and rank :: "'c \<Rightarrow> bytes \<Rightarrow> nat" and ok :: "'c \<Rightarrow> bool" +
  fixes enc :: "'d \<Rightarrow> bytes option"
    and boundary :: "'c \<Rightarrow> bool"
  assumes enc_dec: "boundary c \<Longrightarrow> enc d = Some h \<Longrightarrow> dec c (h @ rest) = (Inr (Some d), c, rest)"
    and empty_waits: "boundary c \<Longrightarrow> dec c [] = (Inr None, c, [])"
    and boundary_ok: "boundary c \<Longrightarrow> ok c"
begin

lemma frames_of_encodings:
  assumes "boundary c" "map enc ds = map Some hs"
  shows "frames c (concat hs) = (ds, None, c, [])"
  using assms(2)
proof (induction ds arbitrary: hs)
  case Nil
  then show ?case using empty_waits [OF assms(1)] by (simp add: frames_unfold)
next
  case (Cons d ds)
  then obtain h hs' where "hs = h # hs'" "enc d = Some h" "map enc ds = map Some hs'"
    by (cases hs) auto
  with Cons.IH show ?case
    using enc_dec [OF assms(1), of d h "concat hs'"] by (simp add: frames_unfold [of c])
qed

lemma read_chunks_frames:
  assumes "ok c" "frames c (buf @ concat xs) = (ds, None, c', buf')" "frames c buf = ([], None, c, buf)"
  shows "read_chunks dec rank c buf xs = (ds, None, c', buf')"
  using assms
proof (induction xs arbitrary: c buf ds)
  case Nil
  then show ?case by simp
next
  case (Cons x xs)
  obtain ds1 e1 c1 buf1 where f1: "frames c (buf @ x) = (ds1, e1, c1, buf1)"
    by (cases "frames c (buf @ x)") auto
  have "e1 = None"
  proof (rule ccontr)
    assume "e1 \<noteq> None"
    with f1 Cons.prems show False
      using frames_append_fail [OF Cons.prems(1), of "buf @ x" ds1 _ c1 buf1 "concat xs"] by auto
  qed
  with f1 have f1: "frames c (buf @ x) = (ds1, None, c1, buf1)" by simp
  obtain es where es: "frames c1 (buf1 @ concat xs) = (es, None, c', buf')" "ds = ds1 @ es"
    using frames_append [OF Cons.prems(1) f1, of "concat xs"] Cons.prems(2) by (auto split: prod.splits)
  have "read_chunks dec rank c1 buf1 xs = (es, None, c', buf')"
    using Cons.IH frames_ok [OF Cons.prems(1) f1] es(1) frames_drained [OF Cons.prems(1) f1] by blast
  with f1 es(2) show ?case by (simp add: frames_def)
qed

text \<open>Whatever the cut, a reader sees exactly the messages that were written.\<close>

lemma read_chunks_encodings:
  assumes "boundary c" "map enc ds = map Some hs" "concat xs = concat hs"
  shows "read_chunks dec rank c [] xs = (ds, None, c, [])"
proof (rule read_chunks_frames)
  show "ok c" using boundary_ok assms(1) .
  show "frames c ([] @ concat xs) = (ds, None, c, [])"
    using frames_of_encodings [OF assms(1,2)] assms(3) by simp
  show "frames c [] = ([], None, c, [])"
    using empty_waits [OF assms(1)] by (simp add: frames_unfold)
qed

end

subsection \<open>\<open>BytesCodec\<close> keeps the contract\<close>

definition codec_rank :: "bytes_codec \<Rightarrow> bytes \<Rightarrow> nat" where
  "codec_rank c src = 2 * length src + (case state c of Head \<Rightarrow> 0 | Data _ \<Rightarrow> 1)"

definition frame_of :: "bytes \<Rightarrow> bytes option" where
  "frame_of d = map_option (\<lambda>h. h @ d) (encode_head (length d))"

definition framed :: "bytes_codec \<Rightarrow> bool" where
  "framed c \<longleftrightarrow> \<not> raw c"

definition at_boundary :: "bytes_codec \<Rightarrow> bool" where
  "at_boundary c \<longleftrightarrow> \<not> raw c \<and> state c = Head \<and> max_packet_length c \<ge> 0x3FFFFFFF"

lemma head_len_append: "src \<noteq> [] \<Longrightarrow> head_len (src @ later) = head_len src"
  by (cases src) (simp_all add: head_len_def)

lemma head_number_append:
  assumes "src \<noteq> []" "head_len src \<le> length src"
  shows "head_number (src @ later) = head_number src"
  using assms head_len_range [of src]
  by (simp add: head_number_alt head_len_append)

lemmas decode_defs = decode_def decode_head_def decode_data_def decode_payload_def Let_def

lemma decode_frame: 
  assumes "at_boundary c" "frame_of d = Some h"
  shows "decode c (h @ rest) = (Inr (Some d), c, rest)"
proof -
  let ?k = "head_size (length d)"
  let ?h = "le_bytes ?k (head_word ?k (length d))"
  have len: "length d \<le> 0x3FFFFFFF" and h: "h = ?h @ d"
    using assms(2) by (auto simp: frame_of_def encode_head_eq split: if_splits)
  have k: "?k \<in> {1..4}" by (rule head_size_range)
  have hl: "head_len (?h @ d @ rest) = ?k" using k by (rule head_len_encoded)
  have hn: "head_number (?h @ d @ rest) = of_nat (length d)"
    using k head_size_bound [OF len] by (rule head_number_encoded)
  have n: "unat (of_nat (length d) :: usize) = length d"
    using len by (simp add: unat_of_nat)
  have "\<not> (of_nat (length d) :: usize) > max_packet_length c"
    using of_nat_below [OF len] assms(1) n len by (auto simp: at_boundary_def word_less_nat_alt word_le_nat_alt)
  moreover have "?h @ d @ rest \<noteq> []" using k by (auto simp flip: length_0_conv)
  ultimately show ?thesis
    using assms(1) h hl hn n by (simp add: decode_defs at_boundary_def)
qed

lemma decode_head_append:
  "decode_head c src = (Inl e, src') \<Longrightarrow> decode_head c (src @ later) = (Inl e, src' @ later)"
  "decode_head c src = (Inr (Some n), src') \<Longrightarrow>
     decode_head c (src @ later) = (Inr (Some n), src' @ later)"
  by (auto simp: decode_head_def Let_def head_len_append head_number_append split: if_splits)

lemma decode_head_None: "decode_head c src = (Inr None, src') \<Longrightarrow> src' = src"
  by (auto simp: decode_head_def Let_def split: if_splits)

lemma decode_head_Some_length: "decode_head c src = (Inr (Some n), src') \<Longrightarrow> length src' < length src"
  using head_len_range [of src] by (auto simp: decode_head_def Let_def split: if_splits)

lemma decode_payload_append:
  "decode_payload c n src = (Inr (Some d), c', src') \<Longrightarrow>
     decode_payload c n (src @ later) = (Inr (Some d), c', src' @ later)"
  by (auto simp: decode_payload_def decode_data_def split: if_splits)

lemma decode_payload_cases:
  "decode_payload c n src = (r, c', src') \<Longrightarrow>
     r = Inr None \<and> c' = c \<and> src' = src \<or>
     (\<exists>d. r = Inr (Some d) \<and> c' = c\<lparr>state := Head\<rparr> \<and> length src' \<le> length src)"
  by (auto simp: decode_payload_def decode_data_def split: if_splits)

lemma decode_head_eq:
  assumes "framed c" "state c = Head"
  shows "decode_head c src = (Inl e, src') \<Longrightarrow> decode c src = (Inl e, c, src')"
    and "decode_head c src = (Inr None, src') \<Longrightarrow> decode c src = (Inr None, c, src')"
    and "decode_head c src = (Inr (Some n), src') \<Longrightarrow>
           decode c src = decode_payload (c\<lparr>state := Data n\<rparr>) n src'"
  using assms by (simp_all add: decode_def framed_def)

lemma decode_data_eq:
  "framed c \<Longrightarrow> state c = Data n \<Longrightarrow> decode c src = decode_payload c n src"
  by (simp add: decode_def framed_def)

lemma framed_state [simp]: "framed (c\<lparr>state := x\<rparr>) = framed c"
  by (simp add: framed_def)

lemma decode_cases:
  assumes "framed c"
  obtains (head_error) e src1 where "state c = Head" "decode_head c src = (Inl e, src1)"
      "decode c src = (Inl e, c, src1)"
  | (head_wait) "state c = Head" "decode_head c src = (Inr None, src)" "decode c src = (Inr None, c, src)"
  | (head_payload) n src1 where "state c = Head" "decode_head c src = (Inr (Some n), src1)"
      "decode c src = decode_payload (c\<lparr>state := Data n\<rparr>) n src1"
  | (payload) n where "state c = Data n" "decode c src = decode_payload c n src"
proof (cases "state c")
  case Head
  obtain r src1 where h: "decode_head c src = (r, src1)" by (cases "decode_head c src") auto
  show ?thesis
  proof (cases r)
    case (Inl e)
    with Head h head_error decode_head_eq(1) [OF assms Head] show ?thesis by simp
  next
    case (Inr o1)
    with Head h head_wait head_payload decode_head_eq(2,3) [OF assms Head] decode_head_None [of c src src1]
    show ?thesis by (cases o1) auto
  qed
next
  case (Data n)
  with payload decode_data_eq [OF assms Data] show ?thesis by simp
qed

lemma decode_frame_stable:
  assumes "framed c" "decode c src = (Inr (Some d), c', src')"
  shows "decode c (src @ later) = (Inr (Some d), c', src' @ later)"
  using assms(1)
proof (cases rule: decode_cases [of c src, consumes 1])
  case (head_payload n src1)
  with assms show ?thesis
    by (simp add: decode_head_eq(3) [OF assms(1) _ decode_head_append(2)] decode_payload_append)
next
  case (payload n)
  with assms show ?thesis by (simp add: decode_data_eq decode_payload_append)
qed (use assms in auto)

lemma decode_wait_resumes:
  assumes "framed c" "decode c src = (Inr None, c', src')"
  shows "decode c (src @ later) = decode c' (src' @ later)"
  using assms(1)
proof (cases rule: decode_cases [of c src, consumes 1])
  case (head_payload n src1)
  then have "c' = c\<lparr>state := Data n\<rparr>" "src' = src1"
    using decode_payload_cases [of "c\<lparr>state := Data n\<rparr>" n src1 "Inr None" c' src']
      assms(2) head_payload(3) by auto
  with head_payload assms(1) show ?thesis
    by (simp add: decode_head_eq(3) [OF assms(1) _ decode_head_append(2)] decode_data_eq)
next
  case (payload n)
  then show ?thesis
    using decode_payload_cases [of c n src "Inr None" c' src'] assms(2) by auto
qed (use assms in auto)

lemma decode_fail_stable:
  assumes "framed c" "decode c src = (Inl e, c', src')"
  shows "decode c (src @ later) = (Inl e, c', src' @ later)"
  using assms(1)
proof (cases rule: decode_cases [of c src, consumes 1])
  case (head_error e1 src1)
  then have "decode c (src @ later) = (Inl e1, c, src1 @ later)"
    using decode_head_eq(1) [OF assms(1) _ decode_head_append(1)] by blast
  with head_error assms(2) show ?thesis by simp
next
  case (head_payload n src1)
  with assms(2) show ?thesis using decode_payload_cases [of "c\<lparr>state := Data n\<rparr>" n src1] by auto
next
  case (payload n)
  with assms(2) show ?thesis using decode_payload_cases [of c n src] by auto
qed (use assms in auto)

lemma decode_framed:
  assumes "framed c" "decode c src = (r, c', src')"
  shows "framed c'"
  using assms(1)
proof (cases rule: decode_cases [of c src, consumes 1])
  case (head_payload n src1)
  with assms show ?thesis using decode_payload_cases [of "c\<lparr>state := Data n\<rparr>" n src1] by auto
next
  case (payload n)
  with assms show ?thesis using decode_payload_cases [of c n src] by auto
qed (use assms in auto)

lemma decode_progress:
  assumes "decode c src = (Inr (Some d), c', src')"
  shows "codec_rank c' src' < codec_rank c src"
proof (cases "raw c")
  case True
  with assms show ?thesis by (auto simp: decode_def codec_rank_def split: if_splits)
next
  case False
  then have "framed c" by (simp add: framed_def)
  then show ?thesis
  proof (cases rule: decode_cases [of c src, consumes 1])
    case (head_payload n src1)
    with assms show ?thesis
      using decode_payload_cases [of "c\<lparr>state := Data n\<rparr>" n src1] decode_head_Some_length [of c src]
      by (fastforce simp: codec_rank_def)
  next
    case (payload n)
    with assms show ?thesis
      using decode_payload_cases [of c n src] by (auto simp: codec_rank_def)
  qed (use assms in auto)
qed

interpretation codec_reader: stream_decoder decode codec_rank framed
  by unfold_locales
     (rule decode_progress decode_frame_stable decode_wait_resumes decode_fail_stable decode_framed; assumption)+

interpretation codec: framing decode codec_rank framed frame_of at_boundary
proof
  fix c d h rest
  assume "at_boundary c" "frame_of d = Some h"
  then show "decode c (h @ rest) = (Inr (Some d), c, rest)" by (rule decode_frame)
qed (auto simp: at_boundary_def framed_def decode_defs)


subsection \<open>Properties\<close>

text \<open>Writing several messages, as a sender does: each \<open>encode\<close> appends to the buffer.\<close>

fun encode_all :: "bytes_codec \<Rightarrow> bytes list \<Rightarrow> bytes \<Rightarrow> io_error + bytes" where
  "encode_all c [] buf = Inr buf"
| "encode_all c (d # ds) buf =
     (case encode c d buf of Inl e \<Rightarrow> Inl e | Inr buf' \<Rightarrow> encode_all c ds buf')"

lemma encode_frame_of:
  "\<not> raw c \<Longrightarrow> encode c d buf =
     (case frame_of d of Some h \<Rightarrow> Inr (buf @ h) | None \<Rightarrow> Inl (InvalidInput ''Overflow''))"
  by (simp add: encode_def frame_of_def split: option.split)

lemma encode_all_frames:
  "\<not> raw c \<Longrightarrow> encode_all c ds buf = Inr wire \<Longrightarrow>
     \<exists>hs. map frame_of ds = map Some hs \<and> wire = buf @ concat hs"
proof (induction ds arbitrary: buf)
  case Nil
  then show ?case by simp
next
  case (Cons d ds)
  then obtain h where h: "frame_of d = Some h" "encode_all c ds (buf @ h) = Inr wire"
    by (auto simp: encode_frame_of split: option.splits)
  from Cons.IH [OF Cons.prems(1) h(2)] obtain hs
    where "map frame_of ds = map Some hs" "wire = (buf @ h) @ concat hs" by blast
  with h(1) show ?case by (intro exI [of _ "h # hs"]) simp
qed

text \<open>C14: However the network cuts the stream, the reader gets the messages that were sent.\<close>

theorem framing_roundtrip:
  assumes "at_boundary c" and "encode_all c ds [] = Inr wire" and "concat chunks = wire"
  shows "read_chunks decode codec_rank c [] chunks = (ds, None, c, [])"
proof -
  obtain hs where "map frame_of ds = map Some hs" "wire = concat hs"
    using encode_all_frames [OF _ assms(2)] assms(1) by (auto simp: at_boundary_def)
  with assms show ?thesis by (intro codec.read_chunks_encodings) auto
qed

theorem framing_roundtrip_witness:
  "read_chunks decode codec_rank new_codec [] [[12, 7], [], [8, 9, 0], [4, 1]]
     = ([[7, 8, 9], [], [1]], None, new_codec, [])"
  by (rule framing_roundtrip [where wire = "[12, 7, 8, 9, 0, 4, 1]"])
     (simp_all add: at_boundary_def new_codec_def encode_def encode_head_def put_u8_def Let_def)

text \<open>A sender is refused exactly when the payload does not fit the 30-bit length field.\<close>

theorem encode_overflow_iff:
  "encode c d buf = Inl e \<longleftrightarrow>
     \<not> raw c \<and> length d > 0x3FFFFFFF \<and> e = InvalidInput ''Overflow''"
  by (auto simp: encode_def encode_head_eq)

end
