(* ===== verification/Net_Addr.thy ===== *)
theory Net_Addr
  imports Prelude
begin

text \<open>
  Socket addresses as the servers and the client use them (Rust's \<open>IpAddr\<close> and
  \<open>SocketAddr\<close> with their \<open>Display\<close> text), and \<open>AddrMangle\<close> of
  \<open>libs/hbb_common/src/lib.rs\<close>, which hides an IPv4 address in a buffer keyed by the clock.
  A panic of the source is \<open>None\<close>.
\<close>

datatype ip_addr = IpV4 u8 u8 u8 u8 | IpV6 "u16 list"

datatype socket_addr = SocketV4 u8 u8 u8 u8 u16 | SocketV6 "u16 list" u16

fun ip :: "socket_addr \<Rightarrow> ip_addr" where
  "ip (SocketV4 a b c d p) = IpV4 a b c d"
| "ip (SocketV6 segs p) = IpV6 segs"

fun port :: "socket_addr \<Rightarrow> u16" where
  "port (SocketV4 a b c d p) = p"
| "port (SocketV6 segs p) = p"

definition any_addr :: socket_addr where
  "any_addr = SocketV4 0 0 0 0 0"

definition ADDR_127 :: ip_addr where
  "ADDR_127 = IpV4 127 0 0 1"

subsection \<open>Display text\<close>

fun show_nat :: "nat \<Rightarrow> string" where
  "show_nat n = (if n < 10 then [char_of (48 + n)]
     else show_nat (n div 10) @ [char_of (48 + n mod 10)])"

declare show_nat.simps [simp del]

fun show_hex :: "nat \<Rightarrow> string" where
  "show_hex n = (if n < 10 then [char_of (48 + n)]
     else if n < 16 then [char_of (87 + n)]
     else show_hex (n div 16) @ show_hex (n mod 16))"

declare show_hex.simps [simp del]

fun join_with :: "string \<Rightarrow> string list \<Rightarrow> string" where
  "join_with sep [] = []"
| "join_with sep [x] = x"
| "join_with sep (x # y # ys) = x @ sep @ join_with sep (y # ys)"

text \<open>The longest run of zero segments, earliest first: (start, length).\<close>

fun zero_run :: "nat \<Rightarrow> nat \<times> nat \<Rightarrow> u16 list \<Rightarrow> nat \<times> nat" where
  "zero_run i best [] = best"
| "zero_run i best (s # ss) =
     (let n = length (takeWhile ((=) 0) (s # ss))
      in zero_run (Suc i) (if n > snd best then (i, n) else best) ss)"

definition show_v4 :: "u8 \<Rightarrow> u8 \<Rightarrow> u8 \<Rightarrow> u8 \<Rightarrow> string" where
  "show_v4 a b c d = join_with ''.'' (map (show_nat \<circ> unat) [a, b, c, d])"

definition show_v6 :: "u16 list \<Rightarrow> string" where
  "show_v6 segs =
     (if take 6 segs = [0, 0, 0, 0, 0, 0xFFFF] \<and> length segs = 8 then
        ''::ffff:'' @ show_v4 (ucast (drop_bit 8 (segs ! 6))) (ucast (segs ! 6))
          (ucast (drop_bit 8 (segs ! 7))) (ucast (segs ! 7))
      else let (i, n) = zero_run 0 (0, 0) segs; hex = map (show_hex \<circ> unat) in
        if n > 1 then join_with '':'' (hex (take i segs)) @ ''::'' @ join_with '':'' (hex (drop (i + n) segs))
        else join_with '':'' (hex segs))"

fun ip_to_string :: "ip_addr \<Rightarrow> string" where
  "ip_to_string (IpV4 a b c d) = show_v4 a b c d"
| "ip_to_string (IpV6 segs) = show_v6 segs"

fun addr_to_string :: "socket_addr \<Rightarrow> string" where
  "addr_to_string (SocketV4 a b c d p) = show_v4 a b c d @ '':'' @ show_nat (unat p)"
| "addr_to_string (SocketV6 segs p) = ''['' @ show_v6 segs @ '']:'' @ show_nat (unat p)"

subsection \<open>\<open>AddrMangle\<close>\<close>

text \<open>
  \<open>encode\<close> reads the clock: \<open>tm\<close> is the low 32 bits of the microseconds since the epoch. Every
  number is computed in \<open>u128\<close>.
\<close>

definition mangle_number :: "u32 \<Rightarrow> bytes \<Rightarrow> u16 \<Rightarrow> u128" where
  "mangle_number now octets p =
     (let tm = ucast now; ip = ucast (of_le_bytes octets :: u32); port = ucast p
      in push_bit 49 (ip + tm) OR push_bit 17 tm OR (port + (tm AND 0xFFFF)))"

definition strip_padding :: "bytes \<Rightarrow> bytes" where
  "strip_padding bytes = take (length bytes - length (takeWhile ((=) 0) (rev bytes))) bytes"

fun mangle_encode :: "u32 \<Rightarrow> socket_addr \<Rightarrow> bytes option" where
  "mangle_encode now (SocketV4 a b c d p) =
     Some (strip_padding (le_bytes 16 (mangle_number now [a, b, c, d] p)))"
| "mangle_encode now (SocketV6 segs p) = None"

definition unmangle_number :: "u128 \<Rightarrow> socket_addr" where
  "unmangle_number number =
     (let tm = drop_bit 17 number AND 0xFFFFFFFF;
          ip = le_bytes 4 (ucast (drop_bit 49 number - tm) :: u32);
          port = (number AND 0xFFFFFF) - (tm AND 0xFFFF)
      in SocketV4 (ip ! 0) (ip ! 1) (ip ! 2) (ip ! 3) (ucast port))"

text \<open>\<open>padded[..bytes.len()]\<close> panics when the buffer is longer than the 16 bytes of the number.\<close>

definition mangle_decode :: "bytes \<Rightarrow> socket_addr option" where
  "mangle_decode bytes =
     (if length bytes > 16 then None
      else Some (unmangle_number (of_le_bytes (bytes @ replicate (16 - length bytes) 0))))"

subsection \<open>The mangled number\<close>

lemma mask_numerals:
  "(0xFFFF :: u128) = mask 16" "(0xFFFFFF :: u128) = mask 24" "(0xFFFFFFFF :: u128) = mask 32"
  by (simp_all add: mask_eq_exp_minus_1)

lemma strip_padding_zeros: "\<exists>n. bs = strip_padding bs @ replicate n 0"
proof -
  have "rev (takeWhile ((=) 0) (rev bs)) = replicate (length (takeWhile ((=) 0) (rev bs))) 0"
    by (subst takeWhile_eq_replicate) simp
  then show ?thesis
    using takeWhile_rev_split [of bs "(=) 0"] unfolding strip_padding_def by metis
qed

lemma length_strip_padding: "length (strip_padding bs) \<le> length bs"
  by (simp add: strip_padding_def)

lemma of_le_bytes_strip [simp]: "of_le_bytes (strip_padding bs) = (of_le_bytes bs :: 'a::len word)"
  by (metis of_le_bytes_append_zeros strip_padding_zeros)

lemma low_part_bound:
  "ucast (p :: u16) + ((ucast (now :: u32) :: u128) AND 0xFFFF) < 2 ^ 17"
proof -
  have "unat ((ucast now :: u128) AND 0xFFFF) < 2 ^ 16"
    unfolding mask_numerals using take_bit_nat_less_exp [of 16 "unat (ucast now :: u128)"]
    by (simp flip: take_bit_eq_mask add: unsigned_take_bit_eq)
  moreover have "unat (ucast p :: u128) < 2 ^ 16"
    using unat_bound [of p] by (simp add: unat_ucast_up)
  ultimately show ?thesis by (simp add: word_less_nat_alt unat_word_ariths)
qed

lemma number_time:
  "drop_bit 17 (mangle_number now octets p) AND 0xFFFFFFFF = ucast now"
proof (rule bit_word_eqI)
  fix n assume "n < LENGTH(128)"
  show "bit (drop_bit 17 (mangle_number now octets p) AND 0xFFFFFFFF) n = bit (ucast now :: u128) n"
    using bit_below [OF low_part_bound [of p now], of "17 + n"] bit_imp_le_length [of now n]
    unfolding mangle_number_def Let_def mask_numerals
    by (auto simp: bit_simps)
qed

lemma number_address:
  "drop_bit 49 (mangle_number now octets p) - ucast now =
     ucast (of_le_bytes octets :: u32)"
proof -
  let ?s = "ucast (of_le_bytes octets :: u32) + ucast now :: u128"
  have "unat (ucast (of_le_bytes octets :: u32) :: u128) < 2 ^ 32" "unat (ucast now :: u128) < 2 ^ 32"
    using unat_bound [of "of_le_bytes octets :: u32"] unat_bound [of now]
    by (simp_all add: unat_ucast_up)
  then have s: "?s < 2 ^ 33" by (simp add: word_less_nat_alt unat_word_ariths)
  have "drop_bit 49 (mangle_number now octets p) = ?s"
  proof (rule bit_word_eqI)
    fix n assume "n < LENGTH(128)"
    show "bit (drop_bit 49 (mangle_number now octets p)) n = bit ?s n"
      using bit_below [OF low_part_bound [of p now], of "49 + n"] bit_imp_le_length [of now "32 + n"]
        bit_below [OF s, of n] \<open>n < LENGTH(128)\<close>
      unfolding mangle_number_def Let_def mask_numerals
      by (auto simp: bit_simps)
  qed
  then show ?thesis by simp
qed

lemma number_port:
  "ucast ((mangle_number now octets p AND 0xFFFFFF) - (ucast now AND 0xFFFF)) = p"
proof -
  let ?l = "ucast p + (ucast now AND 0xFFFF) :: u128"
  have "(ucast (mangle_number now octets p AND 0xFFFFFF) :: u16) = ucast ?l"
    by (rule bit_word_eqI)
       (auto simp: bit_simps mangle_number_def Let_def mask_numerals)
  then show ?thesis
    by (simp add: ucast_minus_down ucast_plus_down ucast_ucast_id)
qed

lemma le_bytes_of_four:
  "le_bytes 4 (of_le_bytes [a, b, c, d] :: u32) = [a, b, c, d]"
proof -
  have "ucast (of_le_bytes [a, b, c, d] :: u32) = a"
    "ucast (drop_bit 8 (of_le_bytes [a, b, c, d] :: u32)) = b"
    "ucast (drop_bit 16 (of_le_bytes [a, b, c, d] :: u32)) = c"
    "ucast (drop_bit 24 (of_le_bytes [a, b, c, d] :: u32)) = d"
    by (rule bit_word_eqI; auto simp: bit_simps dest: bit_imp_le_length)+
  then show ?thesis by (simp add: numeral_eq_Suc)
qed

lemma unmangle_mangle:
  "unmangle_number (mangle_number now [a, b, c, d] p) = SocketV4 a b c d p"
proof -
  let ?n = "mangle_number now [a, b, c, d] p"
  have "le_bytes 4 (ucast (drop_bit 49 ?n - ucast now) :: u32) = [a, b, c, d]"
    unfolding number_address by (subst ucast_ucast_id) (simp_all only: le_bytes_of_four len_num1 len_bit0)
  then show ?thesis
    by (simp add: unmangle_number_def number_time number_port del: le_bytes.simps)
qed

lemma mangle_decode_encode:
  "mangle_encode now addr = Some bs \<Longrightarrow> mangle_decode bs = Some addr"
proof (cases addr)
  case (SocketV4 a b c d p)
  let ?v = "mangle_number now [a, b, c, d] p"
  assume "mangle_encode now addr = Some bs"
  then have bs: "bs = strip_padding (le_bytes 16 ?v)" using SocketV4 by (simp del: le_bytes.simps)
  then have "length bs \<le> 16" using length_strip_padding [of "le_bytes 16 ?v"] by simp
  moreover have "of_le_bytes (le_bytes 16 ?v) = ?v"
    by (simp add: of_le_bytes_le_bytes take_bit_whole del: le_bytes.simps)
  ultimately show ?thesis
    using SocketV4 bs by (simp add: mangle_decode_def unmangle_mangle del: le_bytes.simps)
qed simp

lemma length_mangle_encode: "mangle_encode now addr = Some bs \<Longrightarrow> length bs \<le> 16"
  by (cases addr) (auto intro: order_trans [OF length_strip_padding] simp del: le_bytes.simps)

subsection \<open>Properties\<close>

text \<open>C28: An IPv4 address survives the mangling, at any time of day.\<close>

theorem mangle_roundtrip:
  "map_option mangle_decode (mangle_encode now (SocketV4 a b c d p)) =
     Some (Some (SocketV4 a b c d p))"
  using mangle_decode_encode [of now "SocketV4 a b c d p"] by (simp del: le_bytes.simps)

text \<open>A buffer of more than 16 bytes, which any peer can send, makes the decoder panic.\<close>

theorem mangle_decode_panics_iff: "mangle_decode bs = None \<longleftrightarrow> length bs > 16"
  by (simp add: mangle_decode_def)

end
