(* ===== verification/Version.thy ===== *)
theory Version
  imports Prelude
begin

text \<open>
  The version helpers of \<open>libs/hbb_common/src/lib.rs\<close>: the number a dotted version is compared
  by, and the version cut out of a download address. \<open>str::parse\<close> of a signed integer is
  \<open>parse_int\<close>: an optional sign, at least one digit, and the value within the type's range.
\<close>

fun digits_value :: "int \<Rightarrow> string \<Rightarrow> int option" where
  "digits_value acc [] = Some acc"
| "digits_value acc (c # cs) =
     (if of_char c \<in> {48..57 :: nat} then digits_value (acc * 10 + int (of_char c - 48)) cs else None)"

definition parse_int :: "int \<Rightarrow> int \<Rightarrow> string \<Rightarrow> int option" where
  "parse_int lo hi s =
     (let r = (case s of
          [] \<Rightarrow> None
        | c # cs \<Rightarrow>
            if c = CHR ''-'' then (if cs = [] then None else map_option uminus (digits_value 0 cs))
            else if c = CHR ''+'' then (if cs = [] then None else digits_value 0 cs)
            else digits_value 0 s)
      in case r of Some v \<Rightarrow> if lo \<le> v \<and> v \<le> hi then Some v else None | None \<Rightarrow> None)"

definition parse_i64 :: "string \<Rightarrow> int option" where
  "parse_i64 = parse_int (- (2 ^ 63)) (2 ^ 63 - 1)"

definition parse_i32 :: "string \<Rightarrow> int option" where
  "parse_i32 = parse_int (- (2 ^ 31)) (2 ^ 31 - 1)"

text \<open>An unsigned type accepts a leading plus, but no minus.\<close>

definition parse_u16 :: "string \<Rightarrow> int option" where
  "parse_u16 s = (if s \<noteq> [] \<and> hd s = CHR ''-'' then None else parse_int 0 (2 ^ 16 - 1) s)"

definition parse_usize :: "string \<Rightarrow> int option" where
  "parse_usize s = (if s \<noteq> [] \<and> hd s = CHR ''-'' then None else parse_int 0 (2 ^ 64 - 1) s)"

fun split_on :: "char \<Rightarrow> string \<Rightarrow> string list" where
  "split_on sep [] = [[]]"
| "split_on sep (c # cs) =
     (if c = sep then [] # split_on sep cs
      else case split_on sep cs of (w # ws) \<Rightarrow> (c # w) # ws | [] \<Rightarrow> [[c]])"

definition starts_with :: "string \<Rightarrow> string \<Rightarrow> bool" where
  "starts_with p s \<longleftrightarrow> take (length p) s = p"

fun contains :: "string \<Rightarrow> string \<Rightarrow> bool" where
  "contains p [] = (p = [])"
| "contains p (c # cs) = (starts_with p (c # cs) \<or> contains p cs)"

text \<open>\<open>i64\<close> arithmetic: the release build wraps.\<close>

definition wrap_i64 :: "int \<Rightarrow> int" where
  "wrap_i64 n = (n + 2 ^ 63) mod 2 ^ 64 - 2 ^ 63"

definition version_step :: "int \<Rightarrow> string \<Rightarrow> int" where
  "version_step n x =
     wrap_i64 (wrap_i64 (n * 1000) + (case parse_i64 x of Some v \<Rightarrow> v | None \<Rightarrow> 0))"

definition get_version_number :: "string \<Rightarrow> int" where
  "get_version_number v = foldl version_step 0 (split_on (CHR ''.'') v)"

text \<open>The first index, from the end, of a character: \<open>chars().rev().enumerate()...next()\<close>.\<close>

fun find_index :: "nat \<Rightarrow> char \<Rightarrow> string \<Rightarrow> nat option" where
  "find_index i c [] = None"
| "find_index i c (x # xs) = (if x = c then Some i else find_index (Suc i) c xs)"

definition get_version_from_url :: "string \<Rightarrow> string" where
  "get_version_from_url url =
     (let n = length url in
      case find_index 0 (CHR ''-'') (rev url) of
        None \<Rightarrow> []
      | Some a \<Rightarrow>
          (case find_index 0 (CHR ''.'') (rev url) of
             None \<Rightarrow> []
           | Some b \<Rightarrow>
               if a > b then
                 (if parse_i32 (drop (n - b) url) \<noteq> None then drop (n - a) url
                  else take (a - b - 1) (drop (n - a) url))
               else drop (n - a) url))"

end
