(* ===== verification/Peer_Map.thy ===== *)
theory Peer_Map
  imports Prelude Net_Addr
begin

text \<open>
  The peers the rendezvous server knows: \<open>Peer\<close> and \<open>PeerMap\<close> of \<open>KdDeskTC_Server/src/peer.rs\<close>
  over the \<open>peer\<close> table of \<open>database.rs\<close>. The map in memory is a cache of the table that also
  holds the peers which registered but have no key yet.

  \<open>LockPeer\<close> is a shared cell, reached only through the map in memory, so the model stores the
  peer itself under its id and writes the updates there. What the code calls from outside is the
  environment \<open>env\<close>: the clock (in milliseconds, read once per operation), whether SQLite answers,
  the fresh UUID of \<open>insert_peer\<close>, and serde's JSON text of a \<open>PeerInfo\<close>.

  The locale \<open>peer_store\<close> is what the handlers rely on: a lookup after a successful update finds
  the new key, also after a restart that loses the memory.
\<close>

subsection \<open>The table\<close>

record row =
  row_guid :: bytes
  row_id :: string
  row_uuid :: bytes
  row_pk :: bytes
  row_user :: "bytes option"
  row_status :: "int option"
  row_info :: string

type_synonym database = "row list"

datatype sql_error = Unavailable | Unique_violation

definition get_peer :: "bool \<Rightarrow> string \<Rightarrow> database \<Rightarrow> sql_error + row option" where
  "get_peer up i d = (if up then Inr (find (\<lambda>r. row_id r = i) d) else Inl Unavailable)"

definition insert_peer ::
  "bool \<Rightarrow> bytes \<Rightarrow> string \<Rightarrow> bytes \<Rightarrow> bytes \<Rightarrow> string \<Rightarrow> database \<Rightarrow> (sql_error + bytes) \<times> database" where
  "insert_peer up g i u k js d =
     (if \<not> up then (Inl Unavailable, d)
      else if list_ex (\<lambda>r. row_guid r = g \<or> row_id r = i) d then (Inl Unique_violation, d)
      else (Inr g, d @ [\<lparr>row_guid = g, row_id = i, row_uuid = u, row_pk = k, row_user = None,
              row_status = None, row_info = js\<rparr>]))"

definition db_update_pk ::
  "bool \<Rightarrow> bytes \<Rightarrow> string \<Rightarrow> bytes \<Rightarrow> string \<Rightarrow> database \<Rightarrow> (sql_error + unit) \<times> database" where
  "db_update_pk up g i k js d =
     (if \<not> up then (Inl Unavailable, d)
      else if list_ex (\<lambda>r. row_guid r = g) d \<and> list_ex (\<lambda>r. row_guid r \<noteq> g \<and> row_id r = i) d
      then (Inl Unique_violation, d)
      else (Inr (), map (\<lambda>r. if row_guid r = g
              then r\<lparr>row_id := i, row_pk := k, row_info := js\<rparr> else r) d))"

subsection \<open>The peers\<close>

record peer_info =
  info_ip :: string

record peer =
  socket_addr :: socket_addr
  last_reg_time :: nat
  guid :: bytes
  uuid :: bytes
  pk :: bytes
  user :: "bytes option"
  info :: peer_info
  disabled :: bool
  reg_pk :: "nat \<times> nat"

record env =
  now :: nat
  db_up :: bool
  new_guid :: bytes
  info_to_json :: "peer_info \<Rightarrow> string"
  info_of_json :: "string \<Rightarrow> peer_info option"

text \<open>\<open>checked_sub\<close> of an hour: the clock may have started less than an hour ago.\<close>

definition get_expired_time :: "nat \<Rightarrow> nat" where
  "get_expired_time t = (if t \<ge> 3600000 then t - 3600000 else t)"

definition default_peer :: "nat \<Rightarrow> peer" where
  "default_peer t = \<lparr>socket_addr = any_addr, last_reg_time = get_expired_time t, guid = [], uuid = [],
     pk = [], user = None, info = \<lparr>info_ip = []\<rparr>, disabled = False, reg_pk = (0, get_expired_time t)\<rparr>"

record peer_map =
  peers :: "string \<rightharpoonup> peer"
  db :: database

definition peer_of_row :: "'a env_scheme \<Rightarrow> row \<Rightarrow> peer" where
  "peer_of_row E r = (default_peer (now E))
     \<lparr>guid := row_guid r, uuid := row_uuid r, pk := row_pk r, user := row_user r,
      info := (case info_of_json E (row_info r) of Some i \<Rightarrow> i | None \<Rightarrow> \<lparr>info_ip = []\<rparr>),
      disabled := (row_status r = Some 0)\<rparr>"

definition get :: "'a env_scheme \<Rightarrow> string \<Rightarrow> peer_map \<Rightarrow> peer option \<times> peer_map" where
  "get E i m =
     (case peers m i of
        Some p \<Rightarrow> (Some p, m)
      | None \<Rightarrow>
          (case get_peer (db_up E) i (db m) of
             Inr (Some v) \<Rightarrow>
               (let p = peer_of_row E v in (Some p, m\<lparr>peers := (peers m)(i \<mapsto> p)\<rparr>))
           | _ \<Rightarrow> (None, m)))"

definition get_or :: "'a env_scheme \<Rightarrow> string \<Rightarrow> peer_map \<Rightarrow> peer \<times> peer_map" where
  "get_or E i m =
     (case get E i m of
        (Some p, m') \<Rightarrow> (p, m')
      | (None, m') \<Rightarrow>
          (case peers m' i of
             Some p \<Rightarrow> (p, m')
           | None \<Rightarrow>
               (let tmp = default_peer (now E) in (tmp, m'\<lparr>peers := (peers m')(i \<mapsto> tmp)\<rparr>))))"

definition get_in_memory :: "string \<Rightarrow> peer_map \<Rightarrow> peer option" where
  "get_in_memory i m = peers m i"

definition is_in_memory :: "string \<Rightarrow> peer_map \<Rightarrow> bool" where
  "is_in_memory i m \<longleftrightarrow> i \<in> dom (peers m)"

definition remove :: "string \<Rightarrow> peer_map \<Rightarrow> peer_map" where
  "remove i m = m\<lparr>peers := (peers m)(i := None)\<rparr>"

text \<open>A write through the shared cell that \<open>get\<close> and \<open>get_or\<close> handed out.\<close>

definition write_peer :: "string \<Rightarrow> peer \<Rightarrow> peer_map \<Rightarrow> peer_map" where
  "write_peer i p m = m\<lparr>peers := (peers m)(i \<mapsto> p)\<rparr>"

datatype register_pk_result =
  OK | UUID_MISMATCH | ID_EXISTS | TOO_FREQUENT | INVALID_ID_FORMAT | NOT_SUPPORT | SERVER_ERROR

definition update_pk ::
  "'a env_scheme \<Rightarrow> string \<Rightarrow> peer \<Rightarrow> socket_addr \<Rightarrow> bytes \<Rightarrow> bytes \<Rightarrow> string \<Rightarrow> peer_map
     \<Rightarrow> register_pk_result \<times> peer_map" where
  "update_pk E i p addr u k ipaddr m =
     (let w = p\<lparr>socket_addr := addr, uuid := u, pk := k, last_reg_time := now E,
                info := (info p)\<lparr>info_ip := ipaddr\<rparr>\<rparr>;
          m = write_peer i w m;
          info_str = info_to_json E (info w)
      in if guid w = [] then
           (case insert_peer (db_up E) (new_guid E) i u k info_str (db m) of
              (Inl err, d) \<Rightarrow> (SERVER_ERROR, m\<lparr>db := d\<rparr>)
            | (Inr g, d) \<Rightarrow> (OK, write_peer i (w\<lparr>guid := g\<rparr>) (m\<lparr>db := d\<rparr>)))
         else
           (case db_update_pk (db_up E) (guid w) i k info_str (db m) of
              (Inl err, d) \<Rightarrow> (SERVER_ERROR, m\<lparr>db := d\<rparr>)
            | (Inr _, d) \<Rightarrow> (OK, m\<lparr>db := d\<rparr>)))"

text \<open>What a restart of the server keeps.\<close>

definition restart :: "peer_map \<Rightarrow> peer_map" where
  "restart m = m\<lparr>peers := Map.empty\<rparr>"

subsection \<open>The invariant\<close>

definition table_ok :: "database \<Rightarrow> bool" where
  "table_ok d \<longleftrightarrow> distinct (map row_guid d) \<and> distinct (map row_id d) \<and>
     (\<forall>r \<in> set d. row_guid r \<noteq> [] \<and> row_uuid r \<noteq> [])"

definition backed :: "database \<Rightarrow> string \<Rightarrow> peer \<Rightarrow> bool" where
  "backed d i p \<longleftrightarrow> guid p \<noteq> [] \<longrightarrow>
     (\<exists>r \<in> set d. row_guid r = guid p \<and> row_id r = i \<and> row_uuid r = uuid p)"

definition store_ok :: "peer_map \<Rightarrow> bool" where
  "store_ok m \<longleftrightarrow> table_ok (db m) \<and> (\<forall>i p. peers m i = Some p \<longrightarrow> backed (db m) i p)"

lemma store_okI:
  "table_ok (db m) \<Longrightarrow> (\<And>i p. peers m i = Some p \<Longrightarrow> backed (db m) i p) \<Longrightarrow> store_ok m"
  by (simp add: store_ok_def)

lemma store_okD: "store_ok m \<Longrightarrow> peers m i = Some p \<Longrightarrow> backed (db m) i p"
  by (simp add: store_ok_def)

lemma find_SomeD: "find P xs = Some x \<Longrightarrow> x \<in> set xs \<and> P x"
  by (auto simp: find_Some_iff)

lemma default_peer_simps [simp]:
  "guid (default_peer t) = []" "uuid (default_peer t) = []" "pk (default_peer t) = []"
  "socket_addr (default_peer t) = any_addr" "reg_pk (default_peer t) = (0, get_expired_time t)"
  "last_reg_time (default_peer t) = get_expired_time t" "info_ip (info (default_peer t)) = []"
  by (simp_all add: default_peer_def)

lemma peer_of_row_simps [simp]:
  "guid (peer_of_row E r) = row_guid r" "uuid (peer_of_row E r) = row_uuid r"
  "pk (peer_of_row E r) = row_pk r" "socket_addr (peer_of_row E r) = any_addr"
  "last_reg_time (peer_of_row E r) = get_expired_time (now E)"
  by (simp_all add: peer_of_row_def)

text \<open>The cases of a lookup: found in memory, read from the table, or unknown.\<close>

lemma get_cases:
  assumes "get E i m = (res, m')"
  obtains (memory) p where "peers m i = Some p" "res = Some p" "m' = m"
  | (table) v where "peers m i = None" "db_up E" "v \<in> set (db m)" "row_id v = i"
      "find (\<lambda>r. row_id r = i) (db m) = Some v"
      "res = Some (peer_of_row E v)" "m' = write_peer i (peer_of_row E v) m"
  | (unknown) "peers m i = None" "res = None" "m' = m"
      "db_up E \<longrightarrow> (\<forall>v \<in> set (db m). row_id v \<noteq> i)"
proof (cases "peers m i")
  case (Some p)
  with assms have "res = Some p" "m' = m" by (simp_all add: get_def)
  with Some memory show ?thesis by blast
next
  case None
  show ?thesis
  proof (cases "db_up E \<and> find (\<lambda>r. row_id r = i) (db m) \<noteq> None")
    case True
    then obtain v where v: "find (\<lambda>r. row_id r = i) (db m) = Some v" "db_up E" by auto
    with assms None have "res = Some (peer_of_row E v)" "m' = write_peer i (peer_of_row E v) m"
      by (auto simp: get_def get_peer_def write_peer_def Let_def)
    with v find_SomeD [OF v(1)] None table show ?thesis by blast
  next
    case False
    then have "get_peer (db_up E) i (db m) \<in> {Inr None, Inl Unavailable}"
      by (auto simp: get_peer_def)
    with assms None have "res = None" "m' = m" by (auto simp: get_def)
    with False None unknown show ?thesis by (auto simp: find_None_iff)
  qed
qed

lemma store_ok_write:
  assumes "store_ok m" "backed (db m) i p"
  shows "store_ok (write_peer i p m)"
  using assms by (auto simp: store_ok_def write_peer_def)

lemma store_ok_get: "store_ok m \<Longrightarrow> get E i m = (res, m') \<Longrightarrow> store_ok m'"
  by (erule get_cases) (simp_all, auto intro!: store_ok_write simp: backed_def)

lemma get_or_cases:
  assumes "get_or E i m = (p, m')"
  obtains (found) "get E i m = (Some p, m')"
  | (fresh) "get E i m = (None, m)" "peers m i = None" "p = default_peer (now E)"
      "m' = write_peer i p m"
proof (cases "get E i m")
  case (Pair res m1)
  show ?thesis
  proof (cases res)
    case (Some q)
    with Pair assms found show ?thesis by (simp add: get_or_def)
  next
    case None
    with Pair have "m1 = m" "peers m i = None" by (auto elim: get_cases)
    moreover from this None Pair assms have "p = default_peer (now E)" "m' = write_peer i p m"
      by (auto simp: get_or_def write_peer_def Let_def)
    ultimately show ?thesis using None Pair fresh by simp
  qed
qed

lemma store_ok_get_or: "store_ok m \<Longrightarrow> get_or E i m = (p, m') \<Longrightarrow> store_ok m'"
  by (erule get_or_cases) (simp_all add: store_ok_get store_ok_write backed_def)

lemma get_or_entry: "get_or E i m = (p, m') \<Longrightarrow> peers m' i = Some p \<and> db m' = db m"
  by (erule get_or_cases; (erule get_cases)?) (simp_all add: write_peer_def)

lemma get_frame [frame_simps]: "get E i m = (res, m') \<Longrightarrow> db m' = db m"
  by (erule get_cases) (simp_all add: write_peer_def)

subsection \<open>Updates of the table\<close>

lemma insert_peer_cases:
  assumes "insert_peer up g i u k js d = (res, d')"
  obtains (inserted) "up" "res = Inr g" "\<forall>r \<in> set d. row_guid r \<noteq> g \<and> row_id r \<noteq> i"
      "d' = d @ [\<lparr>row_guid = g, row_id = i, row_uuid = u, row_pk = k, row_user = None,
                  row_status = None, row_info = js\<rparr>]"
  | (failed) e where "res = Inl e" "d' = d" "\<not> up \<or> (\<exists>r \<in> set d. row_guid r = g \<or> row_id r = i)"
proof (cases "up \<and> \<not> (\<exists>x\<in>set d. row_guid x = g \<or> row_id x = i)")
  case True
  with assms inserted show ?thesis by (simp add: insert_peer_def list_ex_iff)
next
  case False
  with assms have "\<exists>e. res = Inl e" "d' = d"
    by (auto simp: insert_peer_def list_ex_iff split: if_splits)
  with False failed show ?thesis by blast
qed

lemma db_update_pk_cases:
  assumes "db_update_pk up g i k js d = (res, d')"
  obtains (updated) "up" "res = Inr ()"
      "(\<forall>r \<in> set d. row_guid r \<noteq> g) \<or> (\<forall>r \<in> set d. row_guid r \<noteq> g \<longrightarrow> row_id r \<noteq> i)"
      "d' = map (\<lambda>r. if row_guid r = g
              then r\<lparr>row_id := i, row_pk := k, row_info := js\<rparr> else r) d"
  | (failed) e where "res = Inl e" "d' = d"
proof (cases "up \<and> \<not> ((\<exists>r \<in> set d. row_guid r = g) \<and> (\<exists>r \<in> set d. row_guid r \<noteq> g \<and> row_id r = i))")
  case True
  with assms updated show ?thesis by (simp add: db_update_pk_def list_ex_iff) blast
next
  case False
  with assms have "\<exists>e. res = Inl e" "d' = d"
    by (auto simp: db_update_pk_def list_ex_iff split: if_splits)
  with failed show ?thesis by blast
qed

lemma distinct_ids_row:
  "table_ok d \<Longrightarrow> r \<in> set d \<Longrightarrow> s \<in> set d \<Longrightarrow> row_id r = row_id s \<Longrightarrow> r = s"
  unfolding table_ok_def by (metis distinct_map inj_onD)

lemma distinct_guids_row:
  "table_ok d \<Longrightarrow> r \<in> set d \<Longrightarrow> s \<in> set d \<Longrightarrow> row_guid r = row_guid s \<Longrightarrow> r = s"
  unfolding table_ok_def by (metis distinct_map inj_onD)

lemma find_id: "table_ok d \<Longrightarrow> r \<in> set d \<Longrightarrow> find (\<lambda>s. row_id s = row_id r) d = Some r"
  by (simp add: table_ok_def find_map_distinct)

lemma table_ok_rekey:
  assumes "table_ok d" "\<And>r. row_guid (f r) = row_guid r \<and> row_id (f r) = row_id r \<and> row_uuid (f r) = row_uuid r"
  shows "table_ok (map f d)"
proof -
  have "map row_guid (map f d) = map row_guid d" "map row_id (map f d) = map row_id d"
    using assms(2) by simp_all
  moreover have "\<forall>r \<in> set (map f d). row_guid r \<noteq> [] \<and> row_uuid r \<noteq> []"
    using assms by (auto simp: table_ok_def)
  ultimately show ?thesis using assms(1) unfolding table_ok_def by presburger
qed

text \<open>The row a peer's key goes to: its own, or a new one.\<close>

definition rekey :: "bytes \<Rightarrow> bytes \<Rightarrow> string \<Rightarrow> row \<Rightarrow> row" where
  "rekey g k js r = (if row_guid r = g then r\<lparr>row_pk := k, row_info := js\<rparr> else r)"

lemma rekey_simps [simp]:
  "row_guid (rekey g k js r) = row_guid r" "row_id (rekey g k js r) = row_id r"
  "row_uuid (rekey g k js r) = row_uuid r"
  by (simp_all add: rekey_def)

lemma update_is_rekey:
  assumes "table_ok d" "r \<in> set d" "row_guid r = g" "row_id r = i"
  shows "map (\<lambda>r. if row_guid r = g then r\<lparr>row_id := i, row_pk := k, row_info := js\<rparr> else r) d =
    map (rekey g k js) d"
proof (rule map_cong [OF refl])
  fix s assume s: "s \<in> set d"
  show "(if row_guid s = g then s\<lparr>row_id := i, row_pk := k, row_info := js\<rparr> else s) = rekey g k js s"
  proof (cases "row_guid s = g")
    case True
    with s assms have "row_id s = i" using distinct_guids_row [OF assms(1,2) s] by simp
    with True show ?thesis by (cases s) (simp add: rekey_def)
  qed (simp add: rekey_def)
qed

lemma backed_rekey: "backed d i p \<Longrightarrow> backed (map (rekey g k js) d) i p"
  by (auto simp: backed_def)

text \<open>The outcomes of \<open>update_pk\<close> for a peer the map holds and whose uuid is the registering one.\<close>

definition updated_peer :: "'a env_scheme \<Rightarrow> peer \<Rightarrow> socket_addr \<Rightarrow> bytes \<Rightarrow> bytes \<Rightarrow> string \<Rightarrow> peer" where
  "updated_peer E p addr u k ipaddr = p\<lparr>socket_addr := addr, uuid := u, pk := k, last_reg_time := now E,
     info := (info p)\<lparr>info_ip := ipaddr\<rparr>\<rparr>"

lemma updated_peer_simps [simp]:
  "guid (updated_peer E p addr u k a) = guid p" "uuid (updated_peer E p addr u k a) = u"
  "pk (updated_peer E p addr u k a) = k" "socket_addr (updated_peer E p addr u k a) = addr"
  "last_reg_time (updated_peer E p addr u k a) = now E"
  "reg_pk (updated_peer E p addr u k a) = reg_pk p"
  "info_ip (info (updated_peer E p addr u k a)) = a"
  by (simp_all add: updated_peer_def)

lemma update_pk_cases:
  assumes "update_pk E i p addr u k a m = (res, m')"
  obtains (inserted) "guid p = []" "res = OK" "\<forall>r \<in> set (db m). row_guid r \<noteq> new_guid E \<and> row_id r \<noteq> i"
      "m' = m\<lparr>peers := (peers m)(i \<mapsto> (updated_peer E p addr u k a)\<lparr>guid := new_guid E\<rparr>),
             db := db m @ [\<lparr>row_guid = new_guid E, row_id = i, row_uuid = u, row_pk = k, row_user = None,
               row_status = None, row_info = info_to_json E (info (updated_peer E p addr u k a))\<rparr>]\<rparr>"
  | (updated) "guid p \<noteq> []" "res = OK"
      "m' = m\<lparr>peers := (peers m)(i \<mapsto> updated_peer E p addr u k a),
             db := map (\<lambda>r. if row_guid r = guid p then r\<lparr>row_id := i, row_pk := k,
               row_info := info_to_json E (info (updated_peer E p addr u k a))\<rparr> else r) (db m)\<rparr>"
  | (failed) "res = SERVER_ERROR" "m' = write_peer i (updated_peer E p addr u k a) m"
proof (cases "guid p = []")
  case True
  obtain res1 d1 where op: "insert_peer (db_up E) (new_guid E) i u k
      (info_to_json E (info (updated_peer E p addr u k a))) (db m) = (res1, d1)" (is "?ins = _")
    by (cases ?ins)
  from op show ?thesis
  proof (cases rule: insert_peer_cases)
    case inserted
    with op assms True show ?thesis
      by (intro that(1)) (auto simp: update_pk_def write_peer_def Let_def simp flip: updated_peer_def)
  next
    case (failed e)
    with op assms True show ?thesis
      by (intro that(3)) (auto simp: update_pk_def write_peer_def Let_def simp flip: updated_peer_def)
  qed
next
  case False
  obtain res1 d1 where op: "db_update_pk (db_up E) (guid p) i k
      (info_to_json E (info (updated_peer E p addr u k a))) (db m) = (res1, d1)" (is "?upd = _")
    by (cases ?upd)
  from op show ?thesis
  proof (cases rule: db_update_pk_cases)
    case updated
    with op assms False show ?thesis
      by (intro that(2)) (auto simp: update_pk_def write_peer_def Let_def simp flip: updated_peer_def)
  next
    case (failed e)
    with op assms False show ?thesis
      by (intro that(3)) (auto simp: update_pk_def write_peer_def Let_def simp flip: updated_peer_def)
  qed
qed

lemma table_ok_insert:
  assumes "table_ok d" "\<forall>s \<in> set d. row_guid s \<noteq> row_guid r \<and> row_id s \<noteq> row_id r"
    "row_guid r \<noteq> []" "row_uuid r \<noteq> []"
  shows "table_ok (d @ [r])"
  using assms by (auto simp: table_ok_def image_iff)

lemma store_ok_update_pk:
  assumes m: "store_ok m" "peers m i = Some p" and u: "guid p \<noteq> [] \<Longrightarrow> uuid p = u" "u \<noteq> []"
    and g: "new_guid E \<noteq> []" and upd: "update_pk E i p addr u k a m = (res, m')"
  shows "store_ok m'"
proof -
  have p: "backed (db m) i p" using m by (rule store_okD)
  from upd show ?thesis
  proof (cases rule: update_pk_cases)
    case inserted
    have t: "table_ok (db m')"
      unfolding inserted(4) using m u g inserted(3) by (simp add: store_ok_def table_ok_insert)
    have "backed (db m') j q" if "peers m j = Some q" for j q
      using store_okD [OF m(1) that] inserted(4) by (auto simp: backed_def)
    then show ?thesis using t inserted(4) by (intro store_okI) (auto simp: backed_def split: if_splits)
  next
    case updated
    from p updated(1) obtain r where r: "r \<in> set (db m)" "row_guid r = guid p" "row_id r = i" "row_uuid r = u"
      using u by (auto simp: backed_def)
    let ?js = "info_to_json E (info (updated_peer E p addr u k a))"
    have d: "db m' = map (rekey (guid p) k ?js) (db m)"
      using update_is_rekey [OF _ r(1-3)] m updated(3) by (simp add: store_ok_def)
    have "backed (db m') j q" if "peers m j = Some q" for j q
      unfolding d using store_okD [OF m(1) that] by (rule backed_rekey)
    moreover have "backed (db m') i (updated_peer E p addr u k a)"
      unfolding d using r by (intro backed_rekey) (auto simp: backed_def)
    moreover have "table_ok (db m')"
      unfolding d using m by (intro table_ok_rekey) (auto simp: store_ok_def)
    ultimately show ?thesis using updated(3) by (intro store_okI) (auto split: if_splits)
  next
    case failed
    then show ?thesis
      using m p u by (auto intro!: store_ok_write simp: backed_def)
  qed
qed

subsection \<open>What survives a restart\<close>

text \<open>The uuid and key that a restarted server finds for an id, once the table answers.\<close>

definition durable :: "'a env_scheme \<Rightarrow> peer_map \<Rightarrow> string \<Rightarrow> (bytes \<times> bytes) option" where
  "durable E m i = map_option (\<lambda>p. (uuid p, pk p)) (fst (get (E\<lparr>db_up := True\<rparr>) i (restart m)))"

definition durable_row :: "database \<Rightarrow> string \<Rightarrow> (bytes \<times> bytes) option" where
  "durable_row d i = map_option (\<lambda>r. (row_uuid r, row_pk r)) (find (\<lambda>r. row_id r = i) d)"

lemma durable_eq: "durable E m = durable_row (db m)"
  by (rule ext) (simp add: durable_def durable_row_def get_def get_peer_def restart_def Let_def split: option.splits)

lemma durable_row_insert:
  "\<forall>s \<in> set d. row_id s \<noteq> row_id r \<Longrightarrow>
     durable_row (d @ [r]) = (durable_row d)(row_id r \<mapsto> (row_uuid r, row_pk r))"
proof (rule ext)
  fix j assume "\<forall>s \<in> set d. row_id s \<noteq> row_id r"
  then show "durable_row (d @ [r]) j = ((durable_row d)(row_id r \<mapsto> (row_uuid r, row_pk r))) j"
    by (induction d) (auto simp: durable_row_def)
qed

lemma durable_row_rekey:
  assumes "table_ok d" "r \<in> set d"
  shows "durable_row (map (rekey (row_guid r) k js) d) =
    (durable_row d)(row_id r \<mapsto> (row_uuid r, k))"
proof (rule ext)
  fix j
  let ?f = "rekey (row_guid r) k js"
  have *: "find (\<lambda>s. row_id s = j) (map ?f d) = map_option ?f (find (\<lambda>s. row_id s = j) d)" for j
    by (induction d) auto
  have o: "row_pk (?f s) = row_pk s" if "s \<in> set d" "row_id s \<noteq> row_id r" for s
    using that distinct_guids_row [OF assms that(1)] by (metis rekey_def)
  show "durable_row (map ?f d) j = ((durable_row d)(row_id r \<mapsto> (row_uuid r, k))) j"
  proof (cases "j = row_id r")
    case True
    then show ?thesis
      using find_id [OF assms] by (simp add: durable_row_def *) (simp add: rekey_def)
  next
    case False
    then show ?thesis
      by (cases "find (\<lambda>s. row_id s = j) d") (auto simp: durable_row_def * o dest: find_SomeD)
  qed
qed

lemma durable_row_update_pk:
  assumes m: "store_ok m" "peers m i = Some p" and u: "guid p \<noteq> [] \<Longrightarrow> uuid p = u"
    and upd: "update_pk E i p addr u k a m = (res, m')"
  shows "durable_row (db m') = (if res = OK then (durable_row (db m))(i \<mapsto> (u, k)) else durable_row (db m))"
  using upd
proof (cases rule: update_pk_cases)
  case inserted
  then show ?thesis by (simp add: durable_row_insert)
next
  case updated
  from store_okD [OF m] updated(1) u obtain r
    where r: "r \<in> set (db m)" "row_guid r = guid p" "row_id r = i" "row_uuid r = u"
    by (auto simp: backed_def)
  moreover have "table_ok (db m)" using m by (simp add: store_ok_def)
  ultimately show ?thesis
    using updated update_is_rekey [OF _ r(1-3)] durable_row_rekey [of "db m" r] by simp
next
  case failed
  then show ?thesis by (simp add: write_peer_def)
qed

text \<open>
  A store whose successful writes are durable and whose failed writes change nothing that is:
  \<open>put\<close> answers whether it succeeded. Its clients may then reason about the last successful write.
\<close>

locale durable_map =
  fixes inv :: "'s \<Rightarrow> bool"
    and usable :: "'e \<Rightarrow> bool"
    and put :: "'e \<Rightarrow> 'k \<Rightarrow> 'v \<Rightarrow> 's \<Rightarrow> bool \<times> 's"
    and content :: "'s \<Rightarrow> 'k \<Rightarrow> 'v option"
  assumes put_inv: "inv s \<Longrightarrow> usable e \<Longrightarrow> put e k v s = (ok, s') \<Longrightarrow> inv s'"
    and put_done: "inv s \<Longrightarrow> usable e \<Longrightarrow> put e k v s = (True, s') \<Longrightarrow> content s' = (content s)(k \<mapsto> v)"
    and put_failed: "inv s \<Longrightarrow> usable e \<Longrightarrow> put e k v s = (False, s') \<Longrightarrow> content s' = content s"
begin

fun put_all :: "('e \<times> 'k \<times> 'v) list \<Rightarrow> 's \<Rightarrow> ('k \<times> 'v) list \<times> 's" where
  "put_all [] s = ([], s)"
| "put_all ((e, k, v) # ops) s =
     (let (ok, s') = put e k v s; (oks, s'') = put_all ops s'
      in (if ok then (k, v) # oks else oks, s''))"

lemma put_all_content:
  "inv s \<Longrightarrow> \<forall>op \<in> set ops. usable (fst op) \<Longrightarrow> put_all ops s = (oks, s') \<Longrightarrow>
     inv s' \<and> content s' = content s ++ map_of (rev oks)"
proof (induction ops s arbitrary: oks s' rule: put_all.induct)
  case (1 s)
  then show ?case by simp
next
  case (2 e k v ops s)
  obtain ok s1 where p: "put e k v s = (ok, s1)" by (cases "put e k v s")
  obtain oks1 s2 where a: "put_all ops s1 = (oks1, s2)" by (cases "put_all ops s1")
  have "usable e" and us: "\<forall>op \<in> set ops. usable (fst op)" using "2.prems" by auto
  then have "inv s1" "content s1 = (if ok then (content s)(k \<mapsto> v) else content s)"
    using "2.prems"(1) p put_inv put_done put_failed by (metis (full_types))+
  moreover from this us a have "inv s2 \<and> content s2 = content s1 ++ map_of (rev oks1)"
    by (intro "2.IH" [OF p [symmetric] refl]) simp_all
  ultimately show ?case using "2.prems"(3) p a
    by (auto simp: map_add_def fun_eq_iff split: option.splits)
qed

lemma last_put_wins:
  assumes "inv s" "\<forall>op \<in> set ops. usable (fst op)" "put_all ops s = (oks, s')"
    "oks = xs @ (k, v) # ys" "k \<notin> fst ` set ys"
  shows "content s' k = Some v"
proof -
  have "map_of (rev ys) k = None" using assms(5) by (simp add: map_of_eq_None_iff)
  then show ?thesis using put_all_content [OF assms(1-3)] assms(4)
    by (simp add: map_add_def)
qed

end

text \<open>
  The registration of a key as the handlers make it: the peer of the id, then \<open>update_pk\<close> if no
  other uuid owns it.
\<close>

definition put_key ::
  "'a env_scheme \<Rightarrow> string \<Rightarrow> bytes \<times> bytes \<Rightarrow> peer_map \<Rightarrow> bool \<times> peer_map" where
  "put_key E i v m =
     (let (p, m) = get_or E i m in
      if fst v = [] \<or> uuid p \<noteq> [] \<and> uuid p \<noteq> fst v then (False, m)
      else (case update_pk E i p (socket_addr p) (fst v) (snd v) (info_ip (info p)) m of
              (res, m) \<Rightarrow> (res = OK, m)))"

lemma put_key_correct:
  assumes m: "store_ok m" and g: "new_guid E \<noteq> []" and put: "put_key E i v m = (ok, m')"
  shows "store_ok m'"
    and "durable_row (db m') = (if ok then (durable_row (db m))(i \<mapsto> v) else durable_row (db m))"
proof -
  obtain p m1 where p: "get_or E i m = (p, m1)" by (cases "get_or E i m")
  have m1: "store_ok m1" "peers m1 i = Some p" "db m1 = db m"
    using store_ok_get_or [OF m p] get_or_entry [OF p] by simp_all
  have own: "guid p \<noteq> [] \<Longrightarrow> uuid p \<noteq> []"
    using store_okD [OF m1(1,2)] m1(1) by (auto simp: backed_def store_ok_def table_ok_def)
  have "store_ok m' \<and>
    durable_row (db m') = (if ok then (durable_row (db m))(i \<mapsto> v) else durable_row (db m))"
  proof (cases "fst v = [] \<or> uuid p \<noteq> [] \<and> uuid p \<noteq> fst v")
    case True
    with put p m1 show ?thesis by (auto simp: put_key_def)
  next
    case False
    with own have u: "guid p \<noteq> [] \<Longrightarrow> uuid p = fst v" "fst v \<noteq> []" by auto
    obtain res m2 where upd: "update_pk E i p (socket_addr p) (fst v) (snd v) (info_ip (info p)) m1 = (res, m2)"
      by (cases "update_pk E i p (socket_addr p) (fst v) (snd v) (info_ip (info p)) m1")
    with put p False have "ok = (res = OK)" "m' = m2" by (auto simp: put_key_def)
    then show ?thesis
      using store_ok_update_pk [OF m1(1,2) u g upd] durable_row_update_pk [OF m1(1,2) u(1) upd] m1(3)
      by simp
  qed
  then show "store_ok m'"
    "durable_row (db m') = (if ok then (durable_row (db m))(i \<mapsto> v) else durable_row (db m))"
    by simp_all
qed

interpretation keys: durable_map store_ok "\<lambda>E. new_guid E \<noteq> []" put_key "\<lambda>m. durable_row (db m)"
  by unfold_locales (use put_key_correct in fastforce)+

subsection \<open>Properties\<close>

text \<open>An environment to evaluate the operations in: SQLite answers, JSON is an envelope.\<close>

definition sample_env :: env where
  "sample_env = \<lparr>now = 5000000, db_up = True, new_guid = [1, 2, 3],
     info_to_json = (\<lambda>i. CHR ''#'' # info_ip i),
     info_of_json = (\<lambda>s. if s = [] then None else Some \<lparr>info_ip = tl s\<rparr>)\<rparr>"

definition empty_map :: peer_map where
  "empty_map = \<lparr>peers = Map.empty, db = []\<rparr>"

lemma store_ok_empty [simp]: "store_ok empty_map"
  by (simp add: store_ok_def table_ok_def empty_map_def)



text \<open>
  The memory and the table stay consistent through a lookup that creates the peer and the
  \<open>update_pk\<close> that follows: ids and row keys stay unique, and every peer in memory that has a row key
  has a row of its own id and uuid.
\<close>

theorem register_preserves_store:
  assumes "store_ok m" "get_or E i m = (p, m1)"
    "u \<noteq> []" "uuid p = [] \<or> uuid p = u" "new_guid E \<noteq> []"
  shows "store_ok (snd (update_pk E i p addr u k a m1))"
proof -
  have m1: "store_ok m1" "peers m1 i = Some p"
    using store_ok_get_or [OF assms(1,2)] get_or_entry [OF assms(2)] by simp_all
  have "guid p \<noteq> [] \<Longrightarrow> uuid p = u"
    using store_okD [OF m1] m1(1) assms(4) by (auto simp: backed_def store_ok_def table_ok_def)
  then show ?thesis
    using store_ok_update_pk [OF m1 _ assms(3,5)] by (metis prod.collapse)
qed

theorem register_preserves_store_witness:
  "store_ok (snd (update_pk sample_env ''desk01'' (default_peer 5000000) any_addr [7] [8] ''1.2.3.4''
     (write_peer ''desk01'' (default_peer 5000000) empty_map)))"
proof -
  have g: "get_or sample_env ''desk01'' empty_map =
      (default_peer 5000000, write_peer ''desk01'' (default_peer 5000000) empty_map)"
    by (simp add: get_or_def get_def get_peer_def sample_env_def empty_map_def write_peer_def Let_def)
  show ?thesis
    by (rule register_preserves_store [OF store_ok_empty g]) (simp_all add: sample_env_def)
qed

text \<open>
  Over any sequence of registrations, failed ones included, the key a restarted server holds
  for an id is the one of the last registration of that id that succeeded.
\<close>

theorem last_registration_wins:
  assumes "store_ok m" "\<forall>op \<in> set ops. new_guid (fst op) \<noteq> []"
    "keys.put_all ops m = (oks, m')" "oks = xs @ (i, (u, k)) # ys" "i \<notin> fst ` set ys"
  shows "durable E m' i = Some (u, k)"
  using keys.last_put_wins [OF assms] by (simp add: durable_eq)

theorem last_registration_wins_witness:
  "durable sample_env (snd (keys.put_all [(sample_env, ''a'', ([7], [8])), (sample_env, ''a'', ([7], [9]))]
     empty_map)) ''a'' = Some ([7], [9])"
proof -
  obtain ok1 m1 where p1: "put_key sample_env ''a'' ([7], [8]) empty_map = (ok1, m1)"
    by (cases "put_key sample_env ''a'' ([7], [8]) empty_map")
  then have "ok1" and m1: "peers m1 ''a'' \<noteq> None" "guid (the (peers m1 ''a'')) = [1, 2, 3]"
    "uuid (the (peers m1 ''a'')) = [7]" "map row_guid (db m1) = [[1, 2, 3]]"
    by (auto simp: put_key_def get_or_def get_def get_peer_def update_pk_def insert_peer_def
        write_peer_def sample_env_def empty_map_def Let_def)
  obtain ok2 m2 where p2: "put_key sample_env ''a'' ([7], [9]) m1 = (ok2, m2)"
    by (cases "put_key sample_env ''a'' ([7], [9]) m1")
  from m1 have "ok2"
    using p2 by (auto simp: put_key_def get_or_def get_def update_pk_def db_update_pk_def
        write_peer_def sample_env_def Let_def)
  with \<open>ok1\<close> p1 p2 have o: "keys.put_all [(sample_env, ''a'', ([7], [8])), (sample_env, ''a'', ([7], [9]))] empty_map =
      ([(''a'', ([7], [8])), (''a'', ([7], [9]))], m2)"
    by simp
  show ?thesis
    by (rule last_registration_wins [OF store_ok_empty _ surjective_pairing, of _ "[(''a'', ([7], [8]))]" _ _ _ "[]"])
       (simp_all add: o del: keys.put_all.simps, simp add: sample_env_def)
qed

end
