(* ===== verification/Rendezvous_Proto.thy ===== *)
theory Rendezvous_Proto
  imports Prelude Net_Addr Peer_Map
begin

text \<open>
  The messages of \<open>libs/hbb_common/protos/rendezvous.proto\<close> that the rendezvous server, the relay
  server and the client exchange. A proto3 enumeration keeps the numbers it does not know
  (\<open>EnumOrUnknown\<close>), and \<open>enum_value()\<close> fails on those.
\<close>

datatype 'e proto_enum = Known 'e | Unknown int

datatype nat_type = UNKNOWN_NAT | ASYMMETRIC | SYMMETRIC

datatype conn_type = DEFAULT_CONN | FILE_TRANSFER | PORT_FORWARD | RDP

datatype punch_failure = ID_NOT_EXIST | OFFLINE | LICENSE_MISMATCH | LICENSE_OVERUSE

record register_peer =
  rp_id :: string
  rp_serial :: int

record punch_hole_request =
  ph_id :: string
  ph_nat_type :: "nat_type proto_enum"
  ph_licence_key :: string
  ph_conn_type :: "conn_type proto_enum"
  ph_token :: string
  ph_from_id :: string
  ph_from_uuid :: string

record punch_hole_sent =
  phs_socket_addr :: bytes
  phs_id :: string
  phs_relay_server :: string
  phs_nat_type :: "nat_type proto_enum"
  phs_version :: string

record register_pk =
  rk_id :: string
  rk_uuid :: bytes
  rk_pk :: bytes
  rk_old_id :: string

text \<open>The \<open>oneof\<close> of a punch hole response; \<open>NatUnset\<close> is the unset union.\<close>

datatype punch_union = NatUnset | NatType "nat_type proto_enum" | IsLocal bool

record punch_hole_response =
  pr_socket_addr :: bytes
  pr_pk :: bytes
  pr_failure :: "punch_failure proto_enum"
  pr_relay_server :: string
  pr_union :: punch_union
  pr_other_failure :: string

record config_update =
  cu_serial :: int
  cu_rendezvous_servers :: "string list"

record request_relay =
  rf_id :: string
  rf_uuid :: string
  rf_socket_addr :: bytes
  rf_relay_server :: string
  rf_secure :: bool
  rf_licence_key :: string
  rf_conn_type :: "conn_type proto_enum"
  rf_token :: string

datatype relay_union = RelayUnset | RelayId string | RelayPk bytes

record relay_response =
  rr_socket_addr :: bytes
  rr_uuid :: string
  rr_relay_server :: string
  rr_union :: relay_union
  rr_refuse_reason :: string
  rr_version :: string

record local_addr =
  la_socket_addr :: bytes
  la_local_addr :: bytes
  la_relay_server :: string
  la_id :: string
  la_version :: string

record peer_discovery =
  pd_cmd :: string
  pd_mac :: string
  pd_id :: string
  pd_username :: string
  pd_hostname :: string
  pd_platform :: string
  pd_misc :: string

datatype rendezvous_message =
    RegisterPeer register_peer
  | RegisterPeerResponse bool
  | PunchHoleRequest punch_hole_request
  | PunchHole bytes string "nat_type proto_enum"
  | PunchHoleSent punch_hole_sent
  | PunchHoleResponse punch_hole_response
  | FetchLocalAddr bytes string
  | LocalAddr local_addr
  | ConfigureUpdate config_update
  | RegisterPk register_pk
  | RegisterPkResponse register_pk_result
  | SoftwareUpdate string
  | RequestRelay request_relay
  | RelayResponse relay_response
  | TestNatRequest int
  | TestNatResponse int "config_update option"
  | PeerDiscovery peer_discovery
  | NoMessage

definition default_punch_hole_response :: punch_hole_response where
  "default_punch_hole_response = \<lparr>pr_socket_addr = [], pr_pk = [], pr_failure = Known ID_NOT_EXIST,
     pr_relay_server = [], pr_union = NatUnset, pr_other_failure = []\<rparr>"

definition default_request_relay :: request_relay where
  "default_request_relay = \<lparr>rf_id = [], rf_uuid = [], rf_socket_addr = [], rf_relay_server = [],
     rf_secure = False, rf_licence_key = [], rf_conn_type = Known DEFAULT_CONN, rf_token = []\<rparr>"

definition default_relay_response :: relay_response where
  "default_relay_response = \<lparr>rr_socket_addr = [], rr_uuid = [], rr_relay_server = [],
     rr_union = RelayUnset, rr_refuse_reason = [], rr_version = []\<rparr>"

text \<open>The accessor of the \<open>oneof\<close>'s id answers the empty string when it is not set.\<close>

fun get_id :: "relay_union \<Rightarrow> string" where
  "get_id (RelayId i) = i"
| "get_id _ = []"

end
