(* ===== verification/Rendezvous_Server.thy ===== *)
theory Rendezvous_Server
  imports Prelude Net_Addr Version Peer_Map Rendezvous_Proto "HOL-Library.AList"
begin

text \<open>
  The rendezvous server \<open>hbbs\<close>, \<open>KdDeskTC_Server/src/rendezvous_server.rs\<close>. Its state is in two
  records: \<open>server\<close> holds the fields that \<open>self.clone()\<close> snapshots when a connection's task is
  spawned (the \<open>Arc\<close>s are replaced, never written through), \<open>shared\<close> what every task shares (the
  mutexes, the peers, the statics, the channel \<open>tx\<close>) together with what was sent so far.

  A datagram or frame arrives as the result of \<open>parse_from_bytes\<close>, \<open>None\<close> when it does not parse.
  The environment extends the one of the peers with the libraries the handlers call: whether a
  datagram is accepted by the socket, DNS, the clock of \<open>AddrMangle\<close>, libsodium's signature and
  protobuf's bytes of an \<open>IdPk\<close>. A task is one atomic step; a \<open>HashMap\<close> that is listed is an
  association list, whose order stands for one iteration order.
\<close>

record hbbs_env = env +
  send_ok :: "rendezvous_message \<Rightarrow> socket_addr \<Rightarrow> bool"
  valid_server :: "string \<Rightarrow> bool"
  tm :: u32
  sign :: "bytes \<Rightarrow> bytes \<Rightarrow> bytes"
  id_pk_bytes :: "string \<Rightarrow> bytes \<Rightarrow> bytes"
  parse_ip :: "string \<Rightarrow> ip_addr option"

record inner =
  serial :: int
  version :: string
  software_url :: string
  mask :: "(ip_addr \<Rightarrow> bool) option"
  local_ip :: string
  sk :: "bytes option"

record server =
  relay_servers :: "string list"
  relay_servers0 :: "string list"
  rendezvous_servers :: "string list"
  inner :: inner

datatype sink = TcpStream nat | Ws nat

datatype data = Msg rendezvous_message socket_addr | RelayServers0 string | RelayServers "string list"

type_synonym ip_counters = "(nat \<times> nat) \<times> (string list \<times> nat)"

record shared =
  tcp_punch :: "socket_addr \<rightharpoonup> sink"
  pm :: peer_map
  tx :: "data list"
  ip_blocker :: "(string \<times> ip_counters) list"
  ip_changes :: "(string \<times> nat \<times> (string \<times> int) list) list"
  rotation :: usize
  always_use_relay :: bool
  udp_out :: "(socket_addr \<times> rendezvous_message) list"
  tcp_out :: "(sink \<times> rendezvous_message) list"

definition REG_TIMEOUT :: int where "REG_TIMEOUT = 30000"

definition IP_CHANGE_DUR :: nat where "IP_CHANGE_DUR = 180"

definition IP_CHANGE_DUR_X2 :: nat where "IP_CHANGE_DUR_X2 = IP_CHANGE_DUR * 2"

definition DAY_SECONDS :: nat where "DAY_SECONDS = 3600 * 24"

definition IP_BLOCK_DUR :: nat where "IP_BLOCK_DUR = 60"

text \<open>\<open>Instant::elapsed()\<close> in whole seconds, and truncated to \<open>i32\<close> milliseconds.\<close>

definition elapsed_secs :: "'a env_scheme \<Rightarrow> nat \<Rightarrow> nat" where
  "elapsed_secs E t = (now E - t) div 1000"

definition elapsed_millis_i32 :: "'a env_scheme \<Rightarrow> nat \<Rightarrow> int" where
  "elapsed_millis_i32 E t = wrap_i32 (int (now E - t))"

subsection \<open>Sending\<close>

definition socket_send ::
  "'a hbbs_env_scheme \<Rightarrow> rendezvous_message \<Rightarrow> socket_addr \<Rightarrow> shared \<Rightarrow> unit outcome \<times> shared" where
  "socket_send E msg addr w =
     (if send_ok E msg addr then (Done (), w\<lparr>udp_out := udp_out w @ [(addr, msg)]\<rparr>)
      else (Failed ''send'', w))"

definition tx_send :: "data \<Rightarrow> shared \<Rightarrow> shared" where
  "tx_send d w = w\<lparr>tx := tx w @ [d]\<rparr>"

definition send_to_sink :: "sink option \<Rightarrow> rendezvous_message \<Rightarrow> shared \<Rightarrow> shared" where
  "send_to_sink sink msg w =
     (case sink of Some s \<Rightarrow> w\<lparr>tcp_out := tcp_out w @ [(s, msg)]\<rparr> | None \<Rightarrow> w)"

definition send_to_tcp :: "rendezvous_message \<Rightarrow> socket_addr \<Rightarrow> shared \<Rightarrow> shared" where
  "send_to_tcp msg addr w =
     send_to_sink (tcp_punch w addr) msg (w\<lparr>tcp_punch := (tcp_punch w)(addr := None)\<rparr>)"

definition send_to_tcp_sync :: "rendezvous_message \<Rightarrow> socket_addr \<Rightarrow> shared \<Rightarrow> shared" where
  "send_to_tcp_sync msg addr w =
     (let sink = tcp_punch w addr; w = w\<lparr>tcp_punch := (tcp_punch w)(addr := None)\<rparr>
      in send_to_sink sink msg w)"

definition send_rk_res ::
  "'a hbbs_env_scheme \<Rightarrow> socket_addr \<Rightarrow> register_pk_result \<Rightarrow> shared \<Rightarrow> unit outcome \<times> shared" where
  "send_rk_res E addr res w = socket_send E (RegisterPkResponse res) addr w"

subsection \<open>Helpers of the handlers\<close>

definition is_lan :: "server \<Rightarrow> socket_addr \<Rightarrow> bool" where
  "is_lan s addr =
     (case mask (inner s) of
        None \<Rightarrow> False
      | Some network \<Rightarrow> (case addr of SocketV4 a b c d p \<Rightarrow> network (IpV4 a b c d) | SocketV6 _ _ \<Rightarrow> False))"

definition get_servers :: "'a hbbs_env_scheme \<Rightarrow> string \<Rightarrow> string list" where
  "get_servers E s = filter (\<lambda>x. x \<noteq> [] \<and> valid_server E x) (split_on (CHR '','') s)"

definition parse_relay_servers :: "'a hbbs_env_scheme \<Rightarrow> string \<Rightarrow> server \<Rightarrow> server" where
  "parse_relay_servers E rs s =
     (let v = get_servers E rs in s\<lparr>relay_servers0 := v, relay_servers := v\<rparr>)"

definition get_relay_server :: "server \<Rightarrow> shared \<Rightarrow> string \<times> shared" where
  "get_relay_server s w =
     (let rs = relay_servers s in
      if rs = [] then ([], w)
      else if length rs = 1 then (rs ! 0, w)
      else let r = rotation w + 1 in (rs ! (unat r mod length rs), w\<lparr>rotation := r\<rparr>))"

definition get_pk ::
  "'a hbbs_env_scheme \<Rightarrow> server \<Rightarrow> string \<Rightarrow> string \<Rightarrow> shared \<Rightarrow> bytes \<times> shared" where
  "get_pk E s ver i w =
     (case sk (inner s) of
        None \<Rightarrow> ([], w)
      | Some k \<Rightarrow>
          if ver = [] then ([], w)
          else (case get E i (pm w) of
            (Some p, m) \<Rightarrow> (sign E (id_pk_bytes E i (pk p)) k, w\<lparr>pm := m\<rparr>)
          | (None, m) \<Rightarrow> ([], w\<lparr>pm := m\<rparr>)))"

definition check_ip_blocker ::
  "'a hbbs_env_scheme \<Rightarrow> string \<Rightarrow> string \<Rightarrow> shared \<Rightarrow> bool \<times> shared" where
  "check_ip_blocker E ipt i w =
     (case map_of (ip_blocker w) ipt of
        Some ((n, t), (ids, td)) \<Rightarrow>
          if elapsed_secs E t \<le> IP_BLOCK_DUR \<and> n > 30 then (False, w)
          else
            let a = ((if elapsed_secs E t > IP_BLOCK_DUR then 0 else n) + 1, now E);
                is_new = (i \<notin> set ids);
                put = (\<lambda>b. w\<lparr>ip_blocker := AList.update ipt (a, b) (ip_blocker w)\<rparr>)
            in if elapsed_secs E td \<le> DAY_SECONDS \<and> length ids > 300 then (\<not> is_new, put (ids, td))
               else
                 let ids = (if elapsed_secs E td > DAY_SECONDS then [] else ids);
                     ids = (if is_new then i # ids else ids)
                 in (True, put (ids, now E))
      | None \<Rightarrow> (True, w\<lparr>ip_blocker := AList.update ipt ((0, now E), ([], now E)) (ip_blocker w)\<rparr>))"

subsection \<open>UDP: registration\<close>

definition update_addr ::
  "'a hbbs_env_scheme \<Rightarrow> string \<Rightarrow> socket_addr \<Rightarrow> shared \<Rightarrow> unit outcome \<times> shared" where
  "update_addr E i addr w =
     (let (request_pk, w) =
        (case get_in_memory i (pm w) of
           Some old \<Rightarrow>
             let ip_change = ((if port (socket_addr old) \<noteq> 0 then ip addr \<noteq> ip (socket_addr old)
                               else ip_to_string (ip addr) \<noteq> info_ip (info old)) \<and> ip addr \<noteq> ADDR_127);
                 request_pk = (pk old = [] \<or> ip_change)
             in (request_pk,
                 if request_pk then w
                 else w\<lparr>pm := write_peer i (old\<lparr>socket_addr := addr, last_reg_time := now E\<rparr>) (pm w)\<rparr>)
         | None \<Rightarrow> (True, w))
      in socket_send E (RegisterPeerResponse request_pk) addr w)"

text \<open>What the registration of a key changes: \<open>None\<close> is a mismatch.\<close>

definition peer_change :: "peer \<Rightarrow> register_pk \<Rightarrow> string \<Rightarrow> (bool \<times> bool) option" where
  "peer_change p rk ipt =
     (if uuid p = [] then Some (True, False)
      else if uuid p = rk_uuid rk then
        (if info_ip (info p) \<noteq> ipt \<and> pk p \<noteq> rk_pk rk then None
         else let ip_changed = (info_ip (info p) \<noteq> ipt)
           in Some (uuid p \<noteq> rk_uuid rk \<or> pk p \<noteq> rk_pk rk \<or> ip_changed, ip_changed))
      else None)"

definition record_ip_change ::
  "'a hbbs_env_scheme \<Rightarrow> string \<Rightarrow> string \<Rightarrow> shared \<Rightarrow> shared" where
  "record_ip_change E i ipt w =
     w\<lparr>ip_changes := AList.update i
       (case map_of (ip_changes w) i of
          Some (t, ips) \<Rightarrow>
            if elapsed_secs E t > IP_CHANGE_DUR then (now E, [(ipt, 1)])
            else (t, AList.update ipt (case map_of ips ipt of Some v \<Rightarrow> wrap_i32 (v + 1) | None \<Rightarrow> 1) ips)
        | None \<Rightarrow> (now E, [(ipt, 1)])) (ip_changes w)\<rparr>"

definition handle_register_pk ::
  "'a hbbs_env_scheme \<Rightarrow> socket_addr \<Rightarrow> register_pk \<Rightarrow> shared \<Rightarrow> unit outcome \<times> shared" where
  "handle_register_pk E addr rk w =
     (if rk_uuid rk = [] \<or> rk_pk rk = [] then (Done (), w)
      else let i = rk_id rk; ipt = ip_to_string (ip addr) in
        if length i < 6 then send_rk_res E addr UUID_MISMATCH w
        else let (admitted, w) = check_ip_blocker E ipt i w in
          if \<not> admitted then send_rk_res E addr TOO_FREQUENT w
          else let (p, m) = get_or E i (pm w); w = w\<lparr>pm := m\<rparr> in
            (case peer_change p rk ipt of
               None \<Rightarrow> send_rk_res E addr UUID_MISMATCH w
             | Some (changed, ip_changed) \<Rightarrow>
                 let (n, t) = reg_pk p; old = (elapsed_secs E t > 6) in
                 if \<not> old \<and> n > 2 then send_rk_res E addr TOO_FREQUENT w
                 else
                   let p = p\<lparr>reg_pk := ((if old then 0 else n) + 1, now E)\<rparr>;
                       w = w\<lparr>pm := write_peer i p (pm w)\<rparr>;
                       w = (if ip_changed then record_ip_change E i ipt w else w);
                       w = (if changed
                            then w\<lparr>pm := snd (update_pk E i p addr (rk_uuid rk) (rk_pk rk) ipt (pm w))\<rparr>
                            else w)
                   in send_rk_res E addr OK w))"

subsection \<open>Punching holes\<close>

definition same_intranet :: "bool \<Rightarrow> socket_addr \<Rightarrow> socket_addr \<Rightarrow> bool" where
  "same_intranet ws peer_addr addr \<longleftrightarrow> \<not> ws \<and>
     (case (peer_addr, addr) of
        (SocketV4 a b c d p, SocketV4 a' b' c' d' p') \<Rightarrow> (a, b, c, d) = (a', b', c', d')
      | (SocketV6 s p, SocketV6 s' p') \<Rightarrow> s = s'
      | _ \<Rightarrow> False)"

definition punch_failure_response :: "punch_failure \<Rightarrow> rendezvous_message" where
  "punch_failure_response f = PunchHoleResponse (default_punch_hole_response\<lparr>pr_failure := Known f\<rparr>)"

definition handle_punch_hole_request ::
  "'a hbbs_env_scheme \<Rightarrow> server \<Rightarrow> socket_addr \<Rightarrow> punch_hole_request \<Rightarrow> string \<Rightarrow> bool \<Rightarrow> shared
     \<Rightarrow> (rendezvous_message \<times> socket_addr option) outcome \<times> shared" where
  "handle_punch_hole_request E s addr ph key ws w =
     (if key \<noteq> [] \<and> ph_licence_key ph \<noteq> key
      then (Done (punch_failure_response LICENSE_MISMATCH, None), w)
      else (case get E (ph_id ph) (pm w) of
        (None, m) \<Rightarrow> (Done (punch_failure_response ID_NOT_EXIST, None), w\<lparr>pm := m\<rparr>)
      | (Some p, m) \<Rightarrow>
          let w = w\<lparr>pm := m\<rparr>; peer_addr = socket_addr p in
          if elapsed_millis_i32 E (last_reg_time p) \<ge> REG_TIMEOUT
          then (Done (punch_failure_response OFFLINE, None), w)
          else
            let peer_is_lan = is_lan s peer_addr;
                (relay, w) =
                  (if always_use_relay w \<or> peer_is_lan \<noteq> is_lan s addr then
                     (if peer_is_lan then (local_ip (inner s), w) else get_relay_server s w)
                   else ([], w))
            in if relay \<noteq> []
               then (Done (RequestRelay (default_request_relay\<lparr>rf_relay_server := relay\<rparr>), Some peer_addr), w)
               else (case mangle_encode (tm E) addr of
                 None \<Rightarrow> (Panicked, w)
               | Some mangled \<Rightarrow>
                   let (relay, w) = get_relay_server s w in
                   (Done (if same_intranet ws peer_addr addr then FetchLocalAddr mangled relay
                          else PunchHole mangled relay (ph_nat_type ph), Some peer_addr), w))))"

definition handle_tcp_punch_hole_request ::
  "'a hbbs_env_scheme \<Rightarrow> server \<Rightarrow> socket_addr \<Rightarrow> punch_hole_request \<Rightarrow> string \<Rightarrow> bool \<Rightarrow> shared
     \<Rightarrow> unit outcome \<times> shared" where
  "handle_tcp_punch_hole_request E s addr ph key ws w =
     (case handle_punch_hole_request E s addr ph key ws w of
        (Done (msg, Some to_addr), w) \<Rightarrow> (Done (), tx_send (Msg msg to_addr) w)
      | (Done (msg, None), w) \<Rightarrow> (Done (), send_to_tcp_sync msg addr w)
      | (Failed e, w) \<Rightarrow> (Failed e, w)
      | (Panicked, w) \<Rightarrow> (Panicked, w))"

definition handle_udp_punch_hole_request ::
  "'a hbbs_env_scheme \<Rightarrow> server \<Rightarrow> socket_addr \<Rightarrow> punch_hole_request \<Rightarrow> string \<Rightarrow> shared
     \<Rightarrow> unit outcome \<times> shared" where
  "handle_udp_punch_hole_request E s addr ph key w =
     (case handle_punch_hole_request E s addr ph key False w of
        (Done (msg, to_addr), w) \<Rightarrow>
          (Done (), tx_send (Msg msg (case to_addr of Some a \<Rightarrow> a | None \<Rightarrow> addr)) w)
      | (Failed e, w) \<Rightarrow> (Failed e, w)
      | (Panicked, w) \<Rightarrow> (Panicked, w))"

text \<open>
  The answer of B goes to A over UDP when it came over UDP, and otherwise to A's waiting TCP
  connection. \<open>udp\<close> is \<open>socket.is_some()\<close>.
\<close>

definition reply_to_a ::
  "'a hbbs_env_scheme \<Rightarrow> bool \<Rightarrow> rendezvous_message \<Rightarrow> socket_addr \<Rightarrow> shared \<Rightarrow> unit outcome \<times> shared" where
  "reply_to_a E udp msg addr_a w =
     (if udp then socket_send E msg addr_a w else (Done (), send_to_tcp msg addr_a w))"

definition handle_hole_sent ::
  "'a hbbs_env_scheme \<Rightarrow> server \<Rightarrow> punch_hole_sent \<Rightarrow> socket_addr \<Rightarrow> bool \<Rightarrow> shared
     \<Rightarrow> unit outcome \<times> shared" where
  "handle_hole_sent E s phs addr udp w =
     (case mangle_decode (phs_socket_addr phs) of
        None \<Rightarrow> (Panicked, w)
      | Some addr_a \<Rightarrow>
          (case mangle_encode (tm E) addr of
             None \<Rightarrow> (Panicked, w)
           | Some mangled \<Rightarrow>
               let (k, w) = get_pk E s (phs_version phs) (phs_id phs) w;
                   p = default_punch_hole_response\<lparr>pr_socket_addr := mangled, pr_pk := k,
                         pr_relay_server := phs_relay_server phs,
                         pr_union := (case phs_nat_type phs of Known t \<Rightarrow> NatType (Known t) | Unknown _ \<Rightarrow> NatUnset)\<rparr>
               in reply_to_a E udp (PunchHoleResponse p) addr_a w))"

definition handle_local_addr ::
  "'a hbbs_env_scheme \<Rightarrow> server \<Rightarrow> local_addr \<Rightarrow> socket_addr \<Rightarrow> bool \<Rightarrow> shared
     \<Rightarrow> unit outcome \<times> shared" where
  "handle_local_addr E s la addr udp w =
     (case mangle_decode (la_socket_addr la) of
        None \<Rightarrow> (Panicked, w)
      | Some addr_a \<Rightarrow>
          let (k, w) = get_pk E s (la_version la) (la_id la) w;
              p = default_punch_hole_response\<lparr>pr_socket_addr := la_local_addr la, pr_pk := k,
                    pr_relay_server := la_relay_server la, pr_union := IsLocal True\<rparr>
          in reply_to_a E udp (PunchHoleResponse p) addr_a w)"

subsection \<open>One datagram\<close>

definition handle_configure_update ::
  "'a hbbs_env_scheme \<Rightarrow> socket_addr \<Rightarrow> config_update \<Rightarrow> server \<Rightarrow> server" where
  "handle_configure_update E addr cu s =
     (if ip addr = ADDR_127 \<and> cu_serial cu > serial (inner s) then
        s\<lparr>inner := (inner s)\<lparr>serial := cu_serial cu\<rparr>,
          rendezvous_servers := filter (\<lambda>x. x \<noteq> [] \<and> valid_server E x) (cu_rendezvous_servers cu)\<rparr>
      else s)"

definition handle_register_peer ::
  "'a hbbs_env_scheme \<Rightarrow> server \<Rightarrow> socket_addr \<Rightarrow> register_peer \<Rightarrow> shared \<Rightarrow> unit outcome \<times> shared" where
  "handle_register_peer E s addr rp w =
     (if rp_id rp = [] then (Done (), w)
      else case update_addr E (rp_id rp) addr w of
        (Done _, w) \<Rightarrow>
          if serial (inner s) > rp_serial rp then
            socket_send E (ConfigureUpdate \<lparr>cu_serial = serial (inner s),
              cu_rendezvous_servers = rendezvous_servers s\<rparr>) addr w
          else (Done (), w)
      | (r, w) \<Rightarrow> (r, w))"

text \<open>
  A punch hole request for a peer that is not in memory runs in a task of its own on a clone of
  the server, whose error is only logged and whose panic ends only that task.
\<close>

definition spawn :: "unit outcome \<times> shared \<Rightarrow> unit outcome \<times> shared" where
  "spawn r = (Done (), snd r)"

definition handle_udp ::
  "'a hbbs_env_scheme \<Rightarrow> rendezvous_message option \<Rightarrow> socket_addr \<Rightarrow> string \<Rightarrow> server \<Rightarrow> shared
     \<Rightarrow> unit outcome \<times> server \<times> shared" where
  "handle_udp E msg_in addr key s w =
     (let same = (\<lambda>(r, w). (r, s, w)) in
      case msg_in of
        Some (RegisterPeer rp) \<Rightarrow> same (handle_register_peer E s addr rp w)
      | Some (RegisterPk rk) \<Rightarrow> same (handle_register_pk E addr rk w)
      | Some (PunchHoleRequest ph) \<Rightarrow>
          if is_in_memory (ph_id ph) (pm w) then same (handle_udp_punch_hole_request E s addr ph key w)
          else same (spawn (handle_udp_punch_hole_request E s addr ph key w))
      | Some (PunchHoleSent phs) \<Rightarrow> same (handle_hole_sent E s phs addr True w)
      | Some (LocalAddr la) \<Rightarrow> same (handle_local_addr E s la addr True w)
      | Some (ConfigureUpdate cu) \<Rightarrow> (Done (), handle_configure_update E addr cu s, w)
      | Some (SoftwareUpdate url) \<Rightarrow>
          if version (inner s) \<noteq> [] \<and> url \<noteq> version (inner s)
          then same (socket_send E (SoftwareUpdate (software_url (inner s))) addr w)
          else (Done (), s, w)
      | _ \<Rightarrow> (Done (), s, w))"

subsection \<open>One frame of a TCP or WebSocket connection\<close>

definition park_sink :: "sink option \<Rightarrow> socket_addr \<Rightarrow> shared \<Rightarrow> shared" where
  "park_sink sink addr w =
     (case sink of Some k \<Rightarrow> w\<lparr>tcp_punch := (tcp_punch w)(addr \<mapsto> k)\<rparr> | None \<Rightarrow> w)"

definition handle_tcp ::
  "'a hbbs_env_scheme \<Rightarrow> server \<Rightarrow> rendezvous_message option \<Rightarrow> sink option \<Rightarrow> socket_addr \<Rightarrow> string
     \<Rightarrow> bool \<Rightarrow> shared \<Rightarrow> bool outcome \<times> sink option \<times> shared" where
  "handle_tcp E s msg_in sink addr key ws w =
     (let finish = (\<lambda>b sink (r :: unit outcome, w).
        (case r of Panicked \<Rightarrow> (Panicked, sink, w) | _ \<Rightarrow> (Done b, sink, w))) in
      case msg_in of
        Some (PunchHoleRequest ph) \<Rightarrow>
          finish True None (handle_tcp_punch_hole_request E s addr ph key ws (park_sink sink addr w))
      | Some (RequestRelay rf) \<Rightarrow>
          let w = park_sink sink addr w in
          (case get_in_memory (rf_id rf) (pm w) of
             None \<Rightarrow> (Done True, None, w)
           | Some p \<Rightarrow>
               (case mangle_encode (tm E) addr of
                  None \<Rightarrow> (Panicked, None, w)
                | Some mangled \<Rightarrow> (Done True, None,
                    tx_send (Msg (RequestRelay (rf\<lparr>rf_socket_addr := mangled\<rparr>)) (socket_addr p)) w)))
      | Some (RelayResponse rr) \<Rightarrow>
          (case mangle_decode (rr_socket_addr rr) of
             None \<Rightarrow> (Panicked, sink, w)
           | Some addr_b \<Rightarrow>
               let rr = rr\<lparr>rr_socket_addr := []\<rparr>;
                   (rr, w) = (if get_id (rr_union rr) \<noteq> [] then
                       (let (k, w) = get_pk E s (rr_version rr) (get_id (rr_union rr)) w
                        in (rr\<lparr>rr_union := RelayPk k\<rparr>, w))
                     else (rr, w));
                   rr = (if is_lan s addr_b then rr\<lparr>rr_relay_server := local_ip (inner s)\<rparr> else rr)
               in (Done False, sink, send_to_tcp_sync (RelayResponse rr) addr_b w))
      | Some (PunchHoleSent phs) \<Rightarrow> finish False sink (handle_hole_sent E s phs addr False w)
      | Some (LocalAddr la) \<Rightarrow> finish False sink (handle_local_addr E s la addr False w)
      | Some (TestNatRequest ser) \<Rightarrow>
          (Done False, sink, send_to_sink sink (TestNatResponse (uint (port addr))
             (if serial (inner s) > ser then Some \<lparr>cu_serial = serial (inner s),
                cu_rendezvous_servers = rendezvous_servers s\<rparr> else None)) w)
      | Some (RegisterPk _) \<Rightarrow> (Done False, sink, send_to_sink sink (RegisterPkResponse NOT_SUPPORT) w)
      | _ \<Rightarrow> (Done False, sink, w))"

text \<open>
  A connection's task: frames are handled until one ends the loop, the stream ends or times
  out (the list ends), then a parked sink is dropped. A WebSocket message that is not binary is
  \<open>OtherFrame\<close>. A panic ends the task before the clean-up.
\<close>

datatype frame = Binary "rendezvous_message option" | OtherFrame

fun listener_loop ::
  "'a hbbs_env_scheme \<Rightarrow> server \<Rightarrow> socket_addr \<Rightarrow> string \<Rightarrow> bool \<Rightarrow> frame list \<Rightarrow> sink option \<Rightarrow> shared
     \<Rightarrow> unit outcome \<times> sink option \<times> shared" where
  "listener_loop E s addr key ws [] sink w = (Done (), sink, w)"
| "listener_loop E s addr key ws (OtherFrame # fs) sink w = listener_loop E s addr key ws fs sink w"
| "listener_loop E s addr key ws (Binary msg # fs) sink w =
     (case handle_tcp E s msg sink addr key ws w of
        (Done True, sink, w) \<Rightarrow> listener_loop E s addr key ws fs sink w
      | (Done False, sink, w) \<Rightarrow> (Done (), sink, w)
      | (Failed e, sink, w) \<Rightarrow> (Failed e, sink, w)
      | (Panicked, sink, w) \<Rightarrow> (Panicked, sink, w))"

definition handle_listener_inner ::
  "'a hbbs_env_scheme \<Rightarrow> server \<Rightarrow> nat \<Rightarrow> socket_addr \<Rightarrow> string \<Rightarrow> bool \<Rightarrow> frame list \<Rightarrow> shared
     \<Rightarrow> unit outcome \<times> shared" where
  "handle_listener_inner E s conn addr key ws frames w =
     (case listener_loop E s addr key ws frames (Some (if ws then Ws conn else TcpStream conn)) w of
        (Done _, None, w) \<Rightarrow> (Done (), w\<lparr>tcp_punch := (tcp_punch w)(addr := None)\<rparr>)
      | (Done _, Some k, w) \<Rightarrow> (Done (), w)
      | (r, _, w) \<Rightarrow> (r, w))"

subsection \<open>The administration commands\<close>

definition newline :: string where "newline = [char_of (10 :: nat)]"

definition is_space :: "char \<Rightarrow> bool" where
  "is_space c \<longleftrightarrow> (of_char c :: nat) \<in> {9..13} \<union> {32}"

definition trim :: "string \<Rightarrow> string" where
  "trim s = rev (dropWhile is_space (rev (dropWhile is_space s)))"

text \<open>The entries \<open>start .. start + 10\<close> of a listing; the sum is an \<open>i32\<close>.\<close>

definition page :: "int \<Rightarrow> 'b list \<Rightarrow> 'b list" where
  "page start xs = drop (nat start) (take (nat (wrap_i32 (start + 10))) xs)"

definition show_counters :: "'a env_scheme \<Rightarrow> ip_counters \<Rightarrow> string" where
  "show_counters E c =
     (case c of ((n, t), (ids, td)) \<Rightarrow>
        show_nat n @ ''/'' @ show_nat (elapsed_secs E t) @ ''s '' @
        show_nat (length ids) @ ''/'' @ show_nat (elapsed_secs E td) @ ''s'' @ newline)"

definition show_int :: "int \<Rightarrow> string" where
  "show_int n = (if n < 0 then CHR ''-'' # show_nat (nat (- n)) else show_nat (nat n))"

definition quoted :: "string \<Rightarrow> string" where
  "quoted s = CHR 0x22 # s @ [CHR 0x22]"

definition show_ips :: "(string \<times> int) list \<Rightarrow> string" where
  "show_ips ips = ''{'' @ join_with '', '' (map (\<lambda>(i, n). quoted i @ '': '' @ show_int n) ips) @ ''}''"

text \<open>The numeric argument of a listing command: -1 when there is none.\<close>

definition start_arg :: "string option \<Rightarrow> int" where
  "start_arg a = (case a of Some x \<Rightarrow> (case parse_i32 x of Some n \<Rightarrow> n | None \<Rightarrow> -1) | None \<Rightarrow> -1)"

definition nth_opt :: "'b list \<Rightarrow> nat \<Rightarrow> 'b option" where
  "nth_opt xs i = (if i < length xs then Some (xs ! i) else None)"

definition ip_blocker_cmd ::
  "'a hbbs_env_scheme \<Rightarrow> string option \<Rightarrow> string option \<Rightarrow> shared \<Rightarrow> string \<times> shared" where
  "ip_blocker_cmd E arg flag w =
     (let lock = filter (\<lambda>(_, (a, b)). elapsed_secs E (snd a) \<le> IP_BLOCK_DUR \<or>
                          elapsed_secs E (snd b) \<le> DAY_SECONDS) (ip_blocker w);
          res = show_nat (length lock) @ newline;
          start = start_arg arg;
          (res, lock', start) =
            (if start < 0 then
               (case arg of
                  Some ipt \<Rightarrow>
                    (res @ (case map_of lock ipt of Some c \<Rightarrow> show_counters E c | None \<Rightarrow> []),
                     if flag = Some ''-'' then AList.delete ipt lock else lock, start)
                | None \<Rightarrow> (res, lock, 0))
             else (res, lock, start));
          res = (if start \<ge> 0
            then res @ concat (map (\<lambda>(i, c). i @ '': '' @ show_counters E c) (page start lock'))
            else res)
      in (res, w\<lparr>ip_blocker := lock'\<rparr>))"

definition ip_changes_cmd ::
  "'a hbbs_env_scheme \<Rightarrow> string option \<Rightarrow> string option \<Rightarrow> shared \<Rightarrow> string \<times> shared" where
  "ip_changes_cmd E arg flag w =
     (let lock = filter (\<lambda>(_, t, ips). elapsed_secs E t < IP_CHANGE_DUR_X2 \<and> length ips > 1) (ip_changes w);
          res = show_nat (length lock) @ newline;
          start = start_arg arg;
          (res, lock', start) =
            (if start < 0 \<or> start > 10000000 then
               (case arg of
                  Some i \<Rightarrow>
                    (res @ (case map_of lock i of
                       Some (t, ips) \<Rightarrow> show_nat (elapsed_secs E t) @ ''s '' @ show_ips ips @ newline
                     | None \<Rightarrow> []),
                     if flag = Some ''-'' then AList.delete i lock else lock, start)
                | None \<Rightarrow> (res, lock, 0))
             else (res, lock, start));
          res = (if start \<ge> 0
            then res @ concat (map (\<lambda>(i, t, ips). i @ '': '' @ show_nat (elapsed_secs E t) @ ''s '' @
                   show_ips ips @ newline) (page start lock'))
            else res)
      in (res, w\<lparr>ip_changes := lock'\<rparr>))"

definition help_text :: string where
  "help_text = concat (map (\<lambda>l. l @ newline)
     [''relay-servers(rs) <separated by ,>'', ''reload-geo(rg)'', ''ip-blocker(ib) [<ip>|<number>] [-]'',
      ''ip-changes(ic) [<id>|<number>] [-]'', ''always-use-relay(aur)'', ''test-geo(tg) <ip1> <ip2>''])"

text \<open>Every field is \<open>None\<close> after the last one: the iterator of \<open>split\<close> is fused.\<close>

definition check_cmd ::
  "'a hbbs_env_scheme \<Rightarrow> server \<Rightarrow> string \<Rightarrow> shared \<Rightarrow> string \<times> shared" where
  "check_cmd E s cmd w =
     (let fds = split_on (CHR '' '') (trim cmd); c = hd fds; a1 = nth_opt fds 1; a2 = nth_opt fds 2 in
      if c = ''h'' then (help_text, w)
      else if c = ''relay-servers'' \<or> c = ''rs'' then
        (case a1 of
           Some rs \<Rightarrow> ([], tx_send (RelayServers0 rs) w)
         | None \<Rightarrow> (concat (map (\<lambda>i. i @ newline) (relay_servers s)), w))
      else if c = ''ip-blocker'' \<or> c = ''ib'' then ip_blocker_cmd E a1 a2 w
      else if c = ''ip-changes'' \<or> c = ''ic'' then ip_changes_cmd E a1 a2 w
      else if c = ''always-use-relay'' \<or> c = ''aur'' then
        (case a1 of
           Some rs \<Rightarrow> ([], tx_send (RelayServers0 rs) (w\<lparr>always_use_relay := (rs = ''Y'' \<or> rs = ''y'')\<rparr>))
         | None \<Rightarrow> (''ALWAYS_USE_RELAY: '' @ (if always_use_relay w then ''true'' else ''false'') @ newline, w))
      else if c = ''test-geo'' \<or> c = ''tg'' then
        (case a1 of
           None \<Rightarrow> ([], w)
         | Some rs \<Rightarrow>
             (case parse_ip E rs of
                None \<Rightarrow> ([], w)
              | Some a \<Rightarrow>
                  if a2 = None \<or> parse_ip E (the a2) \<noteq> None
                  then (let (r, w) = get_relay_server s w in (quoted r, w))
                  else ([], w)))
      else ([], w))"

text \<open>
  The NAT-test port: a local connection is an administration command (the text read from it,
  \<open>None\<close> if it is not UTF-8 or did not come in time), any other one may ask for its port.
\<close>

definition handle_listener2 ::
  "'a hbbs_env_scheme \<Rightarrow> server \<Rightarrow> socket_addr \<Rightarrow> string option \<Rightarrow> rendezvous_message option \<Rightarrow> shared
     \<Rightarrow> string option \<times> rendezvous_message option \<times> shared" where
  "handle_listener2 E s addr text msg_in w =
     (if ip_to_string (ip addr) = ''127.0.0.1'' then
        (case text of
           Some cmd \<Rightarrow> (let (res, w) = check_cmd E s cmd w in (Some res, None, w))
         | None \<Rightarrow> (None, None, w))
      else (case msg_in of
        Some (TestNatRequest _) \<Rightarrow> (None, Some (TestNatResponse (uint (port addr)) None), w)
      | _ \<Rightarrow> (None, None, w)))"

subsection \<open>The main loop\<close>

definition relay_host :: "string \<Rightarrow> string" where
  "relay_host x = (if contains '':'' x then x else x @ '':'' @ ''21117'')"

text \<open>
  \<open>up\<close> says which hosts accept a connection in time; the order of completion is the list's.
\<close>

definition check_relay_servers :: "(string \<Rightarrow> bool) \<Rightarrow> string list \<Rightarrow> shared \<Rightarrow> shared" where
  "check_relay_servers up rs0 w =
     (let rs = filter (up \<circ> relay_host) rs0
      in if rs \<noteq> [] then tx_send (RelayServers rs) w else w)"

datatype loop_failure = UdpSocket | Listener3 | Listener2 | Listener

datatype loop_event =
    TimerCheckRelay "string \<Rightarrow> bool"
  | RxRecv
  | UdpNext "rendezvous_message option" socket_addr
  | UdpError
  | Accept2 socket_addr "string option" "rendezvous_message option"
  | AcceptWs nat socket_addr "frame list"
  | AcceptTcp nat socket_addr "frame list"
  | AcceptError loop_failure

text \<open>
  One turn of the loop. The message of the channel is sent or applied; an error of sending it
  is logged. A datagram that fails the handler, or a listener that fails, ends the loop with a
  \<open>LoopFailure\<close>; a panic in the handler ends the server's main task.
\<close>

definition io_step ::
  "'a hbbs_env_scheme \<Rightarrow> string \<Rightarrow> loop_event \<Rightarrow> server \<Rightarrow> shared
     \<Rightarrow> loop_failure option outcome \<times> server \<times> shared" where
  "io_step E key ev s w =
     (case ev of
        TimerCheckRelay up \<Rightarrow>
          (Done None, s, if length (relay_servers0 s) > 1 then check_relay_servers up (relay_servers0 s) w else w)
      | RxRecv \<Rightarrow>
          (case tx w of
             [] \<Rightarrow> (Done None, s, w)
           | d # ds \<Rightarrow>
               let w = w\<lparr>tx := ds\<rparr> in
               (case d of
                  Msg msg addr \<Rightarrow> (Done None, s, snd (socket_send E msg addr w))
                | RelayServers0 rs \<Rightarrow> (Done None, parse_relay_servers E rs s, w)
                | RelayServers rs \<Rightarrow> (Done None, s\<lparr>relay_servers := rs\<rparr>, w)))
      | UdpNext msg addr \<Rightarrow>
          (case handle_udp E msg addr key s w of
             (Done _, s, w) \<Rightarrow> (Done None, s, w)
           | (Failed _, s, w) \<Rightarrow> (Done (Some UdpSocket), s, w)
           | (Panicked, s, w) \<Rightarrow> (Panicked, s, w))
      | UdpError \<Rightarrow> (Done (Some UdpSocket), s, w)
      | Accept2 addr text msg \<Rightarrow> (Done None, s, snd (snd (handle_listener2 E s addr text msg w)))
      | AcceptWs c addr fs \<Rightarrow> (Done None, s, snd (handle_listener_inner E s c addr key True fs w))
      | AcceptTcp c addr fs \<Rightarrow> (Done None, s, snd (handle_listener_inner E s c addr key False fs w))
      | AcceptError f \<Rightarrow> (Done (Some f), s, w))"

fun io_loop ::
  "'a hbbs_env_scheme \<Rightarrow> string \<Rightarrow> loop_event list \<Rightarrow> server \<Rightarrow> shared
     \<Rightarrow> loop_failure option outcome \<times> server \<times> shared" where
  "io_loop E key [] s w = (Done None, s, w)"
| "io_loop E key (ev # evs) s w =
     (case io_step E key ev s w of
        (Done None, s, w) \<Rightarrow> io_loop E key evs s w
      | r \<Rightarrow> r)"

subsection \<open>What the handlers leave alone\<close>

text \<open>An id that has an owner, a peer in memory with a uuid, keeps it.\<close>

definition keeps_owners :: "peer_map \<Rightarrow> peer_map \<Rightarrow> bool" where
  "keeps_owners m m' \<longleftrightarrow>
     (\<forall>i p. peers m i = Some p \<and> uuid p \<noteq> [] \<longrightarrow> (\<exists>q. peers m' i = Some q \<and> uuid q = uuid p))"

lemma keeps_refl [simp, intro]: "keeps_owners m m"
  by (simp add: keeps_owners_def)

lemma keeps_trans [trans]: "keeps_owners m1 m2 \<Longrightarrow> keeps_owners m2 m3 \<Longrightarrow> keeps_owners m1 m3"
  unfolding keeps_owners_def by metis

lemma keeps_get: "keeps_owners m (snd (get E i m))"
proof (cases "get E i m")
  case (Pair res m')
  then show ?thesis by (cases rule: get_cases) (auto simp: Pair keeps_owners_def write_peer_def)
qed

lemma keeps_get_or: "keeps_owners m (snd (get_or E i m))"
proof (cases "get_or E i m")
  case (Pair p m')
  then show ?thesis
  proof (cases rule: get_or_cases)
    case found
    then show ?thesis using keeps_get [of m E i] Pair by simp
  next
    case fresh
    then show ?thesis using Pair by (auto simp: keeps_owners_def write_peer_def)
  qed
qed

lemma keeps_write:
  "peers m i = Some p \<Longrightarrow> uuid p = [] \<or> uuid q = uuid p \<Longrightarrow> keeps_owners m (write_peer i q m)"
  by (auto simp: keeps_owners_def write_peer_def)

lemma update_pk_entry:
  "\<exists>q. peers (snd (update_pk E i p addr u k a m)) = (peers m)(i \<mapsto> q) \<and> uuid q = u"
proof (cases "update_pk E i p addr u k a m")
  case (Pair res m')
  then show ?thesis by (cases rule: update_pk_cases) (auto simp: Pair write_peer_def)
qed

lemma keeps_update_pk:
  "peers m i = Some p \<Longrightarrow> uuid p = [] \<or> uuid p = u \<Longrightarrow> keeps_owners m (snd (update_pk E i p' addr u k a m))"
  using update_pk_entry [of E i p' addr u k a m] by (auto simp: keeps_owners_def)

lemma pm_send [frame_simps, simp]:
  "pm (snd (socket_send E msg addr w)) = pm w" "pm (tx_send d w) = pm w"
  "pm (send_to_sink sink msg w) = pm w" "pm (send_to_tcp msg addr w) = pm w"
  "pm (send_to_tcp_sync msg addr w) = pm w" "pm (snd (send_rk_res E addr res w)) = pm w"
  "pm (snd (reply_to_a E udp msg addr w)) = pm w" "pm (park_sink sink addr w) = pm w"
  by (simp_all add: socket_send_def tx_send_def send_to_sink_def send_to_tcp_def
      send_to_tcp_sync_def send_rk_res_def reply_to_a_def park_sink_def Let_def split: option.splits)

lemma pm_ip_blocker [frame_simps, simp]: "pm (snd (check_ip_blocker E ipt i w)) = pm w"
  by (auto simp: check_ip_blocker_def Let_def split: option.splits prod.splits)

lemma pm_record_ip_change [frame_simps, simp]: "pm (record_ip_change E i ipt w) = pm w"
  by (simp add: record_ip_change_def)

lemma pm_relay_server [frame_simps, simp]: "pm (snd (get_relay_server s w)) = pm w"
  by (simp add: get_relay_server_def Let_def)

lemma keeps_get_pk: "keeps_owners (pm w) (pm (snd (get_pk E s v i w)))"
  using keeps_get [of "pm w" E i]
  by (auto simp: get_pk_def split: option.splits prod.splits)

lemma keeps_update_addr: "keeps_owners (pm w) (pm (snd (update_addr E i addr w)))"
  by (auto simp: update_addr_def get_in_memory_def Let_def intro: keeps_write split: option.splits)

lemma peer_change_owner: "peer_change p rk a = Some r \<Longrightarrow> uuid p = [] \<or> uuid p = rk_uuid rk"
  by (auto simp: peer_change_def split: if_splits)

lemma keeps_register_pk: "keeps_owners (pm w) (pm (snd (handle_register_pk E addr rk w)))"
proof -
  obtain p m where p: "get_or E (rk_id rk) (pm w) = (p, m)" by (cases "get_or E (rk_id rk) (pm w)")
  obtain ok w1 where b: "check_ip_blocker E (ip_to_string (ip addr)) (rk_id rk) w = (ok, w1)"
    by (cases "check_ip_blocker E (ip_to_string (ip addr)) (rk_id rk) w")
  have w1: "pm w1 = pm w" using pm_ip_blocker [of E "ip_to_string (ip addr)" "rk_id rk" w] b by simp
  have m: "keeps_owners (pm w) m" "peers m (rk_id rk) = Some p"
    using keeps_get_or [of "pm w" E "rk_id rk"] get_or_entry [OF p] p by simp_all
  have wr: "keeps_owners m (write_peer (rk_id rk) (p\<lparr>reg_pk := x\<rparr>) m)" for x
    using m(2) by (rule keeps_write) simp
  have upd: "keeps_owners (write_peer (rk_id rk) (p\<lparr>reg_pk := x\<rparr>) m) (snd (update_pk E (rk_id rk) p' addr (rk_uuid rk) k a
      (write_peer (rk_id rk) (p\<lparr>reg_pk := x\<rparr>) m)))"
    if "peer_change p rk (ip_to_string (ip addr)) = Some r" for r x p' k a
    by (rule keeps_update_pk [where p = "p\<lparr>reg_pk := x\<rparr>"])
       (use peer_change_owner [OF that] in \<open>simp_all add: write_peer_def\<close>)
  show ?thesis
    using m(1) keeps_trans [OF m(1) wr] keeps_trans [OF keeps_trans [OF m(1) wr] upd]
    by (auto simp: handle_register_pk_def p b w1 Let_def split: option.splits prod.splits)
qed

text \<open>The same facts for a call whose result has been named.\<close>

lemma keeps_calls:
  "get E i m = (r1, m1) \<Longrightarrow> keeps_owners m m1"
  "get_pk E s v i w = (k, w1) \<Longrightarrow> keeps_owners (pm w) (pm w1)"
  "get_relay_server s w = (t, w1) \<Longrightarrow> pm w1 = pm w"
  "update_addr E i addr w = (r, w1) \<Longrightarrow> keeps_owners (pm w) (pm w1)"
  "socket_send E msg addr w = (r, w1) \<Longrightarrow> pm w1 = pm w"
  "reply_to_a E udp msg addr w = (r, w1) \<Longrightarrow> pm w1 = pm w"
  "handle_register_pk E addr rk w = (r, w1) \<Longrightarrow> keeps_owners (pm w) (pm w1)"
  using keeps_get [of m E i] keeps_get_pk [of w E s v i] pm_relay_server [of s w]
    keeps_update_addr [of w E i addr] pm_send(1) [of E msg addr w] pm_send(7) [of E udp msg addr w]
    keeps_register_pk [of w E addr rk]
  by simp_all

lemma keeps_punch:
  "handle_punch_hole_request E s addr ph key ws w = (r, w1) \<Longrightarrow> keeps_owners (pm w) (pm w1)"
  by (auto simp: handle_punch_hole_request_def Let_def dest!: keeps_calls(1,3)
      split: option.splits prod.splits if_splits)

lemma keeps_punch_udp_tcp:
  "handle_tcp_punch_hole_request E s addr ph key ws w = (u, w1) \<Longrightarrow> keeps_owners (pm w) (pm w1)"
  "handle_udp_punch_hole_request E s addr ph key w = (u, w1) \<Longrightarrow> keeps_owners (pm w) (pm w1)"
  by (auto simp: handle_tcp_punch_hole_request_def handle_udp_punch_hole_request_def
      dest!: keeps_punch split: option.splits prod.splits outcome.splits)

lemma keeps_hole_sent:
  "handle_hole_sent E s phs addr udp w = (u, w1) \<Longrightarrow> keeps_owners (pm w) (pm w1)"
  "handle_local_addr E s la addr udp w = (u, w1) \<Longrightarrow> keeps_owners (pm w) (pm w1)"
  by (auto simp: handle_hole_sent_def handle_local_addr_def Let_def dest!: keeps_calls(2,6)
      split: option.splits prod.splits)

lemma keeps_register_peer:
  "handle_register_peer E s addr rp w = (u, w1) \<Longrightarrow> keeps_owners (pm w) (pm w1)"
  by (auto simp: handle_register_peer_def dest!: keeps_calls(4,5)
      split: outcome.splits prod.splits if_splits)

lemma keeps_udp: "handle_udp E msg addr key s w = (u, s1, w1) \<Longrightarrow> keeps_owners (pm w) (pm w1)"
  by (cases msg; cases "the msg")
     (auto simp: handle_udp_def spawn_def Let_def
      dest: keeps_register_peer keeps_calls(7) keeps_punch_udp_tcp(2) keeps_hole_sent keeps_calls(5)
      split: prod.splits if_splits)

lemma keeps_tcp:
  assumes "handle_tcp E s msg sink addr key ws w = (u, k, w1)"
  shows "keeps_owners (pm w) (pm w1)"
proof (cases "\<exists>rr. msg = Some (RelayResponse rr)")
  case True
  then obtain rr where rr: "msg = Some (RelayResponse rr)" by blast
  obtain kk w2 where g: "get_pk E s (rr_version rr) (get_id (rr_union rr)) w = (kk, w2)"
    by (cases "get_pk E s (rr_version rr) (get_id (rr_union rr)) w")
  from keeps_calls(2) [OF g] assms rr g show ?thesis
    by (auto simp: handle_tcp_def Let_def split: option.splits if_splits)
next
  case False
  with assms show ?thesis
    by (cases msg; cases "the msg")
       (auto simp: handle_tcp_def Let_def dest!: keeps_punch_udp_tcp(1) keeps_hole_sent
        split: prod.splits option.splits outcome.splits)
qed

lemma keeps_listener_loop:
  "listener_loop E s addr key ws fs k w = (u, k1, w1) \<Longrightarrow> keeps_owners (pm w) (pm w1)"
proof (induction E s addr key ws fs k w arbitrary: u k1 w1 rule: listener_loop.induct)
  case (3 E s addr key ws msg fs k w)
  obtain r k2 w2 where t: "handle_tcp E s msg k addr key ws w = (r, k2, w2)"
    by (cases "handle_tcp E s msg k addr key ws w")
  from t have *: "keeps_owners (pm w) (pm w2)" by (rule keeps_tcp)
  show ?case
  proof (cases "r = Done True")
    case True
    with "3.prems" t have "listener_loop E s addr key ws fs k2 w2 = (u, k1, w1)" by simp
    with "3.IH" [OF t [symmetric, unfolded True]] True have "keeps_owners (pm w2) (pm w1)" by simp
    with * show ?thesis by (rule keeps_trans)
  next
    case False
    with "3.prems" t have "w1 = w2" by (auto split: outcome.splits bool.splits)
    with * show ?thesis by simp
  qed
qed auto

lemma keeps_listener_inner: "keeps_owners (pm w) (pm (snd (handle_listener_inner E s c addr key ws fs w)))"
proof -
  obtain u k w1 where l: "listener_loop E s addr key ws fs (Some (if ws then Ws c else TcpStream c)) w = (u, k, w1)"
    by (cases "listener_loop E s addr key ws fs (Some (if ws then Ws c else TcpStream c)) w")
  from keeps_listener_loop [OF this] show ?thesis
    by (auto simp: handle_listener_inner_def l split: outcome.splits option.splits)
qed

lemma pm_check_cmd [frame_simps]: "check_cmd E s cmd w = (t, w1) \<Longrightarrow> pm w1 = pm w"
  by (auto simp: check_cmd_def ip_blocker_cmd_def ip_changes_cmd_def Let_def dest!: keeps_calls(3)
      split: if_splits option.splits prod.splits)

lemma pm_listener2 [frame_simps]: "pm (snd (snd (handle_listener2 E s addr text msg w))) = pm w"
  by (auto simp: handle_listener2_def dest: pm_check_cmd split: option.splits prod.splits rendezvous_message.splits)

lemma keeps_io_step: "io_step E key ev s w = (r, s1, w1) \<Longrightarrow> keeps_owners (pm w) (pm w1)"
proof (cases ev)
  case (UdpNext msg addr)
  moreover assume "io_step E key ev s w = (r, s1, w1)"
  ultimately show ?thesis
    by (auto simp: io_step_def dest: keeps_udp split: prod.splits outcome.splits)
qed (auto simp: io_step_def check_relay_servers_def Let_def pm_listener2 keeps_listener_inner
    split: list.splits data.splits)

lemma keeps_io_loop: "io_loop E key evs s w = (r, s1, w1) \<Longrightarrow> keeps_owners (pm w) (pm w1)"
proof (induction E key evs s w arbitrary: r s1 w1 rule: io_loop.induct)
  case (2 E key ev evs s w)
  obtain r2 s2 w2 where st: "io_step E key ev s w = (r2, s2, w2)" by (cases "io_step E key ev s w")
  from st have *: "keeps_owners (pm w) (pm w2)" by (rule keeps_io_step)
  show ?case
  proof (cases "r2 = Done None")
    case True
    with "2.prems" st have "io_loop E key evs s2 w2 = (r, s1, w1)" by simp
    with "2.IH" [OF st [symmetric, unfolded True]] True have "keeps_owners (pm w2) (pm w1)" by simp
    with * show ?thesis by (rule keeps_trans)
  next
    case False
    with "2.prems" st have "w1 = w2" by (auto split: outcome.splits option.splits)
    with * show ?thesis by simp
  qed
qed auto

subsection \<open>Properties\<close>

text \<open>
  C11: No sequence of events of the server's loop, whatever its datagrams and connections, gives
  an id that is owned (a peer in memory with a uuid) to another uuid.
\<close>

theorem io_loop_keeps_owners:
  assumes "io_loop E key evs s w = (r, s', w')" "peers (pm w) i = Some p" "uuid p \<noteq> []"
  shows "\<exists>q. peers (pm w') i = Some q \<and> uuid q = uuid p"
  using keeps_io_loop [OF assms(1)] assms(2,3) by (auto simp: keeps_owners_def)

text \<open>A server to evaluate the handlers in.\<close>

definition sample_hbbs :: hbbs_env where
  "sample_hbbs = \<lparr>now = 5000000, db_up = True, new_guid = [1, 2, 3],
     info_to_json = (\<lambda>i. CHR ''#'' # info_ip i),
     info_of_json = (\<lambda>s. if s = [] then None else Some \<lparr>info_ip = tl s\<rparr>),
     send_ok = (\<lambda>_ _. True), valid_server = (\<lambda>h. h \<noteq> ''Y''), tm = 77,
     sign = (\<lambda>m k. k @ m), id_pk_bytes = (\<lambda>i k. k), parse_ip = (\<lambda>_. None)\<rparr>"

definition sample_server :: server where
  "sample_server = \<lparr>relay_servers = [''r1'', ''r2''], relay_servers0 = [''r1'', ''r2''], rendezvous_servers = [],
     inner = \<lparr>serial = 0, version = [], software_url = [], mask = None, local_ip = [], sk = None\<rparr>\<rparr>"

definition sample_peer :: peer where
  "sample_peer = \<lparr>socket_addr = SocketV4 9 9 9 9 50, last_reg_time = 4990000, guid = [1], uuid = [7],
     pk = [8], user = None, info = \<lparr>info_ip = ''9.9.9.9''\<rparr>, disabled = False, reg_pk = (0, 0)\<rparr>"

definition sample_shared :: shared where
  "sample_shared = \<lparr>tcp_punch = Map.empty, pm = \<lparr>peers = [''desk01'' \<mapsto> sample_peer], db = []\<rparr>, tx = [],
     ip_blocker = [], ip_changes = [], rotation = 0, always_use_relay = False, udp_out = [], tcp_out = []\<rparr>"

theorem io_loop_keeps_owners_witness:
  "\<exists>q. peers (pm (snd (snd (io_loop sample_hbbs [] [UdpNext (Some (RegisterPk \<lparr>rk_id = ''desk01'',
       rk_uuid = [66], rk_pk = [66], rk_old_id = []\<rparr>)) (SocketV4 1 2 3 4 5)] sample_server sample_shared))))
       ''desk01'' = Some q \<and> uuid q = [7]"
proof -
  obtain r s' w' where l: "io_loop sample_hbbs [] [UdpNext (Some (RegisterPk \<lparr>rk_id = ''desk01'',
      rk_uuid = [66], rk_pk = [66], rk_old_id = []\<rparr>)) (SocketV4 1 2 3 4 5)] sample_server sample_shared
      = (r, s', w')" by (metis prod.collapse)
  from io_loop_keeps_owners [OF this, of "''desk01''" sample_peer] show ?thesis
    by (simp only: l snd_conv) (simp add: sample_shared_def sample_peer_def)
qed



text \<open>
  The punch hole request's offline test. The age of the last registration is truncated to
  an \<open>i32\<close> of milliseconds, so a peer counts as online in its first 30 seconds and, again, for
  the second half of every period of \<open>2 ^ 32\<close> milliseconds (first after about 25 days).
\<close>

theorem online_iff:
  "elapsed_millis_i32 E t < REG_TIMEOUT \<longleftrightarrow>
     (now E - t) mod 2 ^ 32 < 30000 \<or> (now E - t) mod 2 ^ 32 \<ge> 2 ^ 31"
proof -
  have m: "int (n mod 2 ^ 32) = int n mod 2 ^ 32" for n by (simp add: zmod_int)
  show ?thesis
    unfolding elapsed_millis_i32_def wrap_i32_mod REG_TIMEOUT_def m [symmetric] by auto
qed

text \<open>Registrations of one address, each at its time (in milliseconds), answered in order.\<close>

fun register_run ::
  "'a hbbs_env_scheme \<Rightarrow> string \<Rightarrow> (nat \<times> string) list \<Rightarrow> shared \<Rightarrow> bool list" where
  "register_run E ipt [] w = []"
| "register_run E ipt ((t, i) # cs) w =
     (let (ok, w) = check_ip_blocker (E\<lparr>now := t\<rparr>) ipt i w in ok # register_run E ipt cs w)"

text \<open>How many requests the counter of an address still admits in a window that starts at \<open>T\<close>.\<close>

definition budget :: "nat \<Rightarrow> string \<Rightarrow> shared \<Rightarrow> nat" where
  "budget T ipt w =
     (case map_of (ip_blocker w) ipt of
        None \<Rightarrow> 32
      | Some ((n, t), _) \<Rightarrow> if t \<ge> T then 31 - n else 32)"

lemma check_ip_blocker_budget:
  assumes "T \<le> t" "t < T + 61000" "check_ip_blocker (E\<lparr>now := t\<rparr>) ipt i w = (ok, w')"
  shows "(if ok then 1 else 0) + budget T ipt w' \<le> budget T ipt w"
proof (cases "map_of (ip_blocker w) ipt")
  case None
  with assms show ?thesis by (auto simp: check_ip_blocker_def budget_def AList.update_conv')
next
  case (Some c)
  obtain n t0 ids td where c: "c = ((n, t0), (ids, td))" by (metis prod.collapse)
  have "elapsed_secs (E\<lparr>now := t\<rparr>) t0 \<le> 60" if "T \<le> t0"
    using that assms(1,2) by (simp add: elapsed_secs_def)
  then show ?thesis
    using assms Some c
    by (auto simp: check_ip_blocker_def budget_def AList.update_conv' IP_BLOCK_DUR_def Let_def split: if_splits)
qed

lemma register_run_budget:
  assumes "\<forall>(t, i) \<in> set cs. T \<le> t \<and> t < T + 61000"
  shows "length (filter id (register_run E ipt cs w)) \<le> budget T ipt w"
  using assms
proof (induction cs arbitrary: w)
  case (Cons c cs)
  obtain t i where c: "c = (t, i)" by (cases c)
  obtain ok w1 where b: "check_ip_blocker (E\<lparr>now := t\<rparr>) ipt i w = (ok, w1)"
    by (cases "check_ip_blocker (E\<lparr>now := t\<rparr>) ipt i w")
  have "(if ok then 1 else 0) + budget T ipt w1 \<le> budget T ipt w"
    using Cons.prems c by (intro check_ip_blocker_budget [OF _ _ b]) auto
  moreover have "length (filter id (register_run E ipt cs w1)) \<le> budget T ipt w1"
    using Cons.prems by (intro Cons.IH) simp
  ultimately show ?case by (simp add: c b id_def split: if_splits)
qed simp

text \<open>
  C18: Whatever its history, one address gets at most 32 registrations of keys past the IP
  blocker in a window of 61 seconds, however many ids it tries.
\<close>

theorem ip_blocker_bounds_rate:
  assumes "\<forall>(t, i) \<in> set cs. T \<le> t \<and> t < T + 61000"
  shows "length (filter id (register_run E ipt cs w)) \<le> 32"
proof -
  have "budget T ipt w \<le> 32" by (auto simp: budget_def split: option.splits prod.splits)
  with register_run_budget [OF assms] show ?thesis by (rule order_trans)
qed

theorem ip_blocker_bounds_rate_witness:
  "length (filter id (register_run sample_hbbs ''1.2.3.4'' [(1000, ''desk01''), (61999, ''desk02'')] sample_shared)) \<le> 32"
  by (rule ip_blocker_bounds_rate [where T = 1000]) simp

lemma pair_fst: "f = (a, b) \<Longrightarrow> fst f = a"
  by simp

lemma send_never_panics [simp]:
  "fst (socket_send E msg addr w) \<noteq> Panicked" "fst (send_rk_res E addr res w) \<noteq> Panicked"
  "fst (reply_to_a E udp msg addr w) \<noteq> Panicked" "fst (update_addr E i addr w) \<noteq> Panicked"
  by (auto simp: socket_send_def send_rk_res_def reply_to_a_def update_addr_def Let_def
      split: option.splits prod.splits)

lemma register_pk_never_panics: "fst (handle_register_pk E addr rk w) \<noteq> Panicked"
  by (auto simp: handle_register_pk_def Let_def split: option.splits prod.splits)

lemma register_peer_never_panics: "fst (handle_register_peer E s addr rp w) \<noteq> Panicked"
  using send_never_panics(4) [of E "rp_id rp" addr w]
  by (cases "update_addr E (rp_id rp) addr w") (auto simp: handle_register_peer_def split: outcome.splits)

lemma punch_never_panics:
  "fst (handle_punch_hole_request E s (SocketV4 a b c d p) ph key ws w) \<noteq> Panicked"
  by (auto simp: handle_punch_hole_request_def Let_def split: option.splits prod.splits)

lemma punch_udp_never_panics:
  "fst (handle_udp_punch_hole_request E s (SocketV4 a b c d p) ph key w) \<noteq> Panicked"
  using punch_never_panics [of E s a b c d p ph key False w]
  by (auto simp: handle_udp_punch_hole_request_def split: outcome.splits prod.splits option.splits)

lemma hole_sent_panics_iff:
  "fst (handle_hole_sent E s phs (SocketV4 a b c d p) udp w) = Panicked \<longleftrightarrow> length (phs_socket_addr phs) > 16"
  "fst (handle_local_addr E s la (SocketV4 a b c d p) udp w) = Panicked \<longleftrightarrow> length (la_socket_addr la) > 16"
  by (auto simp: handle_hole_sent_def handle_local_addr_def mangle_decode_def Let_def
      split: prod.splits option.splits)

text \<open>
  C29: A single datagram ends the server's main task exactly when it is a \<open>PunchHoleSent\<close> or a
  \<open>LocalAddr\<close> whose mangled address is longer than 16 bytes (the sender is not authenticated).
\<close>

theorem udp_datagram_kills_server_iff:
  "fst (io_step E key (UdpNext msg (SocketV4 a b c d p)) s w) = Panicked \<longleftrightarrow>
     (\<exists>phs. msg = Some (PunchHoleSent phs) \<and> length (phs_socket_addr phs) > 16) \<or>
     (\<exists>la. msg = Some (LocalAddr la) \<and> length (la_socket_addr la) > 16)"
proof -
  have "fst (io_step E key (UdpNext msg (SocketV4 a b c d p)) s w) = Panicked \<longleftrightarrow>
      fst (handle_udp E msg (SocketV4 a b c d p) key s w) = Panicked"
    by (auto simp: io_step_def split: prod.splits outcome.splits)
  also have "\<dots> \<longleftrightarrow>
      (\<exists>phs. msg = Some (PunchHoleSent phs) \<and> length (phs_socket_addr phs) > 16) \<or>
      (\<exists>la. msg = Some (LocalAddr la) \<and> length (la_socket_addr la) > 16)"
    using register_pk_never_panics [of E "SocketV4 a b c d p" _ w]
      register_peer_never_panics [of E s "SocketV4 a b c d p" _ w]
      punch_udp_never_panics [of E s a b c d p _ key w] hole_sent_panics_iff [of E s _ a b c d p True w]
      send_never_panics(1) [of E _ "SocketV4 a b c d p" w]
    by (cases msg; cases "the msg") (auto simp: handle_udp_def spawn_def Let_def split_beta)
  finally show ?thesis .
qed

lemma handle_punch_of_online:
  assumes "key = [] \<or> ph_licence_key ph = key" "peers (pm w) (ph_id ph) = Some p"
    "elapsed_millis_i32 E (last_reg_time p) < REG_TIMEOUT" "\<not> always_use_relay w" "mask (inner s) = None"
    "mangle_encode (tm E) addr = Some m"
  shows "handle_punch_hole_request E s addr ph key ws w =
    (let (relay, w) = get_relay_server s w in
     (Done (if same_intranet ws (socket_addr p) addr then FetchLocalAddr m relay
            else PunchHole m relay (ph_nat_type ph), Some (socket_addr p)), w))"
  using assms
  by (auto simp: handle_punch_hole_request_def get_def is_lan_def Let_def split: prod.splits)

lemma relay_server_frame [frame_simps, simp]:
  "tcp_punch (snd (get_relay_server s w)) = tcp_punch w" "tx (snd (get_relay_server s w)) = tx w"
  "tcp_out (snd (get_relay_server s w)) = tcp_out w"
  by (simp_all add: get_relay_server_def Let_def)

lemma get_pk_frame [frame_simps]:
  "tcp_punch (snd (get_pk E s v i w)) = tcp_punch w" "tcp_out (snd (get_pk E s v i w)) = tcp_out w"
  by (auto simp: get_pk_def split: option.splits prod.splits)

text \<open>
  A punch hole session. A's request over TCP for an online peer parks A's connection and queues to
  the peer's address a \<open>PunchHole\<close> that carries A's address; whatever connection B then answers from
  with that value, A's connection receives B's address and is released.
\<close>

lemma punch_hole_answer:
  assumes "key = [] \<or> ph_licence_key ph = key" "peers (pm w) (ph_id ph) = Some p"
    "elapsed_millis_i32 E (last_reg_time p) < REG_TIMEOUT" "\<not> always_use_relay w" "mask (inner s) = None"
    "addr_a = SocketV4 a b c d n" "addr_b = SocketV4 a' b' c' d' n'"
    "\<not> same_intranet ws (socket_addr p) addr_a"
    "handle_tcp E s (Some (PunchHoleRequest ph)) (Some k) addr_a key ws w = (res1, k1, w1)"
  shows "\<exists>m relay. tx w1 = tx w @ [Msg (PunchHole m relay (ph_nat_type ph)) (socket_addr p)] \<and>
    tcp_punch w1 addr_a = Some k \<and> pm w1 = pm w \<and> mangle_decode m = Some addr_a \<and>
    (\<forall>phs kb ws' res2 k2 w2. phs_socket_addr phs = m \<longrightarrow>
       handle_tcp E' s (Some (PunchHoleSent phs)) kb addr_b key ws' w1 = (res2, k2, w2) \<longrightarrow>
       (\<exists>r. tcp_out w2 = tcp_out w1 @ [(k, PunchHoleResponse r)] \<and>
          mangle_decode (pr_socket_addr r) = Some addr_b \<and> pr_relay_server r = phs_relay_server phs \<and>
          pr_pk r = fst (get_pk E' s (phs_version phs) (phs_id phs) w1) \<and> tcp_punch w2 addr_a = None))"
proof -
  obtain m where m: "mangle_encode (tm E) addr_a = Some m" using assms(6) by simp
  obtain mb where mb: "mangle_encode (tm E') addr_b = Some mb" using assms(7) by simp
  let ?w = "park_sink (Some k) addr_a w"
  obtain relay w0 where r: "get_relay_server s ?w = (relay, w0)" by (cases "get_relay_server s ?w")
  from r have w0: "tx w0 = tx w" "tcp_punch w0 = (tcp_punch w)(addr_a \<mapsto> k)" "tcp_out w0 = tcp_out w" "pm w0 = pm w"
    using relay_server_frame [of s ?w] pm_relay_server [of s ?w] by (simp_all add: park_sink_def)
  have pw: "peers (pm ?w) (ph_id ph) = Some p" "\<not> always_use_relay ?w"
    using assms(2,4) by (simp_all add: park_sink_def)
  have w1: "w1 = tx_send (Msg (PunchHole m relay (ph_nat_type ph)) (socket_addr p)) w0"
    using assms(9) handle_punch_of_online [OF assms(1) pw(1) assms(3) pw(2) assms(5) m, of ws] assms(8)
    by (simp add: handle_tcp_def handle_tcp_punch_hole_request_def r Let_def)
  have "\<exists>r. tcp_out w2 = tcp_out w1 @ [(k, PunchHoleResponse r)] \<and>
      mangle_decode (pr_socket_addr r) = Some addr_b \<and> pr_relay_server r = phs_relay_server phs \<and>
      pr_pk r = fst (get_pk E' s (phs_version phs) (phs_id phs) w1) \<and> tcp_punch w2 addr_a = None"
    if "phs_socket_addr phs = m"
      "handle_tcp E' s (Some (PunchHoleSent phs)) kb addr_b key ws' w1 = (res2, k2, w2)"
    for phs kb ws' res2 k2 w2
  proof -
    obtain pkb w3 where g: "get_pk E' s (phs_version phs) (phs_id phs) w1 = (pkb, w3)"
      by (cases "get_pk E' s (phs_version phs) (phs_id phs) w1")
    have "tcp_punch w3 = tcp_punch w1" "tcp_out w3 = tcp_out w1"
      using get_pk_frame [of E' s "phs_version phs" "phs_id phs" w1] unfolding g snd_conv .
    moreover have "tcp_punch w1 addr_a = Some k" using w0 w1 by (simp add: tx_send_def)
    moreover note that g mb mangle_decode_encode [OF m]
    ultimately show ?thesis
      by (auto simp: handle_tcp_def handle_hole_sent_def reply_to_a_def send_to_tcp_def
          send_to_sink_def mangle_decode_encode [OF mb] Let_def)
  qed
  with w0 w1 mangle_decode_encode [OF m] show ?thesis
    by (intro exI [of _ m] exI [of _ relay]) (auto simp: tx_send_def)
qed

definition sample_request :: punch_hole_request where
  "sample_request = \<lparr>ph_id = ''desk01'', ph_nat_type = Known ASYMMETRIC, ph_licence_key = [],
     ph_conn_type = Known DEFAULT_CONN, ph_token = [], ph_from_id = [], ph_from_uuid = []\<rparr>"

text \<open>
  A punch hole request is refused in exactly three cases, each with its own failure: the
  licence key does not match, neither memory nor table knows the id, or the peer's registration is
  too old; in every other case a message goes to the address the peer registered from.
\<close>

theorem punch_hole_request_answer:
  "fst (handle_punch_hole_request E s (SocketV4 a b c d n) ph key ws w) = Done (msg, to_addr) \<Longrightarrow>
     (case to_addr of
        None \<Rightarrow>
          (key \<noteq> [] \<and> ph_licence_key ph \<noteq> key \<and> msg = punch_failure_response LICENSE_MISMATCH) \<or>
          (fst (get E (ph_id ph) (pm w)) = None \<and> msg = punch_failure_response ID_NOT_EXIST) \<or>
          (\<exists>p. fst (get E (ph_id ph) (pm w)) = Some p \<and>
             elapsed_millis_i32 E (last_reg_time p) \<ge> REG_TIMEOUT \<and> msg = punch_failure_response OFFLINE)
      | Some t \<Rightarrow> \<exists>p. fst (get E (ph_id ph) (pm w)) = Some p \<and> t = socket_addr p \<and>
             elapsed_millis_i32 E (last_reg_time p) < REG_TIMEOUT \<and> (key = [] \<or> ph_licence_key ph = key))"
  by (auto simp: handle_punch_hole_request_def Let_def split: option.splits prod.splits if_splits)

theorem punch_hole_request_answer_witness:
  "fst (get sample_hbbs ''desk02'' (pm sample_shared)) = None"
proof -
  let ?ph = "sample_request\<lparr>ph_id := ''desk02''\<rparr>"
  have g: "get sample_hbbs ''desk02'' (pm sample_shared) = (None, pm sample_shared)"
    by (simp add: get_def get_peer_def sample_hbbs_def sample_shared_def)
  then have "fst (handle_punch_hole_request sample_hbbs sample_server (SocketV4 1 2 3 4 5) ?ph [] False sample_shared) =
      Done (punch_failure_response ID_NOT_EXIST, None)"
    by (simp add: handle_punch_hole_request_def)
  from punch_hole_request_answer [OF this] show ?thesis
    by (auto simp: punch_failure_response_def default_punch_hole_response_def g)
qed

text \<open>
  The command \<open>always-use-relay Y\<close> sets the flag and, as its text also goes out as a list of
  relay servers, empties the server's list (Y names no host), so no relay is left to use.
\<close>

theorem always_use_relay_drops_relays:
  assumes "\<not> valid_server E ''Y''" "tx w = []" "check_cmd E s ''aur Y'' w = (res, w1)"
    "io_step E key RxRecv s w1 = (r, s', w')"
  shows "always_use_relay w' \<and> relay_servers s' = [] \<and> fst (get_relay_server s' w') = []"
proof -
  have "w1 = tx_send (RelayServers0 ''Y'') (w\<lparr>always_use_relay := True\<rparr>)"
    using assms(3) by (simp add: check_cmd_def trim_def is_space_def nth_opt_def Let_def)
  moreover have "get_servers E ''Y'' = []" using assms(1) by (simp add: get_servers_def)
  ultimately show ?thesis using assms(2,4)
    by (auto simp: io_step_def tx_send_def parse_relay_servers_def get_relay_server_def)
qed

theorem always_use_relay_drops_relays_witness:
  "relay_servers (fst (snd (io_step sample_hbbs [] RxRecv sample_server
     (snd (check_cmd sample_hbbs sample_server ''aur Y'' sample_shared))))) = [] \<and>
   relay_servers sample_server \<noteq> []"
proof -
  have h: "\<not> valid_server sample_hbbs ''Y''" "tx sample_shared = []"
    by (simp_all add: sample_hbbs_def sample_shared_def)
  obtain res w1 where c: "check_cmd sample_hbbs sample_server ''aur Y'' sample_shared = (res, w1)"
    by (metis prod.collapse)
  obtain r s' w' where i: "io_step sample_hbbs [] RxRecv sample_server w1 = (r, s', w')"
    by (metis prod.collapse)
  from always_use_relay_drops_relays [OF h c i] show ?thesis
    by (simp add: c i) (simp add: sample_server_def)
qed

text \<open>
  The serial of the configuration never goes back, and it and the rendezvous servers only
  change by an update from the loopback address with a newer serial, whose valid hosts are kept.
\<close>

theorem io_step_config:
  "serial (inner s) \<le> serial (inner (fst (snd (io_step E key ev s w)))) \<and>
   ((inner (fst (snd (io_step E key ev s w))) = inner s \<and>
     rendezvous_servers (fst (snd (io_step E key ev s w))) = rendezvous_servers s) \<or>
    (\<exists>cu addr. ev = UdpNext (Some (ConfigureUpdate cu)) addr \<and> ip addr = ADDR_127 \<and>
       cu_serial cu > serial (inner s) \<and>
       inner (fst (snd (io_step E key ev s w))) = (inner s)\<lparr>serial := cu_serial cu\<rparr> \<and>
       set (rendezvous_servers (fst (snd (io_step E key ev s w)))) =
         {h \<in> set (cu_rendezvous_servers cu). h \<noteq> [] \<and> valid_server E h}))"
proof (cases ev)
  case (UdpNext msg addr)
  have "fst (snd (io_step E key ev s w)) = fst (snd (handle_udp E msg addr key s w))"
    using UdpNext by (auto simp: io_step_def split: prod.splits outcome.splits)
  also have "\<dots> = (case msg of Some (ConfigureUpdate cu) \<Rightarrow> handle_configure_update E addr cu s | _ \<Rightarrow> s)"
    by (cases msg; cases "the msg") (auto simp: handle_udp_def Let_def split_beta)
  finally have e: "fst (snd (io_step E key ev s w)) =
      (case msg of Some (ConfigureUpdate cu) \<Rightarrow> handle_configure_update E addr cu s | _ \<Rightarrow> s)" .
  show ?thesis
    unfolding e using UdpNext
    by (auto simp: handle_configure_update_def split: option.splits rendezvous_message.splits)
next
  case RxRecv
  then show ?thesis
    by (auto simp: io_step_def parse_relay_servers_def Let_def split: list.splits data.splits)
qed (simp_all add: io_step_def)

text \<open>
  With several relay servers the rotation visits them in turn: the index advances by one per
  request (modulo the number of servers) as long as the counter does not wrap.
\<close>

theorem relay_rotation:
  assumes "length (relay_servers s) > 1" "unat (rotation w) + 1 < 2 ^ 64"
    "get_relay_server s w = (r, w')"
  shows "r = relay_servers s ! ((unat (rotation w) + 1) mod length (relay_servers s)) \<and>
    unat (rotation w') = unat (rotation w) + 1 \<and> r \<in> set (relay_servers s)"
proof -
  have u: "unat (rotation w + 1) = unat (rotation w) + 1"
    using assms(2) by (simp add: unat_word_ariths)
  from assms(1) have "length (relay_servers s) > 0" by linarith
  then have "relay_servers s \<noteq> []" "length (relay_servers s) \<noteq> 1"
    using assms(1) by (auto simp del: One_nat_def)
  with assms(3) have *: "r = relay_servers s ! (unat (rotation w + 1) mod length (relay_servers s))"
    "rotation w' = rotation w + 1"
    by (auto simp: get_relay_server_def Let_def)
  have "(unat (rotation w) + 1) mod length (relay_servers s) < length (relay_servers s)"
    using \<open>length (relay_servers s) > 0\<close> by (rule mod_less_divisor)
  then show ?thesis using * by (simp add: u)
qed

theorem relay_rotation_witness: "fst (get_relay_server sample_server sample_shared) = ''r2''"
proof -
  have h: "length (relay_servers sample_server) > 1" "unat (rotation sample_shared) + 1 < 2 ^ 64"
    "relay_servers sample_server ! ((unat (rotation sample_shared) + 1) mod length (relay_servers sample_server)) = ''r2''"
    by (simp_all add: sample_server_def sample_shared_def)
  from relay_rotation [OF h(1,2) prod.collapse [symmetric]] h(3) show ?thesis by simp
qed

end
