(* ===== verification/Relay_Server.thy ===== *)
theory Relay_Server
  imports Complex_Main Prelude Net_Addr Version Rendezvous_Proto Rendezvous_Server "HOL-Library.Sublist"
begin

text \<open>
  The relay server \<open>hbbr\<close>, \<open>KdDeskTC_Server/src/relay_server.rs\<close>: two connections that name the
  same uuid are joined and their frames copied both ways, with limits per connection, per
  address and in total.

  The statics are the record \<open>relay_world\<close>. A \<open>HashMap\<close> or \<open>HashSet\<close> that is printed is a list
  in one iteration order. An \<open>f64\<close> is a rational (rounding, infinities and NaN are not
  modelled), its text the environment's. The task of a connection that waits for its pair sleeps
  for 30 seconds: \<open>sleepers\<close> holds when it wakes and the uuid it then removes. A limiter delays,
  so the model records how many bits each was charged.
\<close>

type_synonym usage = "nat \<times> nat \<times> nat \<times> nat"

record relay_stream =
  conn :: nat
  is_ws :: bool
  is_raw :: bool

record relay_params =
  DOWNGRADE_THRESHOLD :: rat
  DOWNGRADE_START_CHECK :: nat
  LIMIT_SPEED :: nat
  TOTAL_BANDWIDTH :: nat
  SINGLE_BANDWIDTH :: nat

record relay_world =
  PEERS :: "string \<rightharpoonup> relay_stream"
  USAGE :: "(string \<times> usage) list"
  BLACKLIST :: "string list"
  BLOCKLIST :: "string list"
  params :: relay_params
  speed_limit :: nat
  sleepers :: "(nat \<times> string) list"

record relay_env =
  parse_f64 :: "string \<Rightarrow> rat option"
  show_f64 :: "rat \<Rightarrow> string"
  show_f64_2 :: "rat \<Rightarrow> string"
  var :: "string \<Rightarrow> string option"

definition default_params :: relay_params where
  "default_params = \<lparr>DOWNGRADE_THRESHOLD = 66 / 100, DOWNGRADE_START_CHECK = 1800000,
     LIMIT_SPEED = 4 * 1024 * 1024, TOTAL_BANDWIDTH = 1024 * 1024 * 1024,
     SINGLE_BANDWIDTH = 16 * 1024 * 1024\<rparr>"

text \<open>\<open>as usize\<close> of an \<open>f64\<close> truncates and saturates; a product of \<open>usize\<close> wraps.\<close>

definition as_usize :: "rat \<Rightarrow> nat" where
  "as_usize q = min (nat \<lfloor>q\<rfloor>) (2 ^ 64 - 1)"

definition usize_mul :: "nat \<Rightarrow> nat \<Rightarrow> nat" where
  "usize_mul a b = a * b mod 2 ^ 64"

definition mbits :: "rat \<Rightarrow> nat" where
  "mbits v = as_usize (v * 1024 * 1024)"

definition insert_set :: "string \<Rightarrow> string list \<Rightarrow> string list" where
  "insert_set x xs = (if x \<in> set xs then xs else x # xs)"

subsection \<open>Start\<close>

text \<open>The first field of each line of \<open>blacklist.txt\<close> and \<open>blocklist.txt\<close>.\<close>

definition load_list :: "string option \<Rightarrow> string list \<Rightarrow> string list" where
  "load_list contents xs =
     (case contents of
        None \<Rightarrow> xs
      | Some c \<Rightarrow> fold (\<lambda>l. insert_set (hd (split_on (CHR '' '') (trim l)))) (split_on (char_of (10 :: nat)) c) xs)"

definition env_f64 :: "relay_env \<Rightarrow> string \<Rightarrow> rat" where
  "env_f64 E v = (case var E v of Some x \<Rightarrow> (case parse_f64 E x of Some q \<Rightarrow> q | None \<Rightarrow> 0) | None \<Rightarrow> 0)"

definition env_usize :: "relay_env \<Rightarrow> string \<Rightarrow> nat" where
  "env_usize E v = (case var E v of Some x \<Rightarrow> (case parse_usize x of Some n \<Rightarrow> nat n | None \<Rightarrow> 0) | None \<Rightarrow> 0)"

definition check_params :: "relay_env \<Rightarrow> relay_params \<Rightarrow> relay_params" where
  "check_params E p =
     (let t = env_f64 E ''DOWNGRADE_THRESHOLD'';
          p = (if t > 0 then p\<lparr>DOWNGRADE_THRESHOLD := t\<rparr> else p);
          n = env_usize E ''DOWNGRADE_START_CHECK'';
          p = (if n > 0 then p\<lparr>DOWNGRADE_START_CHECK := usize_mul n 1000\<rparr> else p);
          t = env_f64 E ''LIMIT_SPEED'';
          p = (if t > 0 then p\<lparr>LIMIT_SPEED := mbits t\<rparr> else p);
          t = env_f64 E ''TOTAL_BANDWIDTH'';
          p = (if t > 0 then p\<lparr>TOTAL_BANDWIDTH := mbits t\<rparr> else p);
          t = env_f64 E ''SINGLE_BANDWIDTH''
      in if t > 0 then p\<lparr>SINGLE_BANDWIDTH := mbits t\<rparr> else p)"

subsection \<open>The administration commands\<close>

definition relay_help :: string where
  "relay_help = concat (map (\<lambda>l. l @ newline)
     [''blacklist-add(ba) <ip>'', ''blacklist-remove(br) <ip>'', ''blacklist(b) <ip>'',
      ''blocklist-add(Ba) <ip>'', ''blocklist-remove(Br) <ip>'', ''blocklist(B) <ip>'',
      ''downgrade-threshold(dt) [value]'', ''downgrade-start-check(t) [value(second)]'',
      ''limit-speed(ls) [value(Mb/s)]'', ''total-bandwidth(tb) [value(Mb/s)]'',
      ''single-bandwidth(sb) [value(Mb/s)]'', ''usage(u)''])"

definition list_add :: "string option \<Rightarrow> string list \<Rightarrow> string list" where
  "list_add a xs = (case a of Some ips \<Rightarrow> fold insert_set (split_on (CHR ''|'') ips) xs | None \<Rightarrow> xs)"

definition list_remove :: "string option \<Rightarrow> string list \<Rightarrow> string list" where
  "list_remove a xs =
     (case a of
        Some ips \<Rightarrow> if ips = ''all'' then [] else filter (\<lambda>x. x \<notin> set (split_on (CHR ''|'') ips)) xs
      | None \<Rightarrow> xs)"

definition list_show :: "string option \<Rightarrow> string list \<Rightarrow> string" where
  "list_show a xs =
     (case a of
        Some ipt \<Rightarrow> (if ipt \<in> set xs then ''true'' else ''false'') @ newline
      | None \<Rightarrow> concat (map (\<lambda>x. x @ newline) xs))"

definition show_mbs :: "relay_env \<Rightarrow> nat \<Rightarrow> string" where
  "show_mbs E n = show_f64 E (of_nat n / 1024 / 1024) @ ''Mb/s'' @ newline"

text \<open>\<open>sort_by\<close> is stable; the larger total comes first.\<close>

definition show_usage :: "relay_env \<Rightarrow> (string \<times> usage) list \<Rightarrow> string" where
  "show_usage E us =
     concat (map (\<lambda>(i, elapsed, total, highest, speed).
         if elapsed = 0 then []
         else i @ '': '' @ show_nat (elapsed div 1000) @ ''s '' @
              show_f64_2 E (of_nat total / 1024 / 1024 / 8) @ ''MB '' @ show_nat highest @ ''kb/s '' @
              show_nat (total div elapsed) @ ''kb/s '' @ show_nat speed @ ''kb/s'' @ newline)
       (sort_key (\<lambda>(i, elapsed, total, rest). - int total) us))"

text \<open>A positive number given to a command, if it is one.\<close>

definition positive_f64 :: "relay_env \<Rightarrow> string \<Rightarrow> rat option" where
  "positive_f64 E v = (case parse_f64 E v of Some q \<Rightarrow> if q > 0 then Some q else None | None \<Rightarrow> None)"

definition set_params :: "relay_world \<Rightarrow> (relay_params \<Rightarrow> relay_params) \<Rightarrow> relay_world" where
  "set_params w f = w\<lparr>params := f (params w)\<rparr>"

definition relay_check_cmd :: "relay_env \<Rightarrow> string \<Rightarrow> relay_world \<Rightarrow> string \<times> relay_world" where
  "relay_check_cmd E cmd w =
     (let fds = split_on (CHR '' '') (trim cmd); c = hd fds; a = nth_opt fds 1; p = params w;
          number = (\<lambda>f. (case a of Some v \<Rightarrow> (case positive_f64 E v of Some q \<Rightarrow> f q | None \<Rightarrow> w) | None \<Rightarrow> w));
          answer = (\<lambda>t. if a = None then t else [])
      in if c = ''h'' then (relay_help, w)
      else if c = ''blacklist-add'' \<or> c = ''ba'' then ([], w\<lparr>BLACKLIST := list_add a (BLACKLIST w)\<rparr>)
      else if c = ''blacklist-remove'' \<or> c = ''br'' then ([], w\<lparr>BLACKLIST := list_remove a (BLACKLIST w)\<rparr>)
      else if c = ''blacklist'' \<or> c = ''b'' then (list_show a (BLACKLIST w), w)
      else if c = ''blocklist-add'' \<or> c = ''Ba'' then ([], w\<lparr>BLOCKLIST := list_add a (BLOCKLIST w)\<rparr>)
      else if c = ''blocklist-remove'' \<or> c = ''Br'' then ([], w\<lparr>BLOCKLIST := list_remove a (BLOCKLIST w)\<rparr>)
      else if c = ''blocklist'' \<or> c = ''B'' then (list_show a (BLOCKLIST w), w)
      else if c = ''downgrade-threshold'' \<or> c = ''dt'' then
        (answer (show_f64 E (DOWNGRADE_THRESHOLD p) @ newline),
         number (\<lambda>q. set_params w (\<lambda>p. p\<lparr>DOWNGRADE_THRESHOLD := q\<rparr>)))
      else if c = ''downgrade-start-check'' \<or> c = ''t'' then
        (case a of
           None \<Rightarrow> (show_nat (DOWNGRADE_START_CHECK p div 1000) @ ''s'' @ newline, w)
         | Some v \<Rightarrow> ([], (case parse_usize v of
              Some n \<Rightarrow> if n > 0 then set_params w (\<lambda>p. p\<lparr>DOWNGRADE_START_CHECK := usize_mul (nat n) 1000\<rparr>) else w
            | None \<Rightarrow> w)))
      else if c = ''limit-speed'' \<or> c = ''ls'' then
        (answer (show_mbs E (LIMIT_SPEED p)), number (\<lambda>q. set_params w (\<lambda>p. p\<lparr>LIMIT_SPEED := mbits q\<rparr>)))
      else if c = ''total-bandwidth'' \<or> c = ''tb'' then
        (answer (show_mbs E (TOTAL_BANDWIDTH p)),
         number (\<lambda>q. set_params (w\<lparr>speed_limit := mbits q\<rparr>) (\<lambda>p. p\<lparr>TOTAL_BANDWIDTH := mbits q\<rparr>)))
      else if c = ''single-bandwidth'' \<or> c = ''sb'' then
        (answer (show_mbs E (SINGLE_BANDWIDTH p)), number (\<lambda>q. set_params w (\<lambda>p. p\<lparr>SINGLE_BANDWIDTH := mbits q\<rparr>)))
      else if c = ''usage'' \<or> c = ''u'' then (show_usage E (USAGE w), w)
      else ([], w))"

subsection \<open>Pairing\<close>

definition stream_set_raw :: "relay_stream \<Rightarrow> relay_stream" where
  "stream_set_raw s = (if is_ws s then s else s\<lparr>is_raw := True\<rparr>)"

text \<open>
  The task of a connection, on its first frame (\<open>None\<close>: none came in 30 seconds or it did not
  parse): it ends, or it relays between its stream and the one that waited, under an id of the
  usage table, or it parks its stream and sleeps.
\<close>

datatype pairing = Dropped | Relaying relay_stream relay_stream string | Parked

definition make_pair ::
  "nat \<Rightarrow> relay_stream \<Rightarrow> socket_addr \<Rightarrow> string \<Rightarrow> rendezvous_message option \<Rightarrow> relay_world
     \<Rightarrow> pairing \<times> relay_world" where
  "make_pair t stream addr key msg_in w =
     (case msg_in of
        Some (RequestRelay rf) \<Rightarrow>
          if key \<noteq> [] \<and> rf_licence_key rf \<noteq> key then (Dropped, w)
          else if rf_uuid rf = [] then (Dropped, w)
          else (case PEERS w (rf_uuid rf) of
            Some p \<Rightarrow>
              let w = w\<lparr>PEERS := (PEERS w)(rf_uuid rf := None)\<rparr>;
                  i = ip_to_string (ip addr) @ '':'' @ show_nat (unat (port addr));
                  w = w\<lparr>USAGE := AList.update i (0, 0, 0, 0) (USAGE w)\<rparr>;
                  both = (\<not> is_ws stream \<and> \<not> is_ws p)
              in (Relaying (if both then stream_set_raw stream else stream)
                    (if both then stream_set_raw p else p) i, w)
          | None \<Rightarrow>
              (Parked, w\<lparr>PEERS := (PEERS w)(rf_uuid rf \<mapsto> stream),
                         sleepers := sleepers w @ [(t + 30000, rf_uuid rf)]\<rparr>))
      | _ \<Rightarrow> (Dropped, w))"

text \<open>The sleeping tasks that are due wake and remove what waits under their uuid.\<close>

definition wake :: "nat \<Rightarrow> relay_world \<Rightarrow> relay_world" where
  "wake t w = fold (\<lambda>(d, u) w. if d \<le> t then w\<lparr>PEERS := (PEERS w)(u := None)\<rparr> else w) (sleepers w)
     (w\<lparr>sleepers := filter (\<lambda>(d, u). d > t) (sleepers w)\<rparr>)"

text \<open>
  A connection accepted at time \<open>t\<close>: a local one is a command (its text, \<open>None\<close> if none is read),
  one from a blocked address is closed.
\<close>

datatype accepted = Command "string option" | Blocked | Connected pairing

definition handle_connection ::
  "relay_env \<Rightarrow> nat \<Rightarrow> nat \<Rightarrow> socket_addr \<Rightarrow> string \<Rightarrow> bool \<Rightarrow> string option \<Rightarrow> rendezvous_message option
     \<Rightarrow> relay_world \<Rightarrow> accepted \<times> relay_world" where
  "handle_connection E t c addr key ws text msg_in w =
     (let w = wake t w; ipt = ip_to_string (ip addr) in
      if \<not> ws \<and> ipt = ''127.0.0.1'' then
        (case text of
           Some cmd \<Rightarrow> (let (res, w) = relay_check_cmd E cmd w in (Command (Some res), w))
         | None \<Rightarrow> (Command None, w))
      else if ipt \<in> set (BLOCKLIST w) then (Blocked, w)
      else (let (r, w) = make_pair t \<lparr>conn = c, is_ws = ws, is_raw = False\<rparr> addr key msg_in w
            in (Connected r, w)))"

subsection \<open>Relaying\<close>

record relay_state =
  tm0 :: nat
  elapsed :: nat
  total :: nat
  total_s :: nat
  highest_s :: nat
  downgrade :: bool
  blacked :: bool
  last_recv_time :: nat
  to_stream :: "bytes list"
  to_peer :: "bytes list"
  charged_slow :: nat
  charged_single :: nat
  charged_total :: nat

definition relay_init :: "nat \<Rightarrow> relay_state" where
  "relay_init t = \<lparr>tm0 = t, elapsed = 0, total = 0, total_s = 0, highest_s = 0, downgrade = False,
     blacked = False, last_recv_time = t, to_stream = [], to_peer = [], charged_slow = 0,
     charged_single = 0, charged_total = 0\<rparr>"

definition downgrade_threshold :: "relay_params \<Rightarrow> nat" where
  "downgrade_threshold p = as_usize (of_nat (SINGLE_BANDWIDTH p) * DOWNGRADE_THRESHOLD p / 1000)"

text \<open>
  What \<open>select!\<close> answers: a frame of either side (\<open>None\<close>: end or error of the stream) with
  whether the send of its bytes succeeds, or the timer.
\<close>

datatype relay_event = PeerRecv "bytes option" bool | StreamRecv "bytes option" bool | Tick

datatype relay_end = Running | Closed | Failure string

definition charge :: "nat \<Rightarrow> bytes \<Rightarrow> relay_state \<Rightarrow> relay_state" where
  "charge t bs r =
     (let nb = length bs * 8; r = r\<lparr>last_recv_time := t\<rparr>;
          r = (if blacked r \<or> downgrade r then r\<lparr>charged_slow := charged_slow r + nb\<rparr>
               else r\<lparr>charged_single := charged_single r + nb\<rparr>)
      in r\<lparr>charged_total := charged_total r + nb, total := total r + nb, total_s := total_s r + nb\<rparr>)"

text \<open>The bookkeeping of each second, after any event that does not end the loop.\<close>

definition relay_check ::
  "nat \<Rightarrow> string \<Rightarrow> string \<Rightarrow> nat \<Rightarrow> relay_state \<Rightarrow> relay_world \<Rightarrow> relay_end \<times> relay_state \<times> relay_world" where
  "relay_check t ipt i threshold r w =
     (let n = t - tm0 r in
      if n < 1000 then (Running, r, w)
      else if ipt \<in> set (BLOCKLIST w) then (Closed, r, w)
      else
        let speed = total_s r div n;
            r = r\<lparr>blacked := (ipt \<in> set (BLACKLIST w)), tm0 := t, highest_s := max (highest_s r) speed,
                  elapsed := elapsed r + n\<rparr>;
            w = w\<lparr>USAGE := AList.update i (elapsed r, total r, highest_s r, speed) (USAGE w)\<rparr>;
            r = r\<lparr>total_s := 0\<rparr>
        in (Running,
            if elapsed r > DOWNGRADE_START_CHECK (params w) \<and> \<not> downgrade r \<and>
               total r > elapsed r * threshold then r\<lparr>downgrade := True\<rparr> else r, w))"

definition relay_turn ::
  "nat \<Rightarrow> string \<Rightarrow> string \<Rightarrow> nat \<Rightarrow> relay_event \<Rightarrow> relay_state \<Rightarrow> relay_world
     \<Rightarrow> relay_end \<times> relay_state \<times> relay_world" where
  "relay_turn t ipt i threshold ev r w =
     (case ev of
        PeerRecv None _ \<Rightarrow> (Closed, r, w)
      | PeerRecv (Some bs) ok \<Rightarrow>
          let r = charge t bs r in
          if bs = [] then relay_check t ipt i threshold r w
          else if ok then relay_check t ipt i threshold (r\<lparr>to_stream := to_stream r @ [bs]\<rparr>) w
          else (Failure ''send'', r, w)
      | StreamRecv None _ \<Rightarrow> (Closed, r, w)
      | StreamRecv (Some bs) ok \<Rightarrow>
          let r = charge t bs r in
          if bs = [] then relay_check t ipt i threshold r w
          else if ok then relay_check t ipt i threshold (r\<lparr>to_peer := to_peer r @ [bs]\<rparr>) w
          else (Failure ''send'', r, w)
      | Tick \<Rightarrow>
          if (t - last_recv_time r) div 1000 > 30 then (Failure ''Timeout'', r, w)
          else relay_check t ipt i threshold r w)"

text \<open>
  The loop over the events, each with its time and with what the other tasks did to the shared
  state before it.
\<close>

fun relay_loop ::
  "string \<Rightarrow> string \<Rightarrow> nat \<Rightarrow> (nat \<times> (relay_world \<Rightarrow> relay_world) \<times> relay_event) list
     \<Rightarrow> relay_state \<Rightarrow> relay_world \<Rightarrow> relay_end \<times> relay_state \<times> relay_world" where
  "relay_loop ipt i threshold [] r w = (Running, r, w)"
| "relay_loop ipt i threshold ((t, f, ev) # evs) r w =
     (case relay_turn t ipt i threshold ev r (f w) of
        (Running, r, w) \<Rightarrow> relay_loop ipt i threshold evs r w
      | res \<Rightarrow> res)"

text \<open>The relay of a pair from time \<open>t\<close> on, and the end of its task, which forgets its usage.\<close>

definition relay ::
  "nat \<Rightarrow> socket_addr \<Rightarrow> string \<Rightarrow> (nat \<times> (relay_world \<Rightarrow> relay_world) \<times> relay_event) list
     \<Rightarrow> relay_world \<Rightarrow> relay_end \<times> relay_state \<times> relay_world" where
  "relay t addr i evs w =
     relay_loop (ip_to_string (ip addr)) i (downgrade_threshold (params w)) evs (relay_init t) w"

definition finish_relay :: "string \<Rightarrow> relay_world \<Rightarrow> relay_world" where
  "finish_relay i w = w\<lparr>USAGE := AList.delete i (USAGE w)\<rparr>"

subsection \<open>What one turn does\<close>

definition frames_from :: "bool \<Rightarrow> (nat \<times> (relay_world \<Rightarrow> relay_world) \<times> relay_event) list \<Rightarrow> bytes list" where
  "frames_from peer evs = concat (map (\<lambda>(t, f, ev).
     (case ev of
        PeerRecv (Some bs) ok \<Rightarrow> if peer \<and> bs \<noteq> [] then [bs] else []
      | StreamRecv (Some bs) ok \<Rightarrow> if \<not> peer \<and> bs \<noteq> [] then [bs] else []
      | _ \<Rightarrow> [])) evs)"

lemma relay_check_frame [frame_simps]:
  assumes "relay_check t ipt i threshold r w = (res, r', w')"
  shows "to_stream r' = to_stream r" "to_peer r' = to_peer r" "total r' = total r"
    "charged_slow r' = charged_slow r" "charged_single r' = charged_single r"
    "charged_total r' = charged_total r" "downgrade r \<Longrightarrow> downgrade r'"
    "res \<noteq> Running \<Longrightarrow> r' = r"
  using assms by (auto simp: relay_check_def Let_def split: if_splits)

lemma relay_check_copies:
  "relay_check t ipt i threshold r w = (res, r', w') \<Longrightarrow> to_stream r' = to_stream r \<and> to_peer r' = to_peer r"
  by (simp add: relay_check_frame)

lemma charge_frame [frame_simps, simp]:
  "to_stream (charge t bs r) = to_stream r" "to_peer (charge t bs r) = to_peer r"
  "downgrade (charge t bs r) = downgrade r" "total (charge t bs r) = total r + 8 * length bs"
  "charged_total (charge t bs r) = charged_total r + 8 * length bs"
  "charged_slow (charge t bs r) + charged_single (charge t bs r) =
     charged_slow r + charged_single r + 8 * length bs"
  "downgrade r \<Longrightarrow> charged_single (charge t bs r) = charged_single r"
  by (simp_all add: charge_def Let_def)

text \<open>A turn either copies the frame it received, or ends the loop and copies nothing.\<close>

lemma relay_turn_copies:
  assumes "relay_turn t ipt i threshold ev r w = (res, r', w')"
  shows "to_stream r' = to_stream r @ (if res = Running \<or> to_stream r' \<noteq> to_stream r
      then frames_from True [(t, f, ev)] else [])"
    and "to_peer r' = to_peer r @ (if res = Running \<or> to_peer r' \<noteq> to_peer r
      then frames_from False [(t, f, ev)] else [])"
  using assms
  by (auto simp: relay_turn_def frames_from_def Let_def dest!: relay_check_copies
      split: relay_event.splits option.splits if_splits)

text \<open>The accounts agree: what was charged is what was copied.\<close>

definition accounts_ok :: "relay_state \<Rightarrow> bool" where
  "accounts_ok r \<longleftrightarrow> total r = 8 * (sum_list (map length (to_stream r)) + sum_list (map length (to_peer r))) \<and>
     charged_total r = total r \<and> charged_slow r + charged_single r = total r"

lemma relay_check_accounts:
  "accounts_ok r \<Longrightarrow> relay_check t ipt i threshold r w = (res, r', w') \<Longrightarrow> accounts_ok r'"
  using relay_check_frame [of t ipt i threshold r w res r' w'] by (simp add: accounts_ok_def)

lemma charge_accounts:
  "accounts_ok r \<Longrightarrow> bs = [] \<Longrightarrow> accounts_ok (charge t bs r)"
  "accounts_ok r \<Longrightarrow> accounts_ok ((charge t bs r)\<lparr>to_stream := to_stream r @ [bs]\<rparr>)"
  "accounts_ok r \<Longrightarrow> accounts_ok ((charge t bs r)\<lparr>to_peer := to_peer r @ [bs]\<rparr>)"
  using charge_frame [where t = t and bs = bs and r = r] by (simp_all add: accounts_ok_def del: charge_frame)

lemma relay_turn_accounts:
  assumes "relay_turn t ipt i threshold ev r w = (Running, r', w')" "accounts_ok r"
  shows "accounts_ok r'"
  using assms
  by (auto simp: relay_turn_def Let_def elim!: relay_check_accounts [rotated] intro: charge_accounts
      split: relay_event.splits option.splits if_splits)

lemma relay_turn_downgraded:
  assumes "relay_turn t ipt i threshold ev r w = (res, r', w')" "downgrade r"
  shows "downgrade r' \<and> charged_single r' = charged_single r"
  using assms
  by (auto simp: relay_turn_def Let_def dest: relay_check_frame(5,7)
      split: relay_event.splits option.splits if_splits)

lemma frames_from_Cons:
  "frames_from b (e # evs) = frames_from b [e] @ frames_from b evs"
  by (simp add: frames_from_def)

lemma relay_loop_forwards:
  "relay_loop ipt i threshold evs r w = (res, r', w') \<Longrightarrow>
     prefix (to_stream r') (to_stream r @ frames_from True evs) \<and>
     prefix (to_peer r') (to_peer r @ frames_from False evs) \<and>
     (res = Running \<longrightarrow> to_stream r' = to_stream r @ frames_from True evs \<and>
        to_peer r' = to_peer r @ frames_from False evs)"
proof (induction ipt i threshold evs r w arbitrary: res r' w' rule: relay_loop.induct)
  case (1 ipt i threshold r w)
  then show ?case by (simp add: frames_from_def)
next
  case (2 ipt i threshold t f ev evs r w)
  obtain e1 r1 w1 where t: "relay_turn t ipt i threshold ev r (f w) = (e1, r1, w1)"
    by (cases "relay_turn t ipt i threshold ev r (f w)")
  note c = relay_turn_copies [OF t, of f]
  have p: "prefix (to_stream r1) (to_stream r @ frames_from True ((t, f, ev) # evs))"
    "prefix (to_peer r1) (to_peer r @ frames_from False ((t, f, ev) # evs))"
    unfolding frames_from_Cons [of _ "(t, f, ev)" evs]
    by (subst c(1), simp) (subst c(2), simp)
  show ?case
  proof (cases e1)
    case Running
    then have "relay_loop ipt i threshold evs r1 w1 = (res, r', w')" using "2.prems" t by simp
    from "2.IH" [OF t [symmetric, unfolded Running] refl refl this] Running c show ?thesis
      by (simp add: frames_from_Cons [of _ "(t, f, ev)" evs])
  qed (use "2.prems" t p in auto)
qed

lemma relay_loop_accounts:
  "relay_loop ipt i threshold evs r w = (Running, r', w') \<Longrightarrow> accounts_ok r \<Longrightarrow> accounts_ok r'"
proof (induction ipt i threshold evs r w arbitrary: r' w' rule: relay_loop.induct)
  case (2 ipt i threshold t f ev evs r w)
  obtain e1 r1 w1 where t: "relay_turn t ipt i threshold ev r (f w) = (e1, r1, w1)"
    by (cases "relay_turn t ipt i threshold ev r (f w)")
  with "2.prems" have e: "e1 = Running" by (auto split: relay_end.splits)
  from relay_turn_accounts [OF t [unfolded e] "2.prems"(2)] "2.IH" [OF t [symmetric, unfolded e] refl refl]
    "2.prems"(1) t e
  show ?case by simp
qed simp

text \<open>
  C19: A relay copies, in each direction, a prefix of the non-empty frames it received, in order
  and unchanged; while it runs it has copied them all.
\<close>

theorem relay_forwards:
  "case relay t addr i evs w of (res, r, w') \<Rightarrow>
     prefix (to_stream r) (frames_from True evs) \<and> prefix (to_peer r) (frames_from False evs) \<and>
     (res \<noteq> Running \<or> to_stream r = frames_from True evs \<and> to_peer r = frames_from False evs)"
proof -
  obtain res r w' where l: "relay t addr i evs w = (res, r, w')" by (metis prod.collapse)
  from relay_loop_forwards [OF l [unfolded relay_def]] show ?thesis
    by (auto simp: l relay_init_def)
qed

theorem relay_forwards_witness:
  "to_stream (fst (snd (relay 0 any_addr ''a'' [(5, id, PeerRecv (Some [1, 2]) True), (6, id, Tick)]
     \<lparr>PEERS = Map.empty, USAGE = [], BLACKLIST = [], BLOCKLIST = [], params = default_params,
      speed_limit = 0, sleepers = []\<rparr>))) = [[1, 2]]"
proof -
  let ?w = "\<lparr>PEERS = Map.empty, USAGE = [], BLACKLIST = [], BLOCKLIST = [], params = default_params,
      speed_limit = 0, sleepers = []\<rparr> :: relay_world"
  let ?evs = "[(5, id, PeerRecv (Some [1, 2]) True), (6, id, Tick)]"
  have "fst (relay 0 any_addr ''a'' ?evs ?w) = Running"
    by (simp add: relay_def relay_turn_def relay_check_def charge_def relay_init_def Let_def)
  with relay_forwards [where t = 0 and addr = any_addr and i = "''a''" and evs = ?evs and w = ?w] show ?thesis
    by (auto simp: frames_from_def split: prod.splits)
qed


definition empty_relay :: relay_world where
  "empty_relay = \<lparr>PEERS = Map.empty, USAGE = [], BLACKLIST = [], BLOCKLIST = [], params = default_params,
     speed_limit = 0, sleepers = []\<rparr>"


text \<open>
  Once a relay is downgraded it stays so, and every further bit is charged to the slow
  limiter, never again to the connection's own.
\<close>

theorem downgrade_is_final:
  "downgrade r \<Longrightarrow> case relay_loop ipt i threshold evs r w of (res, r', w') \<Rightarrow>
     downgrade r' \<and> charged_single r' = charged_single r"
proof (induction ipt i threshold evs r w rule: relay_loop.induct)
  case (2 ipt i threshold t f ev evs r w)
  obtain e1 r1 w1 where t: "relay_turn t ipt i threshold ev r (f w) = (e1, r1, w1)"
    by (cases "relay_turn t ipt i threshold ev r (f w)")
  from relay_turn_downgraded [OF t "2.prems"] "2.IH" [OF t [symmetric] _ refl] show ?case
    using t by (cases e1) auto
qed simp

theorem downgrade_is_final_witness:
  "case relay_loop ''9.9.9.9'' ''a'' 0 [(5, id, PeerRecv (Some [1, 2]) True)] ((relay_init 0)\<lparr>downgrade := True\<rparr>) empty_relay
     of (res, r', w') \<Rightarrow> charged_single r' = 0"
  using downgrade_is_final [where r = "(relay_init 0)\<lparr>downgrade := True\<rparr>" and ipt = "''9.9.9.9''"
      and i = "''a''" and threshold = 0 and evs = "[(5, id, PeerRecv (Some [1, 2]) True)]" and w = empty_relay]
  by (auto simp: relay_init_def split: prod.splits)

definition valid_relay_request :: "string \<Rightarrow> request_relay \<Rightarrow> bool" where
  "valid_relay_request key rf \<longleftrightarrow> (key = [] \<or> rf_licence_key rf = key) \<and> rf_uuid rf \<noteq> []"

lemma make_pair_valid:
  assumes "valid_relay_request key rf"
  shows "PEERS w (rf_uuid rf) = None \<Longrightarrow> make_pair t s addr key (Some (RequestRelay rf)) w =
      (Parked, w\<lparr>PEERS := (PEERS w)(rf_uuid rf \<mapsto> s), sleepers := sleepers w @ [(t + 30000, rf_uuid rf)]\<rparr>)"
    and "PEERS w (rf_uuid rf) = Some p \<Longrightarrow>
      \<exists>i us. make_pair t s addr key (Some (RequestRelay rf)) w =
        (Relaying (if is_ws p then s else if is_ws s then s else s\<lparr>is_raw := True\<rparr>)
           (if is_ws s then p else if is_ws p then p else p\<lparr>is_raw := True\<rparr>) i,
         w\<lparr>PEERS := (PEERS w)(rf_uuid rf := None), USAGE := us\<rparr>)"
  using assms by (auto simp: make_pair_def valid_relay_request_def stream_set_raw_def Let_def)

text \<open>
  A connection ends without touching the shared state unless its first frame is a relay
  request with the server's key (when there is one) and a uuid; such a request is paired if a stream
  waits under the uuid, and waits otherwise.
\<close>

theorem make_pair_outcome:
  "fst (make_pair t s addr key msg w) =
     (case msg of
        Some (RequestRelay rf) \<Rightarrow>
          if \<not> valid_relay_request key rf then Dropped
          else (case PEERS w (rf_uuid rf) of
             None \<Rightarrow> Parked
           | Some p \<Rightarrow> Relaying (if is_ws s \<or> is_ws p then s else stream_set_raw s)
                 (if is_ws s \<or> is_ws p then p else stream_set_raw p)
                 (ip_to_string (ip addr) @ '':'' @ show_nat (unat (port addr))))
      | _ \<Rightarrow> Dropped) \<and>
   (fst (make_pair t s addr key msg w) \<noteq> Dropped \<or> snd (make_pair t s addr key msg w) = w)"
  by (cases msg; cases "the msg")
     (auto simp: make_pair_def valid_relay_request_def Let_def split: option.splits)

theorem make_pair_outcome_witness:
  "snd (make_pair 0 \<lparr>conn = 1, is_ws = False, is_raw = False\<rparr> any_addr ''k''
     (Some (RequestRelay (default_request_relay\<lparr>rf_uuid := ''u''\<rparr>))) empty_relay) = empty_relay"
proof -
  let ?m = "Some (RequestRelay (default_request_relay\<lparr>rf_uuid := ''u''\<rparr>))"
  have "fst (make_pair 0 \<lparr>conn = 1, is_ws = False, is_raw = False\<rparr> any_addr ''k'' ?m empty_relay) = Dropped"
    by (simp add: make_pair_def default_request_relay_def)
  with make_pair_outcome [where t = 0 and s = "\<lparr>conn = 1, is_ws = False, is_raw = False\<rparr>" and addr = any_addr
      and key = "''k''" and msg = ?m and w = empty_relay]
  show ?thesis by simp
qed

lemma wake_keeps: "sleepers w = [(d, u)] \<Longrightarrow> t < d \<Longrightarrow> wake t w = w"
  by (simp add: wake_def)

text \<open>
  Two valid requests with the same uuid, the second within 30 seconds of the first, are
  joined, and both streams switch to raw frames when neither is a WebSocket.
\<close>

theorem second_request_joins:
  assumes "valid_relay_request key rf" "valid_relay_request key rf'" "rf_uuid rf' = rf_uuid rf"
    "PEERS w (rf_uuid rf) = None" "sleepers w = []" "t' < t + 30000"
    "\<not> is_ws s" "\<not> is_ws s'"
    "make_pair t s addr key (Some (RequestRelay rf)) w = (p1, w1)"
    "make_pair t' s' addr' key (Some (RequestRelay rf')) (wake t' w1) = (p2, w2)"
  shows "p1 = Parked \<and> (\<exists>i. p2 = Relaying (s'\<lparr>is_raw := True\<rparr>) (s\<lparr>is_raw := True\<rparr>) i) \<and>
    PEERS w2 (rf_uuid rf) = None"
proof -
  have w1: "p1 = Parked" "PEERS w1 (rf_uuid rf) = Some s" "sleepers w1 = [(t + 30000, rf_uuid rf)]"
    using make_pair_valid(1) [OF assms(1,4), of t s addr] assms(5,9) by auto
  have "wake t' w1 = w1" using w1(3) assms(6) by (rule wake_keeps)
  with make_pair_valid(2) [OF assms(2), of w1 s t' s' addr'] w1 assms(3,7,8,10) show ?thesis
    by auto
qed

definition sample_relay_request :: request_relay where
  "sample_relay_request = default_request_relay\<lparr>rf_uuid := ''u''\<rparr>"

definition tcp_stream :: "nat \<Rightarrow> relay_stream" where
  "tcp_stream c = \<lparr>conn = c, is_ws = False, is_raw = False\<rparr>"

lemma sample_relay_simps:
  "valid_relay_request [] sample_relay_request" "rf_uuid sample_relay_request = ''u''"
  "PEERS empty_relay u = None" "sleepers empty_relay = []" "\<not> is_ws (tcp_stream c)"
  by (simp_all add: valid_relay_request_def sample_relay_request_def empty_relay_def tcp_stream_def)

theorem second_request_joins_witness:
  "\<exists>i. fst (make_pair 29999 (tcp_stream 2) any_addr [] (Some (RequestRelay sample_relay_request))
      (wake 29999 (snd (make_pair 0 (tcp_stream 1) any_addr [] (Some (RequestRelay sample_relay_request)) empty_relay)))) =
    Relaying ((tcp_stream 2)\<lparr>is_raw := True\<rparr>) ((tcp_stream 1)\<lparr>is_raw := True\<rparr>) i"
proof -
  have t: "(29999 :: nat) < 0 + 30000" by simp
  note s = sample_relay_simps
  from second_request_joins [OF s(1) s(1) refl s(3) s(4) t s(5) s(5) prod.collapse [symmetric] prod.collapse [symmetric]]
  show ?thesis by blast
qed

text \<open>
  The clean-up of a stream that was paired long ago removes a newer one: after a pair is made
  and a third stream waits under the same uuid, the first one's timer drops it before its own 30
  seconds are over, and its partner, in time, finds nobody.
\<close>

theorem cleanup_drops_newer_stream:
  assumes "valid_relay_request key rf" "PEERS w (rf_uuid rf) = None" "sleepers w = []"
    "t1 < t0 + 30000" "t2 < t0 + 30000" "t0 + 30000 \<le> t3" "t3 < t2 + 30000"
    "make_pair t0 s1 a1 key (Some (RequestRelay rf)) w = (p1, w1)"
    "make_pair t1 s2 a2 key (Some (RequestRelay rf)) (wake t1 w1) = (p2, w2)"
    "make_pair t2 s3 a3 key (Some (RequestRelay rf)) (wake t2 w2) = (p3, w3)"
    "make_pair t3 s4 a4 key (Some (RequestRelay rf)) (wake t3 w3) = (p4, w4)"
  shows "p2 \<noteq> Parked \<and> p3 = Parked \<and> p4 = Parked"
proof -
  let ?u = "rf_uuid rf"
  note v = make_pair_valid [OF assms(1)]
  have w1: "PEERS w1 ?u = Some s1" "sleepers w1 = [(t0 + 30000, ?u)]"
    using v(1) [of w t0 s1 a1] assms(2,3,8) by auto
  have "wake t1 w1 = w1" using w1(2) assms(4) by (rule wake_keeps)
  with v(2) [of w1 s1 t1 s2 a2] w1 assms(9)
  have w2: "p2 \<noteq> Parked" "PEERS w2 ?u = None" "sleepers w2 = [(t0 + 30000, ?u)]" by auto
  have "wake t2 w2 = w2" using w2(3) assms(5) by (rule wake_keeps)
  with v(1) [of w2 t2 s3 a3] w2 assms(10)
  have w3: "p3 = Parked" "sleepers w3 = [(t0 + 30000, ?u), (t2 + 30000, ?u)]" by auto
  have "PEERS (wake t3 w3) ?u = None" using w3(2) assms(6,7) by (simp add: wake_def)
  with v(1) [of "wake t3 w3" t3 s4 a4] assms(11) w2(1) w3(1) show ?thesis by simp
qed

theorem cleanup_drops_newer_stream_witness:
  "let w1 = snd (make_pair 0 (tcp_stream 1) any_addr [] (Some (RequestRelay sample_relay_request)) empty_relay);
       w2 = snd (make_pair 10000 (tcp_stream 2) any_addr [] (Some (RequestRelay sample_relay_request)) (wake 10000 w1));
       w3 = snd (make_pair 20000 (tcp_stream 3) any_addr [] (Some (RequestRelay sample_relay_request)) (wake 20000 w2))
   in fst (make_pair 31000 (tcp_stream 4) any_addr [] (Some (RequestRelay sample_relay_request)) (wake 31000 w3)) = Parked"
proof -
  have t: "(10000 :: nat) < 0 + 30000" "(20000 :: nat) < 0 + 30000" "(0 :: nat) + 30000 \<le> 31000"
    "(31000 :: nat) < 20000 + 30000" by simp_all
  note s = sample_relay_simps
  from cleanup_drops_newer_stream [OF s(1) s(3,4) t prod.collapse [symmetric] prod.collapse [symmetric]
      prod.collapse [symmetric] prod.collapse [symmetric]]
  show ?thesis unfolding Let_def by blast
qed

end
