(* ===== verification/Service.thy ===== *)
theory Service
  imports Prelude "HOL-Library.AList"
begin

text \<open>
  Services and their subscribers, \<open>KdDeskTC_Client/src/server/service.rs\<close>, and the \<open>Server\<close> of
  \<open>src/server.rs\<close> that holds them. A \<open>HashMap\<close> keyed by connection id is an association list with
  distinct keys. The type of subscribers is a parameter (the trait \<open>Subscriber\<close>): \<open>send\<close>, where it
  is an argument, is its method.

  The locale \<open>subscription\<close> is what the server relies on of a service; its lemmas are about a
  server's whole collection of services.
\<close>

record 't service =
  name :: string
  subscribes :: "(int \<times> 't) list"
  new_subscribes :: "(int \<times> 't) list"
  active :: bool
  need_snapshot :: bool

definition HIBERNATE_TIMEOUT :: nat where "HIBERNATE_TIMEOUT = 30"

definition MAX_ERROR_TIMEOUT :: nat where "MAX_ERROR_TIMEOUT = 1000"

definition new_service :: "string \<Rightarrow> bool \<Rightarrow> 't service" where
  "new_service n snap = \<lparr>name = n, subscribes = [], new_subscribes = [], active = True, need_snapshot = snap\<rparr>"

subsection \<open>Operations\<close>

definition send_new_subscribes :: "('m \<Rightarrow> 't \<Rightarrow> 't) \<Rightarrow> 'm \<Rightarrow> 't service \<Rightarrow> 't service" where
  "send_new_subscribes send msg s = s\<lparr>new_subscribes := map (\<lambda>(i, t). (i, send msg t)) (new_subscribes s)\<rparr>"

definition swap_new_subscribes :: "'t service \<Rightarrow> 't service" where
  "swap_new_subscribes s =
     s\<lparr>subscribes := fold (\<lambda>(i, t). AList.update i t) (new_subscribes s) (subscribes s), new_subscribes := []\<rparr>"

definition has_subscribes :: "'t service \<Rightarrow> bool" where
  "has_subscribes s \<longleftrightarrow> subscribes s \<noteq> [] \<or> new_subscribes s \<noteq> []"

definition is_subed :: "int \<Rightarrow> 't service \<Rightarrow> bool" where
  "is_subed i s \<longleftrightarrow> i \<in> fst ` set (subscribes s)"

definition on_subscribe :: "int \<Rightarrow> 't \<Rightarrow> 't service \<Rightarrow> 't service" where
  "on_subscribe i t s =
     (if i \<in> fst ` set (subscribes s) then s
      else if need_snapshot s then s\<lparr>new_subscribes := AList.update i t (new_subscribes s)\<rparr>
      else s\<lparr>subscribes := AList.update i t (subscribes s)\<rparr>)"

definition on_unsubscribe :: "int \<Rightarrow> 't service \<Rightarrow> 't service" where
  "on_unsubscribe i s =
     (if i \<in> fst ` set (subscribes s) then s\<lparr>subscribes := AList.delete i (subscribes s)\<rparr>
      else s\<lparr>new_subscribes := AList.delete i (new_subscribes s)\<rparr>)"

definition join :: "'t service \<Rightarrow> 't service" where
  "join s = s\<lparr>active := False\<rparr>"

definition ok :: "'t service \<Rightarrow> bool" where
  "ok s \<longleftrightarrow> active s \<and> has_subscribes s"

text \<open>
  The callback gets the swap view of the service, whose \<open>send\<close> is \<open>send_new_subscribes\<close>; the view
  is dropped when the callback returns, with or without an error.
\<close>

definition snapshot :: "('t service \<Rightarrow> unit outcome \<times> 't service) \<Rightarrow> 't service \<Rightarrow> unit outcome \<times> 't service" where
  "snapshot callback s =
     (if new_subscribes s \<noteq> [] then (case callback s of (r, s) \<Rightarrow> (r, swap_new_subscribes s)) else (Done (), s))"

definition send_shared :: "('m \<Rightarrow> 't \<Rightarrow> 't) \<Rightarrow> 'm \<Rightarrow> 't service \<Rightarrow> 't service" where
  "send_shared send msg s = s\<lparr>subscribes := map (\<lambda>(i, t). (i, send msg t)) (subscribes s)\<rparr>"

definition send_to :: "('m \<Rightarrow> 't \<Rightarrow> 't) \<Rightarrow> 'm \<Rightarrow> int \<Rightarrow> 't service \<Rightarrow> 't service" where
  "send_to send msg j s = s\<lparr>subscribes := map (\<lambda>(i, t). (i, if i = j then send msg t else t)) (subscribes s)\<rparr>"

definition send_without :: "('m \<Rightarrow> 't \<Rightarrow> 't) \<Rightarrow> 'm \<Rightarrow> int \<Rightarrow> 't service \<Rightarrow> 't service" where
  "send_without send msg j s =
     s\<lparr>subscribes := map (\<lambda>(i, t). (i, if i \<noteq> j then send msg t else t)) (subscribes s)\<rparr>"

definition send_video_frame :: "('m \<Rightarrow> 't \<Rightarrow> 't) \<Rightarrow> 'm \<Rightarrow> 't service \<Rightarrow> int set \<times> 't service" where
  "send_video_frame send msg s = (fst ` set (subscribes s), send_shared send msg s)"

subsection \<open>The threads\<close>

text \<open>
  One turn of the loop of \<open>repeat\<close>, while the service is active: the callback's state, whether it
  may be reset, and how long the thread sleeps (\<open>took\<close> is the time of the turn, the sleep after
  an error included).
\<close>

definition repeat_turn ::
  "('t service \<Rightarrow> 's \<Rightarrow> unit outcome \<times> 's \<times> 't service) \<Rightarrow> ('s \<Rightarrow> 's) \<Rightarrow> nat \<Rightarrow> nat
     \<Rightarrow> bool \<times> 's \<times> 't service \<Rightarrow> (bool \<times> 's \<times> 't service) \<times> nat" where
  "repeat_turn callback reset interval took st =
     (case st of (may_reset, x, s) \<Rightarrow>
        let sleep = (if took < interval then interval - took else 0) in
        if has_subscribes s then
          (case callback s x of
             (Failed _, x, s) \<Rightarrow>
               ((True, x, s), MAX_ERROR_TIMEOUT +
                  (if took + MAX_ERROR_TIMEOUT < interval then interval - (took + MAX_ERROR_TIMEOUT) else 0))
           | (_, x, s) \<Rightarrow> ((True, x, s), sleep))
        else if may_reset then ((False, reset x, s), sleep)
        else ((may_reset, x, s), sleep))"

text \<open>The back-off of \<open>run\<close>: \<open>took\<close> is how long the failed callback ran, in milliseconds.\<close>

definition next_error_timeout :: "nat \<Rightarrow> nat \<Rightarrow> nat" where
  "next_error_timeout took e =
     (let e = (if took > MAX_ERROR_TIMEOUT then HIBERNATE_TIMEOUT else e * 2)
      in if e > MAX_ERROR_TIMEOUT then MAX_ERROR_TIMEOUT else e)"

definition run_turn ::
  "('t service \<Rightarrow> unit outcome \<times> 't service) \<Rightarrow> nat \<Rightarrow> nat \<times> 't service \<Rightarrow> (nat \<times> 't service) \<times> nat" where
  "run_turn callback took st =
     (case st of (e, s) \<Rightarrow>
        if has_subscribes s then
          (case callback s of
             (Failed _, s) \<Rightarrow>
               let e = next_error_timeout took e in ((e, s), e + HIBERNATE_TIMEOUT)
           | (_, s) \<Rightarrow> ((e, s), HIBERNATE_TIMEOUT))
        else ((e, s), HIBERNATE_TIMEOUT))"

subsection \<open>The server\<close>

text \<open>\<open>'c\<close> is a connection's inner handle; \<open>into\<close> makes the subscriber that service \<open>n\<close> keeps of it.\<close>

record ('c, 't) server =
  connections :: "(int \<times> 'c) list"
  services :: "'t service list"
  id_count :: int

definition add_service :: "'t service \<Rightarrow> ('c, 't) server \<Rightarrow> ('c, 't) server" where
  "add_service s sv = sv\<lparr>services := filter (\<lambda>x. name x \<noteq> name s) (services sv) @ [s]\<rparr>"

definition add_connection ::
  "(string \<Rightarrow> 'c \<Rightarrow> 't) \<Rightarrow> int \<Rightarrow> 'c \<Rightarrow> string list \<Rightarrow> ('c, 't) server \<Rightarrow> ('c, 't) server" where
  "add_connection into i c noperms sv =
     sv\<lparr>services := map (\<lambda>s. if name s \<notin> set noperms then on_subscribe i (into (name s) c) s else s) (services sv),
        connections := AList.update i c (connections sv)\<rparr>"

definition remove_connection :: "int \<Rightarrow> ('c, 't) server \<Rightarrow> ('c, 't) server" where
  "remove_connection i sv =
     sv\<lparr>services := map (on_unsubscribe i) (services sv), connections := AList.delete i (connections sv)\<rparr>"

definition subscribe ::
  "(string \<Rightarrow> 'c \<Rightarrow> 't) \<Rightarrow> string \<Rightarrow> int \<Rightarrow> 'c \<Rightarrow> bool \<Rightarrow> ('c, 't) server \<Rightarrow> ('c, 't) server" where
  "subscribe into n i c sub sv =
     sv\<lparr>services := map (\<lambda>s. if name s \<noteq> n then s
          else if is_subed i s = sub then s
          else if sub then on_subscribe i (into n c) s
          else on_unsubscribe i s) (services sv)\<rparr>"

definition next_id :: "('c, 't) server \<Rightarrow> int \<times> ('c, 't) server" where
  "next_id sv = (let i = wrap_i32 (id_count sv + 1) in (i, sv\<lparr>id_count := i\<rparr>))"

definition drop_server :: "('c, 't) server \<Rightarrow> ('c, 't) server" where
  "drop_server sv = sv\<lparr>services := map join (services sv)\<rparr>"

text \<open>\<open>check_zombie\<close>: one pass over the child processes; \<open>exited\<close> is \<open>try_wait\<close>.\<close>

function reap :: "('p \<Rightarrow> bool) \<Rightarrow> nat \<Rightarrow> 'p list \<Rightarrow> 'p list" where
  "reap exited i lock =
     (if i \<ge> length lock then lock
      else if exited (lock ! i) then reap exited i (take i lock @ drop (Suc i) lock)
      else reap exited (Suc i) lock)"
  by pat_completeness auto
termination by (relation "measure (\<lambda>(_, i, lock). length lock - i)") auto

declare reap.simps [simp del]

subsection \<open>The interface\<close>

definition subs_ok :: "'t service \<Rightarrow> bool" where
  "subs_ok s \<longleftrightarrow> distinct (map fst (subscribes s)) \<and> distinct (map fst (new_subscribes s)) \<and>
     fst ` set (subscribes s) \<inter> fst ` set (new_subscribes s) = {} \<and>
     (need_snapshot s \<or> new_subscribes s = [])"

text \<open>A connection that gets the service's messages, now or from the next snapshot on.\<close>

definition member :: "int \<Rightarrow> 't service \<Rightarrow> bool" where
  "member i s \<longleftrightarrow> i \<in> fst ` set (subscribes s) \<or> i \<in> fst ` set (new_subscribes s)"

locale subscription =
  fixes inv :: "'s \<Rightarrow> bool"
    and sub :: "int \<Rightarrow> 't \<Rightarrow> 's \<Rightarrow> 's"
    and unsub :: "int \<Rightarrow> 's \<Rightarrow> 's"
    and gets :: "int \<Rightarrow> 's \<Rightarrow> bool"
  assumes sub_inv: "inv s \<Longrightarrow> inv (sub i t s)"
    and unsub_inv: "inv s \<Longrightarrow> inv (unsub i s)"
    and sub_gets: "inv s \<Longrightarrow> gets j (sub i t s) \<longleftrightarrow> j = i \<or> gets j s"
    and unsub_gets: "inv s \<Longrightarrow> gets j (unsub i s) \<longleftrightarrow> j \<noteq> i \<and> gets j s"
begin

lemma unsub_all:
  "\<forall>s \<in> set ss. inv s \<Longrightarrow> \<forall>s \<in> set (map (unsub i) ss). inv s \<and> \<not> gets i s"
  by (auto simp: unsub_inv unsub_gets)

lemma unsub_others:
  "\<forall>s \<in> set ss. inv s \<Longrightarrow> j \<noteq> i \<Longrightarrow> map (gets j) (map (unsub i) ss) = map (gets j) ss"
  by (auto simp: unsub_gets)

lemma sub_some:
  "\<forall>s \<in> set ss. inv s \<Longrightarrow>
     (\<forall>s \<in> set (map (\<lambda>s. if P s then sub i (f s) s else s) ss). inv s) \<and>
     map (gets j) (map (\<lambda>s. if P s then sub i (f s) s else s) ss) =
       map (\<lambda>s. gets j s \<or> j = i \<and> P s) ss"
  by (auto simp: sub_inv sub_gets)

end

lemma fst_update: "fst ` set (AList.update i t xs) = insert i (fst ` set xs)"
  using dom_update [of i t xs] by (simp add: dom_map_of_conv_image_fst)

lemma fst_delete: "fst ` set (AList.delete i xs) = fst ` set xs - {i}"
  by (auto simp: delete_keys image_iff AList.delete_eq)

interpretation subs: subscription subs_ok on_subscribe on_unsubscribe member
proof unfold_locales
  fix s :: "'t service" and i j :: int and t :: 't
  assume s: "subs_ok s"
  show "subs_ok (on_subscribe i t s)"
    using s by (auto simp: subs_ok_def on_subscribe_def fst_update distinct_update)
  show "subs_ok (on_unsubscribe i s)"
    using s by (auto simp: subs_ok_def on_unsubscribe_def fst_delete distinct_delete)
  show "member j (on_subscribe i t s) \<longleftrightarrow> j = i \<or> member j s"
    by (auto simp: member_def on_subscribe_def fst_update)
  show "member j (on_unsubscribe i s) \<longleftrightarrow> j \<noteq> i \<and> member j s"
    using s by (auto simp: member_def on_unsubscribe_def fst_delete subs_ok_def)
qed

subsection \<open>Histories of a service\<close>

datatype ('m, 't) service_op =
    Subscribe int 't
  | Unsubscribe int
  | Send 'm
  | SendTo 'm int
  | SendWithout 'm int
  | Snapshot "'m list"

text \<open>A snapshot whose callback sends some messages to the new subscribers.\<close>

definition send_snapshot :: "('m \<Rightarrow> 't \<Rightarrow> 't) \<Rightarrow> 'm list \<Rightarrow> 't service \<Rightarrow> 't service" where
  "send_snapshot send ms s = snd (snapshot (\<lambda>s. (Done (), fold (send_new_subscribes send) ms s)) s)"

fun apply_op :: "('m \<Rightarrow> 't \<Rightarrow> 't) \<Rightarrow> ('m, 't) service_op \<Rightarrow> 't service \<Rightarrow> 't service" where
  "apply_op send (Subscribe i t) s = on_subscribe i t s"
| "apply_op send (Unsubscribe i) s = on_unsubscribe i s"
| "apply_op send (Send m) s = send_shared send m s"
| "apply_op send (SendTo m i) s = send_to send m i s"
| "apply_op send (SendWithout m i) s = send_without send m i s"
| "apply_op send (Snapshot ms) s = send_snapshot send ms s"

lemma map_fst_sends [simp]:
  "map fst (subscribes (send_shared send m s)) = map fst (subscribes s)"
  "map fst (subscribes (send_to send m i s)) = map fst (subscribes s)"
  "map fst (subscribes (send_without send m i s)) = map fst (subscribes s)"
  "map fst (new_subscribes (send_new_subscribes send m s)) = map fst (new_subscribes s)"
  by (simp_all add: send_shared_def send_to_def send_without_def send_new_subscribes_def split_def)

lemma fst_set_sends:
  "fst ` set (subscribes (send_shared send m s)) = fst ` set (subscribes s)"
  "fst ` set (subscribes (send_to send m i s)) = fst ` set (subscribes s)"
  "fst ` set (subscribes (send_without send m i s)) = fst ` set (subscribes s)"
  by (simp_all only: map_fst_sends flip: list.set_map)

lemma sends_frame [frame_simps, simp]:
  "new_subscribes (send_shared send m s) = new_subscribes s" "need_snapshot (send_shared send m s) = need_snapshot s"
  "new_subscribes (send_to send m i s) = new_subscribes s" "need_snapshot (send_to send m i s) = need_snapshot s"
  "new_subscribes (send_without send m i s) = new_subscribes s"
  "need_snapshot (send_without send m i s) = need_snapshot s"
  "subscribes (send_new_subscribes send m s) = subscribes s"
  "need_snapshot (send_new_subscribes send m s) = need_snapshot s"
  by (simp_all add: send_shared_def send_to_def send_without_def send_new_subscribes_def)

lemma subs_ok_keys:
  "map fst (subscribes s') = map fst (subscribes s) \<Longrightarrow> map fst (new_subscribes s') = map fst (new_subscribes s) \<Longrightarrow>
     need_snapshot s' = need_snapshot s \<Longrightarrow> subs_ok s' \<longleftrightarrow> subs_ok s"
  unfolding subs_ok_def by (metis list.set_map map_is_Nil_conv)

lemma fold_update_keys:
  "fst ` set (fold (\<lambda>(i, t). AList.update i t) xs ys) = fst ` set xs \<union> fst ` set ys"
proof (induction xs arbitrary: ys)
  case (Cons x xs)
  then show ?case by (cases x) (simp add: fst_update)
qed simp

lemma fold_update_distinct:
  "distinct (map fst ys) \<Longrightarrow> distinct (map fst (fold (\<lambda>(i, t). AList.update i t) xs ys))"
  by (induction xs arbitrary: ys) (auto simp: distinct_update)

lemma subs_ok_swap: "subs_ok s \<Longrightarrow> subs_ok (swap_new_subscribes s)"
  by (simp add: subs_ok_def swap_new_subscribes_def fold_update_distinct)

lemma fold_send_new:
  "map fst (new_subscribes (fold (send_new_subscribes send) ms s)) = map fst (new_subscribes s) \<and>
   subscribes (fold (send_new_subscribes send) ms s) = subscribes s \<and>
   need_snapshot (fold (send_new_subscribes send) ms s) = need_snapshot s"
  by (induction ms arbitrary: s) simp_all

lemma subs_ok_apply: "subs_ok s \<Longrightarrow> subs_ok (apply_op send op s)"
proof (cases op)
  case (Snapshot ms)
  moreover assume "subs_ok s"
  moreover have "subs_ok (fold (send_new_subscribes send) ms s) = subs_ok s"
    by (rule subs_ok_keys) (simp_all add: fold_send_new)
  ultimately show ?thesis by (simp add: send_snapshot_def snapshot_def subs_ok_swap)
next
  case (Send m)
  moreover assume "subs_ok s"
  moreover have "subs_ok (send_shared send m s) = subs_ok s" by (rule subs_ok_keys) simp_all
  ultimately show ?thesis by simp
next
  case (SendTo m i)
  moreover assume "subs_ok s"
  moreover have "subs_ok (send_to send m i s) = subs_ok s" by (rule subs_ok_keys) simp_all
  ultimately show ?thesis by simp
next
  case (SendWithout m i)
  moreover assume "subs_ok s"
  moreover have "subs_ok (send_without send m i s) = subs_ok s" by (rule subs_ok_keys) simp_all
  ultimately show ?thesis by simp
qed (auto simp: subs.sub_inv subs.unsub_inv)

subsection \<open>Properties\<close>

text \<open>
  In every history of a service a connection is in at most one of the two tables and at most
  once, and a service without snapshots never keeps a connection waiting.
\<close>

theorem service_history_ok: "subs_ok (fold (apply_op send) ops (new_service n snap))"
proof -
  have run: "subs_ok s \<Longrightarrow> subs_ok (fold (apply_op send) ops s)" for s
    by (induction ops arbitrary: s) (simp_all add: subs_ok_apply)
  show ?thesis by (rule run) (simp add: subs_ok_def new_service_def)
qed

definition waits :: "int \<Rightarrow> 't \<Rightarrow> 't service \<Rightarrow> bool" where
  "waits i t s \<longleftrightarrow> i \<notin> fst ` set (subscribes s) \<and> map_of (new_subscribes s) i = Some t \<and> need_snapshot s"

lemma waits_subscribe:
  "need_snapshot s \<Longrightarrow> \<not> member i s \<Longrightarrow> waits i t (on_subscribe i t s)"
  by (simp add: waits_def on_subscribe_def member_def AList.update_conv')

lemma waits_apply:
  assumes "waits i t s" "op \<noteq> Unsubscribe i" "\<forall>x. op \<noteq> Subscribe i x" "\<forall>ms. op \<noteq> Snapshot ms"
  shows "waits i t (apply_op send op s)"
proof (cases op)
  case (Subscribe j x)
  then show ?thesis using assms by (auto simp: waits_def on_subscribe_def fst_update AList.update_conv')
next
  case (Unsubscribe j)
  then show ?thesis using assms by (auto simp: waits_def on_unsubscribe_def fst_delete AList.delete_conv')
qed (use assms in \<open>simp_all add: waits_def fst_set_sends\<close>)

lemma send_new_waits: "waits i t s \<Longrightarrow> waits i (send m t) (send_new_subscribes send m s)"
  by (simp add: waits_def send_new_subscribes_def map_of_map)

lemma fold_update_get:
  "distinct (map fst xs) \<Longrightarrow> map_of (fold (\<lambda>(i, t). AList.update i t) xs ys) i =
     (case map_of xs i of Some t \<Rightarrow> Some t | None \<Rightarrow> map_of ys i)"
proof (induction xs arbitrary: ys)
  case (Cons x xs)
  obtain j t where x: "x = (j, t)" by (cases x)
  show ?case
  proof (cases "i = j")
    case True
    then have "map_of xs i = None" using Cons.prems x by (simp add: map_of_eq_None_iff)
    with True show ?thesis using Cons x by (simp add: AList.update_conv')
  next
    case False
    then show ?thesis using Cons x by (simp add: AList.update_conv' split: option.split)
  qed
qed simp

lemma waits_snapshot:
  assumes "waits i t s" "subs_ok s"
  shows "map_of (subscribes (send_snapshot send ms s)) i = Some (fold send ms t)"
proof -
  have w: "waits i (fold send ms t) (fold (send_new_subscribes send) ms s)"
    using assms(1) by (induction ms arbitrary: s t) (simp_all add: send_new_waits)
  have "distinct (map fst (new_subscribes (fold (send_new_subscribes send) ms s)))"
    using assms(2) by (simp add: fold_send_new subs_ok_def)
  with w assms(1) show ?thesis
    by (auto simp: send_snapshot_def snapshot_def swap_new_subscribes_def fold_update_get waits_def)
qed





text \<open>
  Removing a connection takes it out of every service of the server and out of nothing else:
  every other connection keeps exactly its subscriptions.
\<close>

theorem remove_connection_unsubscribes:
  assumes "\<forall>s \<in> set (services sv). subs_ok s"
  shows "(\<forall>s \<in> set (services (remove_connection i sv)). subs_ok s \<and> \<not> member i s) \<and>
    (j \<noteq> i \<longrightarrow> map (member j) (services (remove_connection i sv)) = map (member j) (services sv) \<and>
       map_of (connections (remove_connection i sv)) j = map_of (connections sv) j) \<and>
    map_of (connections (remove_connection i sv)) i = None"
  using subs.unsub_all [OF assms] subs.unsub_others [OF assms]
  by (simp add: remove_connection_def AList.delete_conv')

theorem remove_connection_unsubscribes_witness:
  "list_all (\<lambda>s. \<not> member 1 s) (services (remove_connection 1 (add_connection (\<lambda>n c. [] :: nat list) 1 () []
     \<lparr>connections = [], services = [new_service ''audio'' False], id_count = 1\<rparr>)))"
proof -
  let ?sv = "add_connection (\<lambda>n c. [] :: nat list) 1 () []
     \<lparr>connections = [], services = [new_service ''audio'' False], id_count = 1\<rparr>"
  have "\<forall>s \<in> set (services ?sv). subs_ok s"
    by (simp add: add_connection_def new_service_def on_subscribe_def subs_ok_def)
  from remove_connection_unsubscribes [OF this, of 1] show ?thesis by (simp add: list_all_iff)
qed

text \<open>
  The back-off of a failing service. It always stays between 30 and 1000 milliseconds, and
  after \<open>k\<close> quick failures in a row it is \<open>30 * 2 ^ k\<close>, capped.
\<close>

theorem backoff_doubles:
  "(\<forall>t \<in> set tooks. t \<le> MAX_ERROR_TIMEOUT) \<Longrightarrow>
     fold next_error_timeout tooks HIBERNATE_TIMEOUT = min MAX_ERROR_TIMEOUT (HIBERNATE_TIMEOUT * 2 ^ length tooks)"
proof (induction tooks rule: rev_induct)
  case (snoc t ts)
  then have "fold next_error_timeout ts HIBERNATE_TIMEOUT = min MAX_ERROR_TIMEOUT (HIBERNATE_TIMEOUT * 2 ^ length ts)"
    by simp
  moreover have "next_error_timeout t e = min MAX_ERROR_TIMEOUT (e * 2)" for e
    using snoc.prems by (auto simp: next_error_timeout_def Let_def)
  moreover have "min m (min m p * 2) = min m (p * 2)" for m p :: nat by (simp add: min_def)
  ultimately show ?case by (simp add: algebra_simps)
qed (simp add: MAX_ERROR_TIMEOUT_def HIBERNATE_TIMEOUT_def)

theorem backoff_doubles_witness: "fold next_error_timeout [1, 2, 3] HIBERNATE_TIMEOUT = 240"
  using backoff_doubles [of "[1, 2, 3]"] by (simp add: MAX_ERROR_TIMEOUT_def HIBERNATE_TIMEOUT_def)

text \<open>One pass over the child processes removes exactly those that have exited, in order.\<close>

theorem reap_filters: "reap exited 0 lock = filter (\<lambda>c. \<not> exited c) lock"
proof -
  have "reap exited i lock = take i lock @ filter (\<lambda>c. \<not> exited c) (drop i lock)" for i
  proof (induction exited i lock rule: reap.induct)
    case (1 exited i lock)
    show ?case
    proof (cases "i < length lock")
      case True
      then have "drop i lock = lock ! i # drop (Suc i) lock" by (rule Cons_nth_drop_Suc [symmetric])
      with True "1.IH" show ?thesis
        by (subst reap.simps) (auto simp: take_Suc_conv_app_nth min_def)
    qed (subst reap.simps, simp)
  qed
  from this [of 0] show ?thesis by simp
qed

end
