(* ===== verification/Message_Proto.thy ===== *)
theory Message_Proto
  imports Prelude Rendezvous_Proto
begin

text \<open>
  The messages of \<open>libs/hbb_common/protos/message.proto\<close> that the two ends of a session exchange.
  A \<open>oneof\<close> is a datatype whose last constructor is the unset one; fields that no modelled code
  reads (the pixels of a frame) are kept as bytes.
\<close>

datatype image_quality = QualityNotSet | Low | Balanced | Best

fun quality_value :: "image_quality \<Rightarrow> int" where
  "quality_value QualityNotSet = 0"
| "quality_value Low = 2"
| "quality_value Balanced = 3"
| "quality_value Best = 4"

datatype bool_option = NotSet | No | Yes

record option_message =
  image_quality :: "image_quality proto_enum"
  o_lock_after_session_end :: "bool_option proto_enum"
  o_show_remote_cursor :: "bool_option proto_enum"
  o_privacy_mode :: "bool_option proto_enum"
  o_block_input :: "bool_option proto_enum"
  custom_image_quality :: int
  o_disable_audio :: "bool_option proto_enum"
  o_disable_clipboard :: "bool_option proto_enum"
  o_enable_file_transfer :: "bool_option proto_enum"

definition default_option :: option_message where
  "default_option = \<lparr>image_quality = Known QualityNotSet, o_lock_after_session_end = Known NotSet,
     o_show_remote_cursor = Known NotSet, o_privacy_mode = Known NotSet, o_block_input = Known NotSet,
     custom_image_quality = 0, o_disable_audio = Known NotSet, o_disable_clipboard = Known NotSet,
     o_enable_file_transfer = Known NotSet\<rparr>"

datatype permission = Keyboard | Clipboard | Audio | File

datatype login_union = FileTransfer string bool | PortForward string int | NoLoginUnion

record login_request =
  username :: string
  lr_password :: bytes
  my_id :: string
  my_name :: string
  lr_option :: "option_message option"
  lr_union :: login_union
  lr_video_ack_required :: bool
  my_uid :: string

record display_info =
  d_x :: int
  d_y :: int
  d_width :: int
  d_height :: int
  d_name :: string
  d_online :: bool

record peer_info_msg =
  pi_username :: string
  pi_hostname :: string
  pi_platform :: string
  pi_displays :: "display_info list"
  pi_current_display :: int
  pi_sas_enabled :: bool
  pi_version :: string
  pi_uid :: string

datatype login_response = LoginError string | LoginPeerInfo peer_info_msg

datatype (plugins only:) control_key =
  CUnknown | Alt | Backspace | CapsLock | Control | Delete | DownArrow | End | Escape
  | F1 | F10 | F11 | F12 | F2 | F3 | F4 | F5 | F6 | F7 | F8 | F9 | Home | LeftArrow | Meta | Option
  | PageDown | PageUp | Return | RightArrow | Shift | Space | Tab | UpArrow
  | Numpad0 | Numpad1 | Numpad2 | Numpad3 | Numpad4 | Numpad5 | Numpad6 | Numpad7 | Numpad8 | Numpad9
  | Cancel | Clear | Menu | Pause | Kana | Hangul | Junja | Final | Hanja | Kanji | Convert | Select
  | Print | Execute | Snapshot_Key | Insert | Help | Sleep | Separator | Scroll | NumLock | RWin | Apps
  | Multiply | Add | Subtract | Decimal | Divide | Equals | NumpadEnter | RShift | RControl | RAlt
  | CtrlAltDel | LockScreen

record mouse_event =
  m_mask :: int
  m_x :: int
  m_y :: int
  m_modifiers :: "control_key proto_enum list"

datatype key_union = ControlKey "control_key proto_enum" | Chr nat | Unicode nat | Seq string | NoKey

record key_event =
  down :: bool
  press :: bool
  k_union :: key_union
  k_modifiers :: "control_key proto_enum list"

datatype file_type = Dir | DirLink | DirDrive | RegFile | FileLink

record file_entry =
  entry_type :: file_type
  f_name :: string
  is_hidden :: bool
  f_size :: nat
  modified_time :: nat

record file_transfer_block =
  b_id :: int
  b_file_num :: int
  b_data :: bytes
  b_compressed :: bool

datatype file_action =
    ReadDir string bool
  | FSend int string bool
  | FReceive int string "file_entry list"
  | FCreate int string
  | FRemoveDir int string bool
  | FRemoveFile int string int
  | AllFiles int string bool
  | FCancel int
  | NoFileAction

datatype file_response =
    FDir int string "file_entry list"
  | FBlock file_transfer_block
  | FError int string int
  | FDone int int
  | NoFileResponse

datatype misc =
    ChatMessage string
  | SwitchDisplay int int int int int
  | PermissionInfo permission bool
  | MOption option_message
  | AudioFormat nat nat
  | CloseReason string
  | RefreshVideo bool
  | OptionResponse string
  | VideoReceived bool
  | NoMisc

record cursor_data =
  cd_id :: nat
  hotx :: int
  hoty :: int
  cd_width :: int
  cd_height :: int
  colors :: bytes

text \<open>The format entries carry a connection id that nothing reads, left out here.\<close>

datatype cliprdr =
    Ready int
  | FormatList int "(int \<times> string) list"
  | FormatListResponse int int
  | FormatDataRequest int int
  | FormatDataResponse int int bytes
  | FileContentsRequest int int int int int int int bool int
  | FileContentsResponse int int int bytes
  | NoCliprdr

datatype message =
    SignedId bytes
  | PublicKey bytes bytes
  | TestDelay int bool
  | VideoFrame bytes
  | LoginRequest login_request
  | LoginResponse login_response
  | Hash string string
  | MouseEvent mouse_event
  | AudioFrame bytes
  | CursorData cursor_data
  | CursorPosition int int
  | CursorId nat
  | KeyEvent key_event
  | ClipboardMsg bool bytes
  | FileAction file_action
  | FileResponse file_response
  | Misc misc
  | Cliprdr cliprdr
  | EmptyMessage

end
