(* ===== verification/File_Transfer.thy ===== *)
theory File_Transfer
  imports Prelude Version Message_Proto
begin

text \<open>
  File transfer jobs, \<open>libs/hbb_common/src/fs.rs\<close>, and the wrappers of zstd in \<open>compress.rs\<close>. A
  path is its text, joined the way \<open>Path::join\<close> does on Unix (an absolute name replaces the path).
  The directory tree that is listed is a value; the files that a job opens are a map from paths to
  contents, an open file is its path and position.

  The environment says which calls of the operating system succeed, how much a \<open>read\<close> returns
  before the end of the file, and what zstd answers.
\<close>

definition get_transfer_max_size :: nat where
  "get_transfer_max_size = 50 * 1024 * 1024"

definition BUF_SIZE :: nat where "BUF_SIZE = 128 * 1024"

record fs_env =
  open_ok :: "string \<Rightarrow> bool"
  read_ok :: "string \<Rightarrow> nat \<Rightarrow> bool"
  create_ok :: "string \<Rightarrow> bool"
  write_ok :: "string \<Rightarrow> bool"
  sync_ok :: "string \<Rightarrow> bool"
  read_size :: "nat \<Rightarrow> nat"
  zstd_compress :: "bytes \<Rightarrow> bytes option"
  zstd_decompress :: "nat \<Rightarrow> bytes \<Rightarrow> bytes option"

subsection \<open>Compression\<close>

definition compress :: "fs_env \<Rightarrow> bytes \<Rightarrow> bytes" where
  "compress E data = (case zstd_compress E data of Some r \<Rightarrow> r | None \<Rightarrow> [])"

definition decompress :: "fs_env \<Rightarrow> bytes \<Rightarrow> bytes" where
  "decompress E data =
     (let n = 30 * length data;
          n = (if n > 1024 * 1024 * 64 then 1024 * 1024 * 64 else n);
          n = (if n < 1024 * 1024 then 1024 * 1024 else n)
      in case zstd_decompress E n data of Some r \<Rightarrow> r | None \<Rightarrow> [])"

subsection \<open>Listing\<close>

text \<open>
  A node of the tree: a regular file with its size and time, a directory (which may not be
  readable) with its entries, a symbolic link to a directory or not.
\<close>

datatype node =
    Regular nat nat
  | Folder bool nat "(string \<times> node) list"
  | Link bool nat

definition join_path :: "string \<Rightarrow> string \<Rightarrow> string" where
  "join_path p n =
     (if starts_with ''/'' n then n
      else if p = [] \<or> last p = CHR ''/'' then p @ n
      else p @ ''/'' @ n)"

definition dir_entry :: "string \<Rightarrow> node \<Rightarrow> file_entry" where
  "dir_entry n nd =
     (let hidden = starts_with ''.'' n in
      case nd of
        Regular sz t \<Rightarrow> \<lparr>entry_type = RegFile, f_name = n, is_hidden = hidden, f_size = sz, modified_time = t\<rparr>
      | Folder r t es \<Rightarrow> \<lparr>entry_type = Dir, f_name = n, is_hidden = hidden, f_size = 0, modified_time = t\<rparr>
      | Link d t \<Rightarrow> \<lparr>entry_type = (if d then DirLink else FileLink), f_name = n, is_hidden = hidden, f_size = 0,
          modified_time = t\<rparr>)"

definition listed :: "bool \<Rightarrow> string \<times> node \<Rightarrow> bool" where
  "listed include_hidden e \<longleftrightarrow> fst e \<noteq> [] \<and> (include_hidden \<or> \<not> starts_with ''.'' (fst e))"

text \<open>\<open>read_dir\<close> answers \<open>None\<close> for what is not a readable directory.\<close>

definition read_dir :: "node \<Rightarrow> bool \<Rightarrow> file_entry list option" where
  "read_dir nd include_hidden =
     (case nd of
        Folder True t es \<Rightarrow> Some (map (\<lambda>(n, c). dir_entry n c) (filter (listed include_hidden) es))
      | _ \<Rightarrow> None)"

fun read_dir_recursive :: "node \<Rightarrow> string \<Rightarrow> bool \<Rightarrow> file_entry list option" where
  "read_dir_recursive (Regular sz t) prefix hid =
     Some [\<lparr>entry_type = RegFile, f_name = [], is_hidden = False, f_size = sz, modified_time = t\<rparr>]"
| "read_dir_recursive (Link d t) prefix hid = None"
| "read_dir_recursive (Folder False t es) prefix hid = None"
| "read_dir_recursive (Folder True t es) prefix hid =
     Some (concat (map (\<lambda>(n, c).
       if \<not> listed hid (n, c) then []
       else case c of
         Regular sz t \<Rightarrow> [(dir_entry n c)\<lparr>f_name := join_path prefix n\<rparr>]
       | Folder r t' es' \<Rightarrow>
           (case read_dir_recursive c (join_path prefix n) hid of Some fs \<Rightarrow> fs | None \<Rightarrow> [])
       | Link d t \<Rightarrow> []) es))"

definition get_recursive_files :: "node option \<Rightarrow> bool \<Rightarrow> file_entry list option" where
  "get_recursive_files nd hid = (case nd of Some nd \<Rightarrow> read_dir_recursive nd [] hid | None \<Rightarrow> None)"

text \<open>What is left of a directory: \<open>None\<close> when it was removed.\<close>

fun remove_all_empty_dir :: "node \<Rightarrow> node option" where
  "remove_all_empty_dir (Folder True t es) =
     (let es' = concat (map (\<lambda>(n, c).
        case c of
          Folder r t' cs \<Rightarrow> (if n = [] then [(n, c)]
            else case remove_all_empty_dir c of Some c' \<Rightarrow> [(n, c')] | None \<Rightarrow> [])
        | Link d t' \<Rightarrow> if n = [] then [(n, c)] else []
        | Regular sz t' \<Rightarrow> [(n, c)]) es)
      in if es' = [] then None else Some (Folder True t es'))"
| "remove_all_empty_dir nd = Some nd"

subsection \<open>Jobs\<close>

record transfer_job =
  job_id :: int
  path :: string
  files :: "file_entry list"
  file_num :: int
  job_file :: "(string \<times> nat) option"
  total_size :: nat
  finished_size :: nat
  transferred :: nat

text \<open>The disk: contents and modification times.\<close>

record disk =
  contents :: "string \<rightharpoonup> bytes"
  mtimes :: "string \<rightharpoonup> nat"

definition sum_sizes :: "file_entry list \<Rightarrow> nat" where
  "sum_sizes fs = sum_list (map f_size fs) mod 2 ^ 64"

text \<open>The part of a name after its last dot, or nothing.\<close>

definition get_ext :: "string \<Rightarrow> string" where
  "get_ext n = (if CHR ''.'' \<in> set n then rev (takeWhile (\<lambda>c. c \<noteq> CHR ''.'') (rev n)) else [])"

definition is_compressed_file :: "string \<Rightarrow> bool" where
  "is_compressed_file n \<longleftrightarrow>
     get_ext n \<in> {''xz'', ''gz'', ''zip'', ''7z'', ''rar'', ''bz2'', ''tgz'', ''png'', ''jpg''}"

definition new_write :: "int \<Rightarrow> string \<Rightarrow> file_entry list \<Rightarrow> transfer_job" where
  "new_write i p fs = \<lparr>job_id = i, path = p, files = fs, file_num = 0, job_file = None, total_size = sum_sizes fs,
     finished_size = 0, transferred = 0\<rparr>"

definition new_read :: "int \<Rightarrow> string \<Rightarrow> node option \<Rightarrow> bool \<Rightarrow> transfer_job option" where
  "new_read i p nd hid =
     (case get_recursive_files nd hid of
        Some fs \<Rightarrow> Some \<lparr>job_id = i, path = p, files = fs, file_num = 0, job_file = None, total_size = sum_sizes fs,
          finished_size = 0, transferred = 0\<rparr>
      | None \<Rightarrow> None)"

definition new_read_total_size :: "node option \<Rightarrow> bool \<Rightarrow> nat" where
  "new_read_total_size nd hid = (case get_recursive_files nd hid of Some fs \<Rightarrow> sum_sizes fs | None \<Rightarrow> 0)"

definition new_read_is_too_large :: "node option \<Rightarrow> bool \<Rightarrow> bool" where
  "new_read_is_too_large nd hid \<longleftrightarrow> new_read_total_size nd hid \<ge> get_transfer_max_size"

text \<open>\<open>as usize\<close> of an \<open>i32\<close>: a negative number becomes larger than any length.\<close>

definition usize_of_i32 :: "int \<Rightarrow> nat" where
  "usize_of_i32 n = nat (n mod 2 ^ 64)"

definition join_job :: "transfer_job \<Rightarrow> string \<Rightarrow> string" where
  "join_job j n = (if n = [] then path j else join_path (path j) n)"

definition download_path :: "transfer_job \<Rightarrow> string \<Rightarrow> string" where
  "download_path j n = join_job j n @ ''.download''"

definition modify_time :: "transfer_job \<Rightarrow> disk \<Rightarrow> disk" where
  "modify_time j d =
     (let n = usize_of_i32 (file_num j) in
      if n < length (files j) then
        let e = files j ! n; p = join_job j (f_name e); dp = download_path j (f_name e);
            d = (case contents d dp of
                   Some c \<Rightarrow> d\<lparr>contents := ((contents d)(dp := None))(p \<mapsto> c)\<rparr>
                 | None \<Rightarrow> d)
        in if contents d p \<noteq> None then d\<lparr>mtimes := (mtimes d)(p \<mapsto> modified_time e)\<rparr> else d
      else d)"

definition remove_download_file :: "transfer_job \<Rightarrow> disk \<Rightarrow> disk" where
  "remove_download_file j d =
     (let n = usize_of_i32 (file_num j) in
      if n < length (files j)
      then d\<lparr>contents := (contents d)(download_path j (f_name (files j ! n)) := None)\<rparr> else d)"

text \<open>\<open>raw\<close> carries the data when the block came over the raw side channel.\<close>

definition write_data ::
  "fs_env \<Rightarrow> file_transfer_block \<Rightarrow> bytes \<Rightarrow> transfer_job \<Rightarrow> disk \<Rightarrow> unit outcome \<times> transfer_job \<times> disk" where
  "write_data E b data j d =
     (case job_file j of
        None \<Rightarrow> (Panicked, j, d)
      | Some (p, pos) \<Rightarrow>
          let out = (if b_compressed b then decompress E data else data) in
          if \<not> write_ok E p then (Failed ''write'', j, d)
          else (Done (),
            j\<lparr>job_file := Some (p, pos + length out), finished_size := finished_size j + length out,
              transferred := transferred j + length data\<rparr>,
            d\<lparr>contents := (contents d)(p \<mapsto> (case contents d p of Some c \<Rightarrow> c | None \<Rightarrow> []) @ out)\<rparr>))"

definition write_block ::
  "fs_env \<Rightarrow> file_transfer_block \<Rightarrow> bytes option \<Rightarrow> transfer_job \<Rightarrow> disk
     \<Rightarrow> unit outcome \<times> transfer_job \<times> disk" where
  "write_block E b raw j d =
     (let n = usize_of_i32 (b_file_num b); data = (case raw of Some r \<Rightarrow> r | None \<Rightarrow> b_data b) in
      if b_id b \<noteq> job_id j then (Failed ''Wrong id'', j, d)
      else if n \<ge> length (files j) then (Failed ''Wrong file number'', j, d)
      else if n \<noteq> usize_of_i32 (file_num j) \<or> job_file j = None then
        let d = modify_time j d in
        if (\<exists>p pos. job_file j = Some (p, pos) \<and> \<not> sync_ok E p) then (Failed ''sync'', j, d)
        else
          let j = j\<lparr>file_num := b_file_num b\<rparr>; p = download_path j (f_name (files j ! n)) in
          if \<not> create_ok E p then (Failed ''create'', j, d)
          else write_data E b data (j\<lparr>job_file := Some (p, 0)\<rparr>) (d\<lparr>contents := (contents d)(p \<mapsto> [])\<rparr>)
      else write_data E b data j d)"

text \<open>
  The inner loop of \<open>read\<close>: it asks for the rest of the buffer until that is full or the file
  ends; a call answers at least one byte before the end. \<open>buf\<close> is what is read so far.
\<close>

function fill_buffer :: "(nat \<Rightarrow> nat) \<Rightarrow> bytes \<Rightarrow> bytes \<Rightarrow> bytes" where
  "fill_buffer sizes rest buf =
     (let n = min (max 1 (sizes (length buf))) (min (BUF_SIZE - length buf) (length rest))
      in if n = 0 \<or> length buf + n = BUF_SIZE then buf @ take n rest
         else fill_buffer sizes (drop n rest) (buf @ take n rest))"
  by pat_completeness auto
termination by (relation "measure (\<lambda>(s, rest, buf). length rest)") auto

declare fill_buffer.simps [simp del]

definition read ::
  "fs_env \<Rightarrow> transfer_job \<Rightarrow> disk \<Rightarrow> file_transfer_block option outcome \<times> transfer_job" where
  "read E j d =
     (let n = usize_of_i32 (file_num j) in
      if n \<ge> length (files j) then (Done None, j\<lparr>job_file := None\<rparr>)
      else
        let name = f_name (files j ! n); p = join_job j name in
        if job_file j = None \<and> (\<not> open_ok E p \<or> contents d p = None)
        then (Failed ''open'', j\<lparr>file_num := file_num j + 1\<rparr>)
        else
          let (p, pos) = (case job_file j of Some h \<Rightarrow> h | None \<Rightarrow> (p, 0));
              content = (case contents d p of Some c \<Rightarrow> c | None \<Rightarrow> [])
          in if \<not> read_ok E p pos then (Failed ''read'', j\<lparr>file_num := file_num j + 1, job_file := None\<rparr>)
             else
               let buf = fill_buffer (read_size E) (drop pos content) [] in
               if buf = [] then
                 (Done (Some \<lparr>b_id = job_id j, b_file_num = file_num j, b_data = [], b_compressed = False\<rparr>),
                  j\<lparr>file_num := file_num j + 1, job_file := None\<rparr>)
               else
                 let tmp = compress E buf;
                     small = (\<not> is_compressed_file name \<and> length tmp < length buf);
                     data = (if small then tmp else buf)
                 in (Done (Some \<lparr>b_id = job_id j, b_file_num = file_num j, b_data = data, b_compressed = small\<rparr>),
                     j\<lparr>job_file := Some (p, pos + length buf), finished_size := finished_size j + length buf,
                       transferred := transferred j + length data\<rparr>))"

subsection \<open>Messages and lists of jobs\<close>

definition new_error :: "int \<Rightarrow> string \<Rightarrow> int \<Rightarrow> message" where
  "new_error i err n = FileResponse (FError i err n)"

definition new_dir :: "int \<Rightarrow> file_entry list \<Rightarrow> message" where
  "new_dir i fs = FileResponse (FDir i [] fs)"

definition new_block :: "file_transfer_block \<Rightarrow> message" where
  "new_block b = FileResponse (FBlock b)"

definition new_receive :: "int \<Rightarrow> string \<Rightarrow> file_entry list \<Rightarrow> message" where
  "new_receive i p fs = FileAction (FReceive i p fs)"

definition new_send :: "int \<Rightarrow> string \<Rightarrow> bool \<Rightarrow> message" where
  "new_send i p hid = FileAction (FSend i p hid)"

definition new_done :: "int \<Rightarrow> int \<Rightarrow> message" where
  "new_done i n = FileResponse (FDone i n)"

definition remove_job :: "int \<Rightarrow> transfer_job list \<Rightarrow> transfer_job list" where
  "remove_job i jobs = filter (\<lambda>j. job_id j \<noteq> i) jobs"

definition get_job :: "int \<Rightarrow> transfer_job list \<Rightarrow> transfer_job option" where
  "get_job i jobs = find (\<lambda>j. job_id j = i) jobs"

text \<open>
  One turn of a list of read jobs: the messages sent, the jobs, and whether a send failed
  (\<open>send_ok\<close> says which do not); the jobs behind the failed one are not read, and no finished job is
  removed then.
\<close>

fun read_jobs_loop ::
  "fs_env \<Rightarrow> (message \<Rightarrow> bool) \<Rightarrow> disk \<Rightarrow> transfer_job list \<Rightarrow> bool \<times> message list \<times> int list \<times> transfer_job list" where
  "read_jobs_loop E snd_ok d [] = (True, [], [], [])"
| "read_jobs_loop E snd_ok d (j # js) =
     (let (r, j) = read E j d;
          msg = (case r of
             Failed err \<Rightarrow> new_error (job_id j) err (file_num j)
           | Done (Some b) \<Rightarrow> new_block b
           | Done None \<Rightarrow> new_done (job_id j) (file_num j)
           | Panicked \<Rightarrow> new_error (job_id j) [] (file_num j));
          fin = (if r = Done None then [job_id j] else [])
      in if \<not> snd_ok msg then (False, [], fin, j # js)
         else (case read_jobs_loop E snd_ok d js of
           (sent, msgs, fins, js) \<Rightarrow> (sent, msg # msgs, fin @ fins, j # js)))"

definition handle_read_jobs ::
  "fs_env \<Rightarrow> (message \<Rightarrow> bool) \<Rightarrow> disk \<Rightarrow> transfer_job list \<Rightarrow> bool \<times> message list \<times> transfer_job list" where
  "handle_read_jobs E snd_ok d jobs =
     (case read_jobs_loop E snd_ok d jobs of
        (sent, msgs, fins, jobs) \<Rightarrow> (sent, msgs, if sent then fold remove_job fins jobs else jobs))"

subsection \<open>Reading\<close>

lemma fill_buffer_eq:
  "length buf \<le> BUF_SIZE \<Longrightarrow> fill_buffer sizes rest buf = buf @ take (BUF_SIZE - length buf) rest"
proof (induction sizes rest buf rule: fill_buffer.induct)
  case (1 sizes rest buf)
  let ?n = "min (max 1 (sizes (length buf))) (min (BUF_SIZE - length buf) (length rest))"
  have "?n \<le> BUF_SIZE - length buf" by (simp add: min.coboundedI2)
  with "1.prems" have le: "length buf + ?n \<le> BUF_SIZE" by linarith
  show ?case
  proof (cases "?n = 0 \<or> length buf + ?n = BUF_SIZE")
    case True
    then have "take ?n rest = take (BUF_SIZE - length buf) rest"
    proof
      assume "?n = 0"
      then have "BUF_SIZE - length buf = 0 \<or> rest = []" by (auto simp: min_def max_def split: if_splits)
      then show ?thesis using \<open>?n = 0\<close> by auto
    next
      assume "length buf + ?n = BUF_SIZE"
      then have "?n = BUF_SIZE - length buf" by simp
      then show ?thesis by simp
    qed
    with True show ?thesis by (subst fill_buffer.simps) (simp only: Let_def if_True)
  next
    case False
    have l: "length (buf @ take ?n rest) = length buf + ?n" by simp
    have "fill_buffer sizes rest buf = fill_buffer sizes (drop ?n rest) (buf @ take ?n rest)"
      using False by (subst fill_buffer.simps) (simp only: Let_def if_False)
    also have "\<dots> = (buf @ take ?n rest) @ take (BUF_SIZE - length (buf @ take ?n rest)) (drop ?n rest)"
      using "1.IH" [OF refl False] le l by presburger
    also have "\<dots> = buf @ take (?n + (BUF_SIZE - (length buf + ?n))) rest"
      unfolding l by (simp add: take_add)
    also have "?n + (BUF_SIZE - (length buf + ?n)) = BUF_SIZE - length buf" using le by linarith
    finally show ?thesis .
  qed
qed

lemma usize_of_small: "k < 2 ^ 31 \<Longrightarrow> usize_of_i32 (int k) = k"
  by (simp add: usize_of_i32_def)

text \<open>The operating system fails nothing, and zstd undoes its own work within the capacity given.\<close>

definition all_ok :: "fs_env \<Rightarrow> bool" where
  "all_ok E \<longleftrightarrow> (\<forall>p. open_ok E p \<and> create_ok E p \<and> write_ok E p \<and> sync_ok E p \<and> (\<forall>n. read_ok E p n))"

definition zstd_law :: "fs_env \<Rightarrow> bool" where
  "zstd_law E \<longleftrightarrow> (\<forall>data. length data \<le> BUF_SIZE \<longrightarrow>
     (\<exists>c. zstd_compress E data = Some c \<and> (\<forall>n. length data \<le> n \<longrightarrow> zstd_decompress E n c = Some data)))"

lemma decompress_compress:
  "zstd_law E \<Longrightarrow> length data \<le> BUF_SIZE \<Longrightarrow> decompress E (compress E data) = data"
proof -
  assume "zstd_law E" and l: "length data \<le> BUF_SIZE"
  then obtain c where c: "zstd_compress E data = Some c"
    "\<And>n. length data \<le> n \<Longrightarrow> zstd_decompress E n c = Some data"
    unfolding zstd_law_def by blast
  have "length data \<le> 1024 * 1024" using l by (simp add: BUF_SIZE_def)
  then show ?thesis by (simp add: decompress_def compress_def c(1) c(2) Let_def)
qed

text \<open>What a block stands for.\<close>

definition block_bytes :: "fs_env \<Rightarrow> file_transfer_block \<Rightarrow> bytes" where
  "block_bytes E b = (if b_compressed b then decompress E (b_data b) else b_data b)"

lemma read_block:
  assumes "all_ok E" "zstd_law E" "usize_of_i32 (file_num j) = k" "k < length (files j)"
    "p = join_job j (f_name (files j ! k))" "contents d p = Some c"
    "job_file j = Some (p, pos) \<or> job_file j = None \<and> pos = 0"
  shows "\<exists>b j'. read E j d = (Done (Some b), j') \<and> b_id b = job_id j \<and> b_file_num b = file_num j \<and>
    block_bytes E b = take BUF_SIZE (drop pos c) \<and>
    j' = (if drop pos c = [] then j\<lparr>file_num := file_num j + 1, job_file := None\<rparr>
          else j\<lparr>job_file := Some (p, pos + length (take BUF_SIZE (drop pos c))),
                 finished_size := finished_size j', transferred := transferred j'\<rparr>)"
proof -
  let ?buf = "take BUF_SIZE (drop pos c)"
  have f: "fill_buffer (read_size E) (drop pos c) [] = ?buf" by (simp add: fill_buffer_eq)
  have e: "?buf = [] \<longleftrightarrow> drop pos c = []" by (auto simp: BUF_SIZE_def)
  have o: "\<not> (job_file j = None \<and> (\<not> open_ok E p \<or> contents d p = None))" "read_ok E p pos"
    using assms(1,6) by (auto simp: all_ok_def)
  show ?thesis
  proof (cases "?buf = []")
    case True
    from assms(7) have "read E j d = (Done (Some \<lparr>b_id = job_id j, b_file_num = file_num j, b_data = [],
        b_compressed = False\<rparr>), j\<lparr>file_num := file_num j + 1, job_file := None\<rparr>)"
      by (elim disjE conjE) (use assms(3-6) f o True in \<open>simp_all add: read_def Let_def\<close>)
    with True e show ?thesis by (simp add: block_bytes_def)
  next
    case False
    let ?small = "\<not> is_compressed_file (f_name (files j ! k)) \<and> length (compress E ?buf) < length ?buf"
    let ?data = "if ?small then compress E ?buf else ?buf"
    have "read E j d = (Done (Some \<lparr>b_id = job_id j, b_file_num = file_num j, b_data = ?data, b_compressed = ?small\<rparr>),
        j\<lparr>job_file := Some (p, pos + length ?buf), finished_size := finished_size j + length ?buf,
          transferred := transferred j + length ?data\<rparr>)"
      using assms(7)
      by (elim disjE conjE) (use assms(3-6) f o False in \<open>simp_all add: read_def Let_def\<close>)
    moreover have "block_bytes E \<lparr>b_id = job_id j, b_file_num = file_num j, b_data = ?data, b_compressed = ?small\<rparr> = ?buf"
      using decompress_compress [OF assms(2), of ?buf] by (simp add: block_bytes_def)
    ultimately show ?thesis using False e by simp
  qed
qed

subsection \<open>Writing what was read\<close>

text \<open>
  The two ends of a transfer: each block the reader sends is written, and when the reader is done
  the writer gives the last file its name (\<open>WriteDone\<close>). The fuel bounds the number of blocks.
\<close>

fun pump ::
  "fs_env \<Rightarrow> nat \<Rightarrow> transfer_job \<Rightarrow> disk \<Rightarrow> transfer_job \<Rightarrow> disk \<Rightarrow> bool \<times> disk" where
  "pump E 0 jr dr jw dw = (False, dw)"
| "pump E (Suc n) jr dr jw dw =
     (case read E jr dr of
        (Done (Some b), jr') \<Rightarrow>
          (case write_block E b None jw dw of
             (Done _, jw', dw') \<Rightarrow> pump E n jr' dr jw' dw'
           | (_, jw', dw') \<Rightarrow> (False, dw'))
      | (Done None, jr') \<Rightarrow> (True, modify_time jw dw)
      | _ \<Rightarrow> (False, dw))"

text \<open>
  The state of a transfer of files with contents \<open>cs\<close>: file \<open>k\<close> is being read at \<open>pos\<close>, and the
  writer has everything before that, the last file it opened still under its temporary name.
\<close>

record transfer =
  src :: transfer_job
  src_disk :: disk
  dst :: transfer_job
  dst_disk :: disk

definition target :: "transfer_job \<Rightarrow> nat \<Rightarrow> string" where
  "target j i = join_job j (f_name (files j ! i))"

definition temporary :: "transfer_job \<Rightarrow> nat \<Rightarrow> string" where
  "temporary j i = download_path j (f_name (files j ! i))"

definition written :: "transfer_job \<Rightarrow> disk \<Rightarrow> bytes list \<Rightarrow> nat \<Rightarrow> bool" where
  "written j d cs k \<longleftrightarrow> (\<forall>i < k. contents d (target j i) = Some (cs ! i))"

definition targets_ok :: "transfer_job \<Rightarrow> bool" where
  "targets_ok j \<longleftrightarrow> length (files j) < 2 ^ 31 \<and>
     (\<forall>i < length (files j). \<forall>k < length (files j). (i \<noteq> k \<longrightarrow> target j i \<noteq> target j k) \<and>
        temporary j i \<noteq> target j k)"

text \<open>The writer holds \<open>c\<close> for its file \<open>k\<close> (open, under the temporary name).\<close>

definition writer_at :: "transfer_job \<Rightarrow> disk \<Rightarrow> bytes list \<Rightarrow> nat \<Rightarrow> bytes \<Rightarrow> bool" where
  "writer_at j d cs k c \<longleftrightarrow> k < length (files j) \<and> file_num j = int k \<and>
     (\<exists>n. job_file j = Some (temporary j k, n)) \<and> contents d (temporary j k) = Some c \<and> written j d cs k"

definition writer_fresh :: "transfer_job \<Rightarrow> bool" where
  "writer_fresh j \<longleftrightarrow> file_num j = 0 \<and> job_file j = None"

lemma temporary_inj: "targets_ok j \<Longrightarrow> i < length (files j) \<Longrightarrow> k < length (files j) \<Longrightarrow> i \<noteq> k \<Longrightarrow>
    temporary j i \<noteq> temporary j k"
  by (simp add: targets_ok_def temporary_def target_def download_path_def)

lemma target_neq_temporary:
  "targets_ok j \<Longrightarrow> i < length (files j) \<Longrightarrow> k < length (files j) \<Longrightarrow> target j i \<noteq> temporary j k"
  unfolding targets_ok_def by metis

lemma written_temporary:
  assumes "targets_ok j" "k < length (files j)" "m \<le> length (files j)" "written j d cs m"
    "contents d' = (contents d)(temporary j k := x)"
  shows "written j d' cs m"
  using assms target_neq_temporary [OF assms(1) _ assms(2)] by (simp add: written_def)

lemma download_path_update [simp]:
  "download_path (j\<lparr>file_num := n\<rparr>) x = download_path j x"
  by (simp add: download_path_def join_job_def)

lemma temporary_update [simp]: "temporary (j\<lparr>file_num := n\<rparr>) k = temporary j k"
  by (simp add: temporary_def)

lemma written_cong: "target j' = target j \<Longrightarrow> written j' d cs m = written j d cs m"
  by (simp add: written_def)

lemma targets_small: "targets_ok j \<Longrightarrow> k < length (files j) \<Longrightarrow> usize_of_i32 (int k) = k"
  by (rule usize_of_small) (simp add: targets_ok_def)

lemma write_data_ok:
  assumes "all_ok E" "job_file j = Some (p, n)" "contents d p = Some c"
  obtains j' d' n' where "write_data E b (b_data b) j d = (Done (), j', d')" "files j' = files j"
    "path j' = path j" "job_id j' = job_id j" "file_num j' = file_num j" "job_file j' = Some (p, n')"
    "contents d' = (contents d)(p \<mapsto> c @ block_bytes E b)"
proof (rule that)
  let ?out = "block_bytes E b"
  show "write_data E b (b_data b) j d = (Done (),
      j\<lparr>job_file := Some (p, n + length ?out), finished_size := finished_size j + length ?out,
        transferred := transferred j + length (b_data b)\<rparr>,
      d\<lparr>contents := (contents d)(p \<mapsto> c @ ?out)\<rparr>)"
    using assms by (simp add: write_data_def all_ok_def block_bytes_def Let_def)
qed simp_all

lemma job_paths_cong:
  "files j' = files j \<Longrightarrow> path j' = path j \<Longrightarrow> target j' = target j \<and> temporary j' = temporary j"
  by (auto simp: target_def temporary_def download_path_def join_job_def fun_eq_iff)

text \<open>A further block of the file that is open.\<close>

lemma write_same_file:
  assumes E: "all_ok E" and t: "targets_ok j" and w: "writer_at j d cs k c"
    and b: "b_id b = job_id j" "b_file_num b = int k"
  shows "\<exists>j' d'. write_block E b None j d = (Done (), j', d') \<and> files j' = files j \<and> path j' = path j \<and>
    job_id j' = job_id j \<and> writer_at j' d' cs k (c @ block_bytes E b)"
proof -
  from w obtain n where f: "job_file j = Some (temporary j k, n)" "k < length (files j)" "file_num j = int k"
    "contents d (temporary j k) = Some c" "written j d cs k"
    by (auto simp: writer_at_def)
  obtain j' d' n' where s: "write_data E b (b_data b) j d = (Done (), j', d')"
    "files j' = files j" "path j' = path j" "job_id j' = job_id j" "file_num j' = file_num j"
    "job_file j' = Some (temporary j k, n')"
    "contents d' = (contents d)(temporary j k \<mapsto> c @ block_bytes E b)"
    by (rule write_data_ok [OF E f(1,4), of b])
  have "write_block E b None j d = (Done (), j', d')"
    using s(1) f b targets_small [OF t f(2)] by (simp add: write_block_def Let_def)
  moreover have "written j' d' cs k"
    using written_temporary [OF t f(2) _ f(5) s(7)] f(2)
    unfolding written_cong [OF conjunct1 [OF job_paths_cong [OF s(2,3)]]] by simp
  moreover have "temporary j' k = temporary j k" using job_paths_cong [OF s(2,3)] by simp
  ultimately have "writer_at j' d' cs k (c @ block_bytes E b)"
    using s(2,5,6,7) f(2,3) by (simp add: writer_at_def)
  with \<open>write_block E b None j d = (Done (), j', d')\<close> s(2,3,4) show ?thesis by blast
qed

text \<open>The rename of the previous file, whatever was there.\<close>

lemma modify_time_written:
  assumes t: "targets_ok j" and w: "writer_at j d cs k (cs ! k)"
  shows "written j (modify_time j d) cs (Suc k)"
proof -
  from w have k: "k < length (files j)" "file_num j = int k" "contents d (temporary j k) = Some (cs ! k)"
    "written j d cs k" by (auto simp: writer_at_def)
  have "contents (modify_time j d) = ((contents d)(temporary j k := None))(target j k \<mapsto> cs ! k)"
    using k targets_small [OF t k(1)]
    by (simp add: modify_time_def Let_def target_def [symmetric] temporary_def [symmetric])
  moreover have "target j i \<noteq> target j k" if "i < k" for i
    using t k(1) that by (auto simp: targets_ok_def)
  moreover have "target j i \<noteq> temporary j k" if "i \<le> k" for i
    using target_neq_temporary [OF t _ k(1)] k(1) that by simp
  ultimately show ?thesis
    using k(4) by (simp add: written_def less_Suc_eq)
qed

text \<open>The first block of the next file.\<close>

lemma write_next_file:
  assumes E: "all_ok E" and t: "targets_ok j" and k: "k < length (files j)"
    and w: "k = 0 \<and> writer_fresh j \<or> (\<exists>i. k = Suc i \<and> writer_at j d cs i (cs ! i))"
    and b: "b_id b = job_id j" "b_file_num b = int k"
  shows "\<exists>j' d'. write_block E b None j d = (Done (), j', d') \<and> files j' = files j \<and> path j' = path j \<and>
    job_id j' = job_id j \<and> writer_at j' d' cs k (block_bytes E b)"
proof -
  let ?d = "modify_time j d"
  let ?j = "j\<lparr>file_num := int k, job_file := Some (temporary j k, 0)\<rparr>"
  let ?d1 = "?d\<lparr>contents := (contents ?d)(temporary j k \<mapsto> [])\<rparr>"
  have wr: "written j ?d cs k"
    using w modify_time_written [OF t] by (auto simp: written_def)
  have ne: "usize_of_i32 (int k) \<noteq> usize_of_i32 (file_num j) \<or> job_file j = None"
    using w k targets_small [OF t] by (auto simp: writer_fresh_def writer_at_def)
  obtain j' d' n' where
    s: "write_data E b (b_data b) ?j ?d1 = (Done (), j', d')" "files j' = files ?j" "path j' = path ?j"
    "job_id j' = job_id ?j" "file_num j' = file_num ?j" "job_file j' = Some (temporary j k, n')"
    "contents d' = (contents ?d1)(temporary j k \<mapsto> [] @ block_bytes E b)"
    by (rule write_data_ok [OF E, of ?j "temporary j k" 0 ?d1 "[]" b]) simp_all
  have p: "target j' = target j \<and> temporary j' = temporary j"
    using s(2,3) by (intro job_paths_cong) simp_all
  have "write_block E b None j d = (Done (), j', d')"
    using s(1) ne k b targets_small [OF t k] E
    by (auto simp: write_block_def Let_def all_ok_def simp flip: temporary_def)
  moreover have "written j' d' cs k"
    using written_temporary [OF t k _ wr, of d' "Some (block_bytes E b)"] k s(7)
    unfolding written_cong [OF conjunct1 [OF p]] by simp
  ultimately have "writer_at j' d' cs k (block_bytes E b)"
    using s(2,5,6,7) k p by (simp add: writer_at_def)
  moreover have "files j' = files j" "path j' = path j" "job_id j' = job_id j" using s(2,3,4) by simp_all
  ultimately show ?thesis using \<open>write_block E b None j d = (Done (), j', d')\<close> by blast
qed

definition sources_ok :: "transfer_job \<Rightarrow> disk \<Rightarrow> bytes list \<Rightarrow> bool" where
  "sources_ok j d cs \<longleftrightarrow> length (files j) = length cs \<and>
     (\<forall>i < length cs. contents d (target j i) = Some (cs ! i))"

definition pump_inv ::
  "transfer_job \<Rightarrow> transfer_job \<Rightarrow> disk \<Rightarrow> bytes list \<Rightarrow> nat \<Rightarrow> nat \<Rightarrow> bool" where
  "pump_inv jr jw dw cs k pos \<longleftrightarrow>
     length (files jw) = length (files jr) \<and> job_id jw = job_id jr \<and> file_num jr = int k \<and> k \<le> length cs \<and>
     (pos = 0 \<and> job_file jr = None \<and>
        (k = 0 \<and> writer_fresh jw \<or> (\<exists>i. k = Suc i \<and> writer_at jw dw cs i (cs ! i))) \<or>
      pos > 0 \<and> k < length cs \<and> pos \<le> length (cs ! k) \<and> job_file jr = Some (target jr k, pos) \<and>
        writer_at jw dw cs k (take pos (cs ! k)))"

text \<open>How many blocks are still to come, at most.\<close>

definition blocks_left :: "bytes list \<Rightarrow> nat \<Rightarrow> nat \<Rightarrow> nat" where
  "blocks_left cs k pos = sum_list (map (\<lambda>c. Suc (length c)) (drop k cs)) - pos"

lemma blocks_left_Cons:
  "k < length cs \<Longrightarrow> pos \<le> length (cs ! k) \<Longrightarrow>
     blocks_left cs k pos = Suc (length (cs ! k)) - pos + blocks_left cs (Suc k) 0"
  by (simp add: blocks_left_def flip: Cons_nth_drop_Suc)

lemma write_pumped:
  assumes E: "all_ok E" and t: "targets_ok jw" and s: "length (files jr) = length cs"
    and inv: "pump_inv jr jw dw cs k pos" and k: "k < length cs"
    and b: "b_id b = job_id jr" "b_file_num b = int k"
  obtains jw' dw' where "write_block E b None jw dw = (Done (), jw', dw')" "files jw' = files jw"
    "path jw' = path jw" "job_id jw' = job_id jw" "writer_at jw' dw' cs k (take pos (cs ! k) @ block_bytes E b)"
proof (cases "pos = 0")
  case True
  with inv have w: "k = 0 \<and> writer_fresh jw \<or> (\<exists>i. k = Suc i \<and> writer_at jw dw cs i (cs ! i))"
    by (auto simp: pump_inv_def)
  have "k < length (files jw)" "b_id b = job_id jw" using inv s k b by (simp_all add: pump_inv_def)
  from write_next_file [OF E t this(1) w this(2) b(2)] True that show ?thesis by auto
next
  case False
  with inv have w: "writer_at jw dw cs k (take pos (cs ! k))" by (auto simp: pump_inv_def)
  have "b_id b = job_id jw" using inv b by (simp add: pump_inv_def)
  from write_same_file [OF E t w this b(2)] that show ?thesis by auto
qed

lemma pump_correct:
  "all_ok E \<Longrightarrow> zstd_law E \<Longrightarrow> targets_ok jw \<Longrightarrow> sources_ok jr dr cs \<Longrightarrow> pump_inv jr jw dw cs k pos \<Longrightarrow>
     blocks_left cs k pos < n \<Longrightarrow>
     \<exists>dw'. pump E n jr dr jw dw = (True, dw') \<and> written jw dw' cs (length cs)"
proof (induction n arbitrary: jr jw dw k pos)
  case (Suc n)
  note E = Suc.prems(1,2) and t = Suc.prems(3) and src = Suc.prems(4) and inv = Suc.prems(5)
  have fs: "length (files jw) = length (files jr)" "length (files jr) = length cs" "file_num jr = int k" "k \<le> length cs"
    using inv src by (auto simp: pump_inv_def sources_ok_def)
  have lt: "k < 2 ^ 31" using t fs by (simp add: targets_ok_def)
  show ?case
  proof (cases "k = length cs")
    case True
    then have "read E jr dr = (Done None, jr\<lparr>job_file := None\<rparr>)"
      using fs usize_of_small [OF lt] by (simp add: read_def Let_def)
    then have p: "pump E (Suc n) jr dr jw dw = (True, modify_time jw dw)" by simp
    have "written jw (modify_time jw dw) cs (length cs)"
      using inv True modify_time_written [OF t] by (auto simp: pump_inv_def written_def)
    with p show ?thesis by blast
  next
    case False
    with fs have k: "k < length cs" by simp
    let ?c = "cs ! k"
    have pos: "pos \<le> length ?c" "job_file jr = Some (target jr k, pos) \<or> job_file jr = None \<and> pos = 0"
      using inv by (auto simp: pump_inv_def)
    have c: "contents dr (target jr k) = Some ?c" using src k by (simp add: sources_ok_def)
    obtain b jr' where r: "read E jr dr = (Done (Some b), jr')" "b_id b = job_id jr" "b_file_num b = file_num jr"
      "block_bytes E b = take BUF_SIZE (drop pos ?c)"
      "jr' = (if drop pos ?c = [] then jr\<lparr>file_num := file_num jr + 1, job_file := None\<rparr>
          else jr\<lparr>job_file := Some (target jr k, pos + length (take BUF_SIZE (drop pos ?c))),
                 finished_size := finished_size jr', transferred := transferred jr'\<rparr>)"
      using read_block [OF E, of jr k "target jr k" dr ?c pos] usize_of_small [OF lt] fs k c pos(2)
      unfolding target_def by auto
    obtain jw' dw' where w: "write_block E b None jw dw = (Done (), jw', dw')" "files jw' = files jw"
      "path jw' = path jw" "job_id jw' = job_id jw" "writer_at jw' dw' cs k (take pos ?c @ block_bytes E b)"
      by (rule write_pumped [OF E(1) t fs(2) inv k r(2)]) (simp add: r(3) fs(3))
    have tw: "target jw' = target jw" "temporary jw' = temporary jw"
      using job_paths_cong [OF w(2,3)] by simp_all
    have t': "targets_ok jw'" using t w(2) tw by (simp add: targets_ok_def)
    have jr': "files jr' = files jr" "path jr' = path jr" "job_id jr' = job_id jr"
      by (subst r(5), simp)+
    then have tr: "target jr' = target jr" using job_paths_cong by blast
    then have src': "sources_ok jr' dr cs" using src jr'(1) by (simp add: sources_ok_def)
    let ?k = "if drop pos ?c = [] then Suc k else k"
    let ?pos = "if drop pos ?c = [] then 0 else pos + length (take BUF_SIZE (drop pos ?c))"
    have jrn: "file_num jr' = int ?k" "job_file jr' = (if drop pos ?c = [] then None else Some (target jr k, ?pos))"
      by (subst r(5), simp add: fs(3))+
    have buf: "BUF_SIZE > 0" by (simp add: BUF_SIZE_def)
    have app: "take pos ?c @ take BUF_SIZE (drop pos ?c) = take (pos + length (take BUF_SIZE (drop pos ?c))) ?c"
      by (simp add: take_add min_def)
    have "pump_inv jr' jw' dw' cs ?k ?pos"
    proof (cases "drop pos ?c = []")
      case True
      then have "writer_at jw' dw' cs k ?c" using w(5) r(4) by simp
      with True k jrn w(2,4) jr' fs inv show ?thesis by (simp add: pump_inv_def)
    next
      case False
      then have "writer_at jw' dw' cs k (take ?pos ?c)" using w(5) r(4) app by simp
      moreover have "?pos > 0" "?pos \<le> length ?c" using False buf pos(1) by auto
      ultimately show ?thesis using False k jrn w(2,4) jr' fs inv tr by (simp add: pump_inv_def)
    qed
    moreover have "blocks_left cs ?k ?pos < n"
    proof (cases "drop pos ?c = []")
      case True
      with Suc.prems(6) blocks_left_Cons [OF k pos(1)] pos(1) show ?thesis by simp
    next
      case False
      obtain L where L: "length (take BUF_SIZE (drop pos ?c)) = L" by blast
      have "L > 0" "pos + L \<le> length ?c" using False buf pos(1) L by auto
      then have "blocks_left cs k (pos + L) < n"
        using Suc.prems(6) blocks_left_Cons [OF k pos(1)] blocks_left_Cons [OF k, of "pos + L"] pos(1) by linarith
      then show ?thesis using False by (simp only: L if_False)
    qed
    ultimately obtain dwf where "pump E n jr' dr jw' dw' = (True, dwf)" "written jw' dwf cs (length cs)"
      using Suc.IH [OF E t' src'] by blast
    moreover have "pump E (Suc n) jr dr jw dw = pump E n jr' dr jw' dw'" using r(1) w(1) by simp
    moreover have "written jw dwf cs (length cs) = written jw' dwf cs (length cs)"
      using tw(1) by (simp add: written_def)
    ultimately show ?thesis by simp
  qed
qed simp

text \<open>The bytes of a block may come beside it.\<close>

lemma write_block_raw:
  "write_block E \<lparr>b_id = i, b_file_num = n, b_data = [], b_compressed = z\<rparr> (Some bs) j d =
     write_block E \<lparr>b_id = i, b_file_num = n, b_data = bs, b_compressed = z\<rparr> None j d"
  by (simp only: write_block_def write_data_def Let_def file_transfer_block.select_convs option.case)

subsection \<open>Properties\<close>

text \<open>
  A whole transfer. When the operating system fails nothing and zstd undoes its own work, the
  blocks a read job sends, written by a write job with as many files, leave every file at its place
  under the writer's path with exactly the reader's contents, after a bounded number of
  blocks; short reads, compression and empty files included.
\<close>

lemma pump_copies:
  assumes "all_ok E" "zstd_law E" "length (files jw) = length (files jr)" "job_id jw = job_id jr"
    "file_num jr = 0" "job_file jr = None" "file_num jw = 0" "job_file jw = None"
    "targets_ok jw" "sources_ok jr dr cs" "sum_list (map (\<lambda>c. Suc (length c)) cs) < n"
  shows "\<exists>dw'. pump E n jr dr jw dw = (True, dw') \<and>
    (\<forall>i < length cs. contents dw' (target jw i) = Some (cs ! i))"
proof -
  have "pump_inv jr jw dw cs 0 0" using assms(3-8) by (simp add: pump_inv_def writer_fresh_def)
  moreover have "blocks_left cs 0 0 < n" using assms(11) by (simp add: blocks_left_def)
  ultimately show ?thesis
    using pump_correct [OF assms(1,2,9,10)] by (simp add: written_def)
qed

definition sample_fs :: fs_env where
  "sample_fs = \<lparr>open_ok = (\<lambda>_. True), read_ok = (\<lambda>_ _. True), create_ok = (\<lambda>_. True), write_ok = (\<lambda>_. True),
     sync_ok = (\<lambda>_. True), read_size = (\<lambda>_. 1), zstd_compress = (\<lambda>d. Some (42 # d)),
     zstd_decompress = (\<lambda>n c. Some (tl c))\<rparr>"

lemma sample_fs_ok: "all_ok sample_fs" "zstd_law sample_fs"
  by (simp_all add: all_ok_def zstd_law_def sample_fs_def)

definition sample_entry :: "string \<Rightarrow> file_entry" where
  "sample_entry n = \<lparr>entry_type = RegFile, f_name = n, is_hidden = False, f_size = 0, modified_time = 0\<rparr>"

definition sample_disk :: disk where
  "sample_disk = \<lparr>contents = [''s/a'' \<mapsto> [1, 2, 3], ''s/b'' \<mapsto> []], mtimes = Map.empty\<rparr>"

text \<open>
  When zstd fails to compress a block, the reader sends an empty block marked as compressed
  and goes on: the bytes it read are in no block and no error is reported.
\<close>

theorem failed_compression_loses_data:
  assumes "usize_of_i32 (file_num j) < length (files j)" "name = f_name (files j ! usize_of_i32 (file_num j))"
    "job_file j = Some (p, pos)" "read_ok E p pos" "contents d p = Some c" "drop pos c \<noteq> []"
    "\<not> is_compressed_file name" "zstd_compress E (take BUF_SIZE (drop pos c)) = None"
  shows "\<exists>b j'. read E j d = (Done (Some b), j') \<and> b_data b = [] \<and> b_compressed b \<and>
    finished_size j' = finished_size j + length (take BUF_SIZE (drop pos c)) \<and>
    job_file j' = Some (p, pos + length (take BUF_SIZE (drop pos c)))"
proof -
  have f: "fill_buffer (read_size E) (drop pos c) [] = take BUF_SIZE (drop pos c)" by (simp add: fill_buffer_eq)
  have "take BUF_SIZE (drop pos c) \<noteq> []" using assms(6) by (simp add: BUF_SIZE_def)
  moreover have "BUF_SIZE > 0" by (simp add: BUF_SIZE_def)
  ultimately show ?thesis using assms f by (simp add: read_def Let_def compress_def)
qed

theorem failed_compression_loses_data_witness:
  "\<exists>b j'. read (sample_fs\<lparr>zstd_compress := \<lambda>_. None\<rparr>)
      ((new_write 7 ''s'' [sample_entry ''a''])\<lparr>job_file := Some (''s/a'', 0)\<rparr>) sample_disk = (Done (Some b), j') \<and>
     b_data b = [] \<and> job_file j' = Some (''s/a'', 3)"
proof -
  let ?j = "(new_write 7 ''s'' [sample_entry ''a''])\<lparr>job_file := Some (''s/a'', 0)\<rparr>"
  let ?E = "sample_fs\<lparr>zstd_compress := \<lambda>_. None\<rparr>"
  have f: "\<not> is_compressed_file ''a''" by (simp add: is_compressed_file_def get_ext_def)
  have t: "take BUF_SIZE [1, 2, 3 :: u8] = [1, 2, 3]" by (simp add: BUF_SIZE_def)
  from failed_compression_loses_data [of ?j "''a''" "''s/a''" 0 ?E sample_disk "[1, 2, 3]"] f
  show ?thesis
    by (auto simp: new_write_def usize_of_i32_def sample_entry_def sample_disk_def sample_fs_def t)
qed

text \<open>
  A block of another job, or for a file number outside the list (a negative one included), is
  an error that changes neither the job nor the disk.
\<close>

theorem write_rejects_foreign_block:
  "b_id b \<noteq> job_id j \<or> usize_of_i32 (b_file_num b) \<ge> length (files j) \<longleftrightarrow>
     write_block E b raw j d = (Failed (if b_id b \<noteq> job_id j then ''Wrong id'' else ''Wrong file number''), j, d)"
  by (auto simp: write_block_def write_data_def Let_def split: option.splits prod.splits)

theorem write_rejects_foreign_block_witness:
  "write_block sample_fs \<lparr>b_id = 7, b_file_num = -1, b_data = [], b_compressed = False\<rparr> None
     (new_write 7 ''s'' [sample_entry ''a'']) sample_disk =
     (Failed ''Wrong file number'', new_write 7 ''s'' [sample_entry ''a''], sample_disk)"
  using write_rejects_foreign_block [of "\<lparr>b_id = 7, b_file_num = -1, b_data = [], b_compressed = False\<rparr>"
      "new_write 7 ''s'' [sample_entry ''a'']" sample_fs None sample_disk]
  by (simp add: new_write_def usize_of_i32_def)

text \<open>
  C35: The names of a write job come from the peer and are not confined to the job's directory: an
  absolute name is the path that is created, whatever the directory is.
\<close>

theorem absolute_name_escapes_directory:
  assumes "all_ok E" "b_id b = job_id j" "b_file_num b = 0" "job_file j = None"
    "files j = [e]" "f_name e = CHR ''/'' # n" "b_compressed b = False"
  shows "\<exists>j' d'. write_block E b None j d = (Done (), j', d') \<and>
    contents d' ((CHR ''/'' # n) @ ''.download'') = Some (b_data b)"
proof -
  have "join_job j (f_name e) = CHR ''/'' # n" using assms(6)
    by (simp add: join_job_def join_path_def starts_with_def)
  with assms show ?thesis
    by (auto simp: write_block_def write_data_def all_ok_def usize_of_i32_def download_path_def join_job_def Let_def)
qed

theorem absolute_name_escapes_directory_witness:
  "\<exists>j' d'. write_block sample_fs \<lparr>b_id = 7, b_file_num = 0, b_data = [9], b_compressed = False\<rparr> None
      (new_write 7 ''t'' [sample_entry ''/etc/x'']) sample_disk = (Done (), j', d') \<and>
     contents d' ''/etc/x.download'' = Some [9]"
  using absolute_name_escapes_directory [OF sample_fs_ok(1), of "\<lparr>b_id = 7, b_file_num = 0, b_data = [9], b_compressed = False\<rparr>"
      "new_write 7 ''t'' [sample_entry ''/etc/x'']" "sample_entry ''/etc/x''" "''etc/x''" sample_disk]
  by (simp add: new_write_def sample_entry_def)

text \<open>The sizes and times of the regular files below a node.\<close>

fun regulars :: "node \<Rightarrow> (nat \<times> nat) list" where
  "regulars (Regular sz t) = [(sz, t)]"
| "regulars (Folder r t es) = concat (map (\<lambda>(n, c). regulars c) es)"
| "regulars (Link d t) = []"

text \<open>
  C0: \<open>remove_all_empty_dir\<close> never deletes a regular file: what it leaves has the same regular
  files, in the same order, and a directory it removes had none.
\<close>

theorem remove_empty_keeps_files:
  "(case remove_all_empty_dir nd of Some nd' \<Rightarrow> regulars nd' | None \<Rightarrow> []) = regulars nd"
proof (induction nd rule: remove_all_empty_dir.induct)
  case (1 t es)
  let ?keep = "\<lambda>(n, c). case c of
          Folder r t' cs \<Rightarrow> (if n = [] then [(n, c)]
            else case remove_all_empty_dir c of Some c' \<Rightarrow> [(n, c')] | None \<Rightarrow> [])
        | Link d t' \<Rightarrow> if n = [] then [(n, c)] else []
        | Regular sz t' \<Rightarrow> [(n, c)]"
  have step: "concat (map (\<lambda>(n, c). regulars c) (?keep e)) = (case e of (n, c) \<Rightarrow> regulars c)"
    if "e \<in> set es" for e
  proof (cases e)
    case (Pair n c)
    show ?thesis
    proof (cases c)
      case (Folder r t' cs)
      then show ?thesis
        using "1.IH" [OF that Pair [symmetric] Folder] Pair
        by (cases "n = []") (auto split: option.splits)
    qed (use Pair in auto)
  qed
  have "set xs \<subseteq> set es \<Longrightarrow> concat (map (\<lambda>(n, c). regulars c) (concat (map ?keep xs))) =
      concat (map (\<lambda>(n, c). regulars c) xs)" for xs
  proof (induction xs)
    case (Cons e xs)
    then show ?case using step [of e] by (simp del: split_paired_All)
  qed simp
  from this [of es] have e: "concat (map (\<lambda>(n, c). regulars c) (concat (map ?keep es))) = regulars (Folder True t es)"
    by simp
  obtain es' where es': "es' = concat (map ?keep es)" by blast
  have "remove_all_empty_dir (Folder True t es) = (if es' = [] then None else Some (Folder True t es'))"
    unfolding es' by (subst remove_all_empty_dir.simps) (simp only: Let_def)
  with e show ?case unfolding es' [symmetric] by (cases "es' = []") simp_all
qed auto

text \<open>
  A file that cannot be opened or read is reported under the number of the file after it: the
  job steps over it before the error message takes the number.
\<close>

theorem read_error_names_next_file:
  assumes "fst (read E j d) = Failed err" "snd_ok (new_error (job_id j) err (file_num j + 1))"
  shows "fst (snd (handle_read_jobs E snd_ok d [j])) = [new_error (job_id j) err (file_num j + 1)]"
proof -
  obtain j' where r: "read E j d = (Failed err, j')" using assms(1) by (cases "read E j d") auto
  then have "file_num j' = file_num j + 1 \<and> job_id j' = job_id j"
    by (auto simp: read_def Let_def split: if_splits prod.splits option.splits)
  with r assms(2) show ?thesis by (simp add: handle_read_jobs_def)
qed

theorem read_error_names_next_file_witness:
  "fst (snd (handle_read_jobs sample_fs (\<lambda>_. True) sample_disk [new_write 7 ''s'' [sample_entry ''nothere'']])) =
     [new_error 7 ''open'' 1]"
proof -
  have "fst (read sample_fs (new_write 7 ''s'' [sample_entry ''nothere'']) sample_disk) = Failed ''open''"
    by (simp add: read_def new_write_def usize_of_i32_def sample_entry_def sample_disk_def
        join_job_def join_path_def starts_with_def Let_def)
  from read_error_names_next_file [OF this, of "\<lambda>_. True"] show ?thesis by (simp add: new_write_def)
qed

lemma dir_entry_simps [simp]: "is_hidden (dir_entry n nd) = starts_with ''.'' n"
  by (cases nd) (simp_all add: dir_entry_def)

fun without_hidden :: "node \<Rightarrow> node" where
  "without_hidden (Folder r t es) =
     Folder r t (concat (map (\<lambda>(n, c). if starts_with ''.'' n then [] else [(n, without_hidden c)]) es))"
| "without_hidden nd = nd"

lemma concat_map_concat: "concat (map f (concat (map g xs))) = concat (map (\<lambda>x. concat (map f (g x))) xs)"
  by (induction xs) simp_all

text \<open>
  A recursive listing without hidden files is the full listing of the tree without its hidden
  nodes: nothing below a hidden directory is listed either.
\<close>

theorem hidden_files_not_listed:
  "read_dir_recursive nd prefix False = read_dir_recursive (without_hidden nd) prefix True"
proof -
  have "hid = False \<longrightarrow> read_dir_recursive nd prefix hid = read_dir_recursive (without_hidden nd) prefix True" for hid
  proof (induction nd prefix hid rule: read_dir_recursive.induct)
    case (4 t es prefix hid)
    have "(case e of (n, c) \<Rightarrow> if \<not> listed False (n, c) then []
         else case c of
           Regular sz t \<Rightarrow> [(dir_entry n c)\<lparr>f_name := join_path prefix n\<rparr>]
         | Folder r t' es' \<Rightarrow> (case read_dir_recursive c (join_path prefix n) False of Some fs \<Rightarrow> fs | None \<Rightarrow> [])
         | Link d t \<Rightarrow> []) =
       concat (map (\<lambda>(n, c). if \<not> listed True (n, c) then []
         else case c of
           Regular sz t \<Rightarrow> [(dir_entry n c)\<lparr>f_name := join_path prefix n\<rparr>]
         | Folder r t' es' \<Rightarrow> (case read_dir_recursive c (join_path prefix n) True of Some fs \<Rightarrow> fs | None \<Rightarrow> [])
         | Link d t \<Rightarrow> []) (case e of (n, c) \<Rightarrow> if starts_with ''.'' n then [] else [(n, without_hidden c)]))"
      if "e \<in> set es" "hid = False" for e
    proof (cases e)
      case (Pair n c)
      show ?thesis
      proof (cases c)
        case (Folder r t' cs)
        show ?thesis
        proof (cases "listed False (n, c)")
          case True
          then have "\<not> starts_with ''.'' n" "listed True (n, without_hidden c)" by (simp_all add: listed_def)
          moreover have "read_dir_recursive c (join_path prefix n) False =
              read_dir_recursive (without_hidden c) (join_path prefix n) True"
            using "4.IH" [OF that(1) Pair [symmetric] _ Folder] True that(2) Folder by simp
          ultimately show ?thesis using Pair Folder True by simp
        next
          case False
          then show ?thesis using Pair Folder by (auto simp: listed_def)
        qed
      qed (use Pair in \<open>auto simp: listed_def\<close>)
    qed
    then show ?case
      by (auto simp: concat_map_concat intro!: arg_cong [where f = concat] map_cong)
  qed simp_all
  then show ?thesis by blast
qed

end
