(* ===== verification/Config.thy ===== *)
theory Config
  imports Net_Addr Version "HOL-Library.AList"
begin

text \<open>
  The settings of the client, \<open>libs/hbb_common/src/config.rs\<close>: two files of settings that a process
  keeps in memory (\<open>CONFIG\<close>, \<open>CONFIG2\<close>), those of the local user interface (\<open>LOCAL_CONFIG\<close>) and one
  file for every peer that was connected to. A setter changes the copy in memory and writes the
  whole file; the error of a failed write is only logged.

  The environment says whether the disk takes a write, the MAC address, the key pair a call of
  libsodium would give, and the time. The random numbers drawn are a field of the state. Iteration
  over a \<open>HashMap\<close> is the order of an association list. A path below the configuration directory is
  the list of its components; the id of a peer is taken to have no path separator.

  The locale \<open>option_store\<close> is what callers rely on of a table of texts: the options of the service,
  those of the user interface and the permissions of the peers are three of them.
\<close>

subsection \<open>Data\<close>

definition SERIAL :: int where "SERIAL = 1"

definition RENDEZVOUS_PORT :: nat where "RENDEZVOUS_PORT = 21116"

definition RENDEZVOUS_SERVERS :: "string list" where
  "RENDEZVOUS_SERVERS = [''kdtc-gz.kingdee.com'', ''kdtc-bj.kingdee.com'']"

definition CHARS :: string where "CHARS = ''23456789abcdefghijkmnpqrstuvwxyz''"

record config =
  c_id :: string
  c_password :: string
  c_salt :: string
  c_cstdir :: string
  c_pwdupd :: string
  c_idle :: string
  c_flagex :: string
  c_uid :: string
  key_pair :: "bytes \<times> bytes"
  key_confirmed :: bool
  keys_confirmed :: "string \<rightharpoonup> bool"

record socks5_server =
  s_proxy :: string
  s_username :: string
  s_password :: string

record config2 =
  rendezvous_server :: string
  nat_number :: int
  serial :: int
  socks :: "socks5_server option"
  permissions :: "string \<rightharpoonup> string"
  options :: "string \<rightharpoonup> string"

type_synonym win_size = "int \<times> int \<times> int \<times> int"

record local_config =
  remote_id :: string
  l_size :: win_size
  fav :: "string list"
  local_options :: "string \<rightharpoonup> string"

record peer_info_serde =
  i_username :: string
  i_hostname :: string
  i_platform :: string
  i_uid :: string

record peer_config =
  pc_password :: bytes
  pc_size :: win_size
  size_ft :: win_size
  size_pf :: win_size
  view_style :: string
  pc_image_quality :: string
  pc_custom_image_quality :: "int list"
  pc_show_remote_cursor :: bool
  pc_lock_after_session_end :: bool
  pc_privacy_mode :: bool
  port_forwards :: "(int \<times> string \<times> int) list"
  direct_failures :: int
  pc_disable_audio :: bool
  pc_disable_clipboard :: bool
  pc_enable_file_transfer :: bool
  pc_options :: "string \<rightharpoonup> string"
  pc_info :: peer_info_serde

definition default_peer_config :: peer_config where
  "default_peer_config = \<lparr>pc_password = [], pc_size = (0, 0, 0, 0), size_ft = (0, 0, 0, 0), size_pf = (0, 0, 0, 0),
     view_style = [], pc_image_quality = [], pc_custom_image_quality = [], pc_show_remote_cursor = False,
     pc_lock_after_session_end = False, pc_privacy_mode = False, port_forwards = [], direct_failures = 0,
     pc_disable_audio = False, pc_disable_clipboard = False, pc_enable_file_transfer = False,
     pc_options = Map.empty, pc_info = \<lparr>i_username = [], i_hostname = [], i_platform = [], i_uid = []\<rparr>\<rparr>"

text \<open>A file of a peer: when it was written, and what it parses to.\<close>

record peer_file =
  pf_time :: nat
  pf_content :: "peer_config option"

record config_env =
  disk_ok :: bool
  mac_address :: "bytes option"
  gen_keypair :: "bytes \<times> bytes"
  clock :: nat

record settings =
  config :: config
  config2 :: config2
  local_conf :: local_config
  online :: "(string \<times> int) list"
  stored :: config
  stored2 :: config2
  stored_local :: local_config
  peer_files :: "(string list \<times> peer_file) list"
  history :: "(string \<times> peer_info_serde) list"
  rng :: "nat \<Rightarrow> nat"

definition default_config :: config where
  "default_config = \<lparr>c_id = [], c_password = [], c_salt = [], c_cstdir = [], c_pwdupd = [], c_idle = [], c_flagex = [],
     c_uid = [], key_pair = ([], []), key_confirmed = False, keys_confirmed = Map.empty\<rparr>"

definition default_config2 :: config2 where
  "default_config2 = \<lparr>rendezvous_server = [], nat_number = 0, serial = 0, socks = None, permissions = Map.empty,
     options = Map.empty\<rparr>"

definition default_settings :: settings where
  "default_settings = (let l = \<lparr>remote_id = [], l_size = (0, 0, 0, 0), fav = [], local_options = Map.empty\<rparr> in
     \<lparr>config = default_config, config2 = default_config2, local_conf = l, online = [], stored = default_config,
      stored2 = default_config2, stored_local = l, peer_files = [], history = [], rng = (\<lambda>_. 0)\<rparr>)"

subsection \<open>Writing the files\<close>

definition store_config :: "'e config_env_scheme \<Rightarrow> (config \<Rightarrow> config) \<Rightarrow> 's settings_scheme \<Rightarrow> 's settings_scheme" where
  "store_config E f S = (let c = f (config S) in S\<lparr>config := c, stored := if disk_ok E then c else stored S\<rparr>)"

definition store_config2 ::
  "'e config_env_scheme \<Rightarrow> (config2 \<Rightarrow> config2) \<Rightarrow> 's settings_scheme \<Rightarrow> 's settings_scheme" where
  "store_config2 E f S = (let c = f (config2 S) in S\<lparr>config2 := c, stored2 := if disk_ok E then c else stored2 S\<rparr>)"

definition store_local ::
  "'e config_env_scheme \<Rightarrow> (local_config \<Rightarrow> local_config) \<Rightarrow> 's settings_scheme \<Rightarrow> 's settings_scheme" where
  "store_local E f S =
     (let c = f (local_conf S) in S\<lparr>local_conf := c, stored_local := if disk_ok E then c else stored_local S\<rparr>)"

subsection \<open>The service's settings\<close>

definition set_id :: "'e config_env_scheme \<Rightarrow> string \<Rightarrow> 's settings_scheme \<Rightarrow> 's settings_scheme" where
  "set_id E i S = (if i = c_id (config S) then S else store_config E (\<lambda>c. c\<lparr>c_id := i\<rparr>) S)"

definition set_nat_type :: "'e config_env_scheme \<Rightarrow> int \<Rightarrow> 's settings_scheme \<Rightarrow> 's settings_scheme" where
  "set_nat_type E t S = (if t = nat_number (config2 S) then S else store_config2 E (\<lambda>c. c\<lparr>nat_number := t\<rparr>) S)"

definition get_nat_type :: "'s settings_scheme \<Rightarrow> int" where
  "get_nat_type S = nat_number (config2 S)"

definition set_serial :: "'e config_env_scheme \<Rightarrow> int \<Rightarrow> 's settings_scheme \<Rightarrow> 's settings_scheme" where
  "set_serial E n S = (if n = serial (config2 S) then S else store_config2 E (\<lambda>c. c\<lparr>serial := n\<rparr>) S)"

definition get_serial :: "'s settings_scheme \<Rightarrow> int" where
  "get_serial S = max (serial (config2 S)) SERIAL"

definition get_option :: "string \<Rightarrow> 's settings_scheme \<Rightarrow> string" where
  "get_option k S = (case options (config2 S) k of Some v \<Rightarrow> v | None \<Rightarrow> [])"

definition set_option :: "'e config_env_scheme \<Rightarrow> string \<Rightarrow> string \<Rightarrow> 's settings_scheme \<Rightarrow> 's settings_scheme" where
  "set_option E k v S =
     (let v2 = (if v = [] then None else Some v) in
      if v2 \<noteq> options (config2 S) k then store_config2 E (\<lambda>c. c\<lparr>options := (options c)(k := v2)\<rparr>) S else S)"

definition get_options :: "'s settings_scheme \<Rightarrow> string \<rightharpoonup> string" where
  "get_options S = options (config2 S)"

definition set_options ::
  "'e config_env_scheme \<Rightarrow> (string \<rightharpoonup> string) \<Rightarrow> 's settings_scheme \<Rightarrow> 's settings_scheme" where
  "set_options E v S = (if options (config2 S) = v then S else store_config2 E (\<lambda>c. c\<lparr>options := v\<rparr>) S)"

definition get_permission :: "string \<Rightarrow> 's settings_scheme \<Rightarrow> string" where
  "get_permission k S = (case permissions (config2 S) k of Some v \<Rightarrow> v | None \<Rightarrow> [])"

definition get_peer_permission :: "string \<Rightarrow> string \<Rightarrow> 's settings_scheme \<Rightarrow> string" where
  "get_peer_permission peer p S = get_permission (peer @ ''->'' @ p) S"

definition set_permission ::
  "'e config_env_scheme \<Rightarrow> string \<Rightarrow> string \<Rightarrow> 's settings_scheme \<Rightarrow> 's settings_scheme" where
  "set_permission E k v S =
     (let v2 = (if v = [] then None else Some v) in
      if v2 \<noteq> permissions (config2 S) k
      then store_config2 E (\<lambda>c. c\<lparr>permissions := (permissions c)(k := v2)\<rparr>) S else S)"

definition set_peer_permission ::
  "'e config_env_scheme \<Rightarrow> string \<Rightarrow> string \<Rightarrow> bool \<Rightarrow> 's settings_scheme \<Rightarrow> 's settings_scheme" where
  "set_peer_permission E peer p v S = set_permission E (peer @ ''->'' @ p) (if v then ''1'' else ''0'') S"

definition get_rendezvous_servers :: "'s settings_scheme \<Rightarrow> string list" where
  "get_rendezvous_servers S =
     (let s = get_option ''custom-rendezvous-server'' S in
      if s \<noteq> [] then [s]
      else
        let ss = (if serial (config2 S) > SERIAL
          then filter (\<lambda>x. CHR ''.'' \<in> set x) (split_on (CHR '','') (get_option ''rendezvous-servers'' S)) else [])
        in if ss \<noteq> [] then ss else RENDEZVOUS_SERVERS)"

definition get_rendezvous_server :: "'s settings_scheme \<Rightarrow> string" where
  "get_rendezvous_server S =
     (let s = get_option ''custom-rendezvous-server'' S;
          s = (if s = [] then rendezvous_server (config2 S) else s);
          s = (if s = [] then (case get_rendezvous_servers S of x # _ \<Rightarrow> x | [] \<Rightarrow> []) else s)
      in if CHR '':'' \<notin> set s then s @ '':'' @ show_nat RENDEZVOUS_PORT else s)"

definition reset_online :: "'s settings_scheme \<Rightarrow> 's settings_scheme" where
  "reset_online S = S\<lparr>online := []\<rparr>"

definition fastest :: "(string \<times> int) list \<Rightarrow> string \<times> int" where
  "fastest hs = fold (\<lambda>(h, d) (host, delay). if d > 0 \<and> d < delay then (h, d) else (host, delay)) hs ([], 2 ^ 63 - 1)"

definition update_latency :: "'e config_env_scheme \<Rightarrow> string \<Rightarrow> int \<Rightarrow> 's settings_scheme \<Rightarrow> 's settings_scheme" where
  "update_latency E host latency S =
     (let S = S\<lparr>online := AList.update host latency (online S)\<rparr>; h = fst (fastest (online S)) in
      if h \<noteq> [] \<and> h \<noteq> rendezvous_server (config2 S)
      then store_config2 E (\<lambda>c. c\<lparr>rendezvous_server := h\<rparr>) S else S)"


definition get_auto_id :: "'e config_env_scheme \<Rightarrow> string option" where
  "get_auto_id E =
     (case mac_address E of
        Some ma \<Rightarrow>
          Some (show_nat (unat (foldl (\<lambda>i x. push_bit 8 i OR ucast x) (0 :: u32) (drop 2 ma) AND 0x1FFFFFFF)))
      | None \<Rightarrow> None)"

definition get_auto_password :: "'s settings_scheme \<Rightarrow> string \<times> 's settings_scheme" where
  "get_auto_password S =
     (map (\<lambda>i. CHARS ! (rng S i mod length CHARS)) [0..<6], S\<lparr>rng := (\<lambda>n. rng S (n + 6))\<rparr>)"

definition get_key_confirmed :: "'s settings_scheme \<Rightarrow> bool" where
  "get_key_confirmed S = key_confirmed (config S)"

definition set_key_confirmed :: "'e config_env_scheme \<Rightarrow> bool \<Rightarrow> 's settings_scheme \<Rightarrow> 's settings_scheme" where
  "set_key_confirmed E v S =
     (if key_confirmed (config S) = v then S
      else store_config E (\<lambda>c. let c = c\<lparr>key_confirmed := v\<rparr> in
        if \<not> v then c\<lparr>keys_confirmed := Map.empty\<rparr> else c) S)"

definition get_host_key_confirmed :: "string \<Rightarrow> 's settings_scheme \<Rightarrow> bool" where
  "get_host_key_confirmed h S \<longleftrightarrow> keys_confirmed (config S) h = Some True"

definition set_host_key_confirmed ::
  "'e config_env_scheme \<Rightarrow> string \<Rightarrow> bool \<Rightarrow> 's settings_scheme \<Rightarrow> 's settings_scheme" where
  "set_host_key_confirmed E h v S =
     (if get_host_key_confirmed h S = v then S
      else store_config E (\<lambda>c. c\<lparr>keys_confirmed := (keys_confirmed c)(h \<mapsto> v)\<rparr>) S)"

definition set_key_pair :: "'e config_env_scheme \<Rightarrow> bytes \<times> bytes \<Rightarrow> 's settings_scheme \<Rightarrow> 's settings_scheme" where
  "set_key_pair E kp S = (if key_pair (config S) = kp then S else store_config E (\<lambda>c. c\<lparr>key_pair := kp\<rparr>) S)"

text \<open>\<open>gen_keypair\<close> of the library gives the public key first; the pair stored has the secret one first.\<close>

definition get_key_pair :: "'e config_env_scheme \<Rightarrow> 's settings_scheme \<Rightarrow> (bytes \<times> bytes) \<times> 's settings_scheme" where
  "get_key_pair E S =
     (let S = (if fst (key_pair (config S)) = []
        then (case gen_keypair E of (pk, sk) \<Rightarrow> store_config E (\<lambda>c. c\<lparr>key_pair := (sk, pk)\<rparr>) S) else S)
      in (key_pair (config S), S))"

definition get_id :: "'e config_env_scheme \<Rightarrow> 's settings_scheme \<Rightarrow> string \<times> 's settings_scheme" where
  "get_id E S =
     (let i = c_id (config S) in
      if i = [] then (case get_auto_id E of Some tmp \<Rightarrow> (tmp, set_id E tmp S) | None \<Rightarrow> (i, S)) else (i, S))"

text \<open>A draw of \<open>gen_range\<close> is a number of the range.\<close>

definition update_id :: "'e config_env_scheme \<Rightarrow> 's settings_scheme \<Rightarrow> 's settings_scheme" where
  "update_id E S =
     (let S = snd (get_id E S); n = 1000000000 + rng S 0 mod 1000000000
      in set_id E (show_nat n) (S\<lparr>rng := (\<lambda>i. rng S (i + 1))\<rparr>))"

definition set_password :: "'e config_env_scheme \<Rightarrow> string \<Rightarrow> 's settings_scheme \<Rightarrow> 's settings_scheme" where
  "set_password E p S = (if p = c_password (config S) then S else store_config E (\<lambda>c. c\<lparr>c_password := p\<rparr>) S)"

definition get_password :: "'e config_env_scheme \<Rightarrow> 's settings_scheme \<Rightarrow> string \<times> 's settings_scheme" where
  "get_password E S =
     (let p = c_password (config S) in
      if p = [] then (case get_auto_password S of (p, S) \<Rightarrow> (p, set_password E p S)) else (p, S))"

definition set_cstdir :: "'e config_env_scheme \<Rightarrow> string \<Rightarrow> 's settings_scheme \<Rightarrow> 's settings_scheme" where
  "set_cstdir E v S = (if v = c_cstdir (config S) then S else store_config E (\<lambda>c. c\<lparr>c_cstdir := v\<rparr>) S)"

definition get_cstdir :: "'s settings_scheme \<Rightarrow> string" where
  "get_cstdir S = c_cstdir (config S)"

definition set_pwdupd :: "'e config_env_scheme \<Rightarrow> string \<Rightarrow> 's settings_scheme \<Rightarrow> 's settings_scheme" where
  "set_pwdupd E v S = (if v = c_pwdupd (config S) then S else store_config E (\<lambda>c. c\<lparr>c_pwdupd := v\<rparr>) S)"

definition get_pwdupd :: "'s settings_scheme \<Rightarrow> string" where
  "get_pwdupd S = (let v = c_pwdupd (config S) in if v = [] then ''1'' else v)"

definition set_idle :: "'e config_env_scheme \<Rightarrow> string \<Rightarrow> 's settings_scheme \<Rightarrow> 's settings_scheme" where
  "set_idle E v S = (if v = c_idle (config S) then S else store_config E (\<lambda>c. c\<lparr>c_idle := v\<rparr>) S)"

definition get_idle :: "'s settings_scheme \<Rightarrow> string" where
  "get_idle S = (let v = c_idle (config S) in if v = [] then ''1'' else v)"

definition set_flagex :: "'e config_env_scheme \<Rightarrow> string \<Rightarrow> 's settings_scheme \<Rightarrow> 's settings_scheme" where
  "set_flagex E v S = (if v = c_flagex (config S) then S else store_config E (\<lambda>c. c\<lparr>c_flagex := v\<rparr>) S)"

definition get_flagex :: "'s settings_scheme \<Rightarrow> string" where
  "get_flagex S = c_flagex (config S)"

definition set_uid :: "'e config_env_scheme \<Rightarrow> string \<Rightarrow> 's settings_scheme \<Rightarrow> 's settings_scheme" where
  "set_uid E v S = (if v = c_uid (config S) then S else store_config E (\<lambda>c. c\<lparr>c_uid := v\<rparr>) S)"

definition get_uid :: "'s settings_scheme \<Rightarrow> string" where
  "get_uid S = c_uid (config S)"

definition set_salt :: "'e config_env_scheme \<Rightarrow> string \<Rightarrow> 's settings_scheme \<Rightarrow> 's settings_scheme" where
  "set_salt E v S = (if v = c_salt (config S) then S else store_config E (\<lambda>c. c\<lparr>c_salt := v\<rparr>) S)"

definition get_salt :: "'e config_env_scheme \<Rightarrow> 's settings_scheme \<Rightarrow> string \<times> 's settings_scheme" where
  "get_salt E S =
     (let v = c_salt (config S) in
      if v = [] then (case get_auto_password S of (v, S) \<Rightarrow> (v, set_salt E v S)) else (v, S))"

definition set_socks :: "'e config_env_scheme \<Rightarrow> socks5_server option \<Rightarrow> 's settings_scheme \<Rightarrow> 's settings_scheme" where
  "set_socks E v S = (if socks (config2 S) = v then S else store_config2 E (\<lambda>c. c\<lparr>socks := v\<rparr>) S)"

definition get_socks :: "'s settings_scheme \<Rightarrow> socks5_server option" where
  "get_socks S = socks (config2 S)"

datatype network_type = Direct | ProxySocks

definition get_network_type :: "'s settings_scheme \<Rightarrow> network_type" where
  "get_network_type S = (case socks (config2 S) of None \<Rightarrow> Direct | Some _ \<Rightarrow> ProxySocks)"

definition set_config :: "'e config_env_scheme \<Rightarrow> config \<Rightarrow> 's settings_scheme \<Rightarrow> 's settings_scheme" where
  "set_config E c S = store_config E (\<lambda>_. c) S"

definition set_config2 :: "'e config_env_scheme \<Rightarrow> config2 \<Rightarrow> 's settings_scheme \<Rightarrow> 's settings_scheme" where
  "set_config2 E c S = store_config2 E (\<lambda>_. c) S"

subsection \<open>The user interface's settings\<close>

definition set_size :: "'e config_env_scheme \<Rightarrow> win_size \<Rightarrow> 's settings_scheme \<Rightarrow> 's settings_scheme" where
  "set_size E sz S =
     (case sz of (x, y, w, h) \<Rightarrow>
        if sz = l_size (local_conf S) \<or> w < 300 \<or> h < 300 then S
        else store_local E (\<lambda>c. c\<lparr>l_size := sz\<rparr>) S)"

definition set_remote_id :: "'e config_env_scheme \<Rightarrow> string \<Rightarrow> 's settings_scheme \<Rightarrow> 's settings_scheme" where
  "set_remote_id E i S =
     (if i = remote_id (local_conf S) then S else store_local E (\<lambda>c. c\<lparr>remote_id := i\<rparr>) S)"

definition set_fav :: "'e config_env_scheme \<Rightarrow> string list \<Rightarrow> 's settings_scheme \<Rightarrow> 's settings_scheme" where
  "set_fav E v S = (if fav (local_conf S) = v then S else store_local E (\<lambda>c. c\<lparr>fav := v\<rparr>) S)"

definition get_local_option :: "string \<Rightarrow> 's settings_scheme \<Rightarrow> string" where
  "get_local_option k S = (case local_options (local_conf S) k of Some v \<Rightarrow> v | None \<Rightarrow> [])"

definition set_local_option ::
  "'e config_env_scheme \<Rightarrow> string \<Rightarrow> string \<Rightarrow> 's settings_scheme \<Rightarrow> 's settings_scheme" where
  "set_local_option E k v S =
     (let v2 = (if v = [] then None else Some v) in
      if v2 \<noteq> local_options (local_conf S) k
      then store_local E (\<lambda>c. c\<lparr>local_options := (local_options c)(k := v2)\<rparr>) S else S)"

subsection \<open>The files of the peers\<close>

definition PEERS :: string where "PEERS = ''peers''"

text \<open>\<open>Path::file_stem\<close> and \<open>Path::extension\<close> of a last component.\<close>

definition split_dot :: "string \<Rightarrow> string option \<times> string" where
  "split_dot n =
     (if CHR ''.'' \<in> set n \<and> n \<noteq> ''..''
      then (let a = rev (takeWhile (\<lambda>c. c \<noteq> CHR ''.'') (rev n))
            in (Some (take (length n - length a - 1) n), a))
      else (None, n))"

definition file_stem :: "string \<Rightarrow> string" where
  "file_stem n = (case split_dot n of (Some b, a) \<Rightarrow> if b = [] then n else b | (None, a) \<Rightarrow> a)"

definition extension :: "string \<Rightarrow> string option" where
  "extension n = (case split_dot n of (Some b, a) \<Rightarrow> if b = [] then None else Some a | (None, _) \<Rightarrow> None)"

text \<open>
  \<open>with_extension\<close> replaces what follows the last dot; an empty component and a lone dot are no
  components of a path.
\<close>

definition peer_path :: "string \<Rightarrow> string list" where
  "peer_path i =
     (if i = [] \<or> i = ''.'' then [PEERS @ ''.toml'']
      else if i = ''..'' then [PEERS, i] else [PEERS, file_stem i @ ''.toml''])"

text \<open>Reading a missing file writes the default settings to it.\<close>

definition load_peer :: "'e config_env_scheme \<Rightarrow> string \<Rightarrow> 's settings_scheme \<Rightarrow> peer_config \<times> 's settings_scheme" where
  "load_peer E i S =
     (case map_of (peer_files S) (peer_path i) of
        Some f \<Rightarrow> ((case pf_content f of Some c \<Rightarrow> c | None \<Rightarrow> default_peer_config), S)
      | None \<Rightarrow>
          (default_peer_config,
           if disk_ok E \<and> i \<noteq> ''..''
           then S\<lparr>peer_files := AList.update (peer_path i)
             \<lparr>pf_time = clock E, pf_content = Some default_peer_config\<rparr> (peer_files S)\<rparr> else S))"

definition store_peer :: "'e config_env_scheme \<Rightarrow> string \<Rightarrow> peer_config \<Rightarrow> 's settings_scheme \<Rightarrow> 's settings_scheme" where
  "store_peer E i c S =
     (if disk_ok E \<and> i \<noteq> ''..''
      then S\<lparr>peer_files := AList.update (peer_path i) \<lparr>pf_time = clock E, pf_content = Some c\<rparr> (peer_files S)\<rparr>
      else S)"

definition remove_path :: "string list \<Rightarrow> 's settings_scheme \<Rightarrow> 's settings_scheme" where
  "remove_path p S = S\<lparr>peer_files := AList.delete p (peer_files S)\<rparr>"

definition remove_peer :: "string \<Rightarrow> 's settings_scheme \<Rightarrow> 's settings_scheme" where
  "remove_peer i S = remove_path (peer_path i) S"

text \<open>
  The list of peers: every file of the directory with the extension is loaded by the stem of its
  name, and the file is removed when what was loaded has no platform. The list is sorted by time,
  newest first (the order of equal times is not specified). \<open>history\<close> is what the listing writes to
  \<open>history.ini\<close>.
\<close>

definition listed_name :: "string list \<Rightarrow> string option" where
  "listed_name p =
     (case p of [d, n] \<Rightarrow> if d = PEERS \<and> extension n = Some ''toml'' then Some n else None | _ \<Rightarrow> None)"

definition load_entry ::
  "'e config_env_scheme \<Rightarrow> string list \<times> peer_file \<Rightarrow> (string \<times> nat \<times> peer_config) list \<times> 's settings_scheme
     \<Rightarrow> (string \<times> nat \<times> peer_config) list \<times> 's settings_scheme" where
  "load_entry E = (\<lambda>(p, f) (acc, S).
     case listed_name p of
       None \<Rightarrow> (acc, S)
     | Some n \<Rightarrow>
         let i = file_stem n; (c, S) = load_peer E i S; S = S\<lparr>history := history S @ [(i, pc_info c)]\<rparr> in
         if i_platform (pc_info c) = [] then (acc, remove_path p S)
         else (acc @ [(i, pf_time f, c)], S))"

definition get_peers ::
  "'e config_env_scheme \<Rightarrow> 's settings_scheme \<Rightarrow> (string \<times> nat \<times> peer_config) list \<times> 's settings_scheme" where
  "get_peers E S =
     (case fold (load_entry E) (peer_files S) ([], S\<lparr>history := []\<rparr>) of
        (ps, S) \<Rightarrow> (sort_key (\<lambda>(i, t, c). - int t) ps, S))"


subsection \<open>Memory and files agree\<close>

definition synced :: "'s settings_scheme \<Rightarrow> bool" where
  "synced S \<longleftrightarrow> stored S = config S \<and> stored2 S = config2 S \<and> stored_local S = local_conf S"

text \<open>The operations that a process performs on its settings.\<close>

inductive config_op :: "'e config_env_scheme \<Rightarrow> settings \<Rightarrow> settings \<Rightarrow> bool" for E where
  "config_op E S (set_id E i S)"
| "config_op E S (set_nat_type E t S)"
| "config_op E S (set_serial E n S)"
| "config_op E S (set_option E k v S)"
| "config_op E S (set_options E os S)"
| "config_op E S (set_peer_permission E peer k b S)"
| "config_op E S (update_latency E host l S)"
| "config_op E S (reset_online S)"
| "config_op E S (set_key_confirmed E b S)"
| "config_op E S (set_host_key_confirmed E host b S)"
| "config_op E S (set_key_pair E kp S)"
| "config_op E S (snd (get_key_pair E S))"
| "config_op E S (snd (get_id E S))"
| "config_op E S (update_id E S)"
| "config_op E S (set_password E v S)"
| "config_op E S (snd (get_password E S))"
| "config_op E S (set_cstdir E v S)"
| "config_op E S (set_pwdupd E v S)"
| "config_op E S (set_idle E v S)"
| "config_op E S (set_flagex E v S)"
| "config_op E S (set_uid E v S)"
| "config_op E S (set_salt E v S)"
| "config_op E S (snd (get_salt E S))"
| "config_op E S (set_socks E sk S)"
| "config_op E S (set_config E c S)"
| "config_op E S (set_config2 E c2 S)"
| "config_op E S (set_size E sz S)"
| "config_op E S (set_remote_id E v S)"
| "config_op E S (set_fav E vs S)"
| "config_op E S (set_local_option E k v S)"
| "config_op E S (snd (load_peer E i S))"
| "config_op E S (store_peer E i pc S)"
| "config_op E S (remove_peer i S)"
| "config_op E S (snd (get_peers E S))"

text \<open>A restart loads the files.\<close>

definition restart :: "'s settings_scheme \<Rightarrow> 's settings_scheme" where
  "restart S = S\<lparr>config := stored S, config2 := stored2 S, local_conf := stored_local S, online := []\<rparr>"

lemma synced_store:
  "disk_ok E \<Longrightarrow> synced S \<Longrightarrow> synced (store_config E f S)"
  "disk_ok E \<Longrightarrow> synced S \<Longrightarrow> synced (store_config2 E g S)"
  "disk_ok E \<Longrightarrow> synced S \<Longrightarrow> synced (store_local E h S)"
  by (simp_all add: synced_def store_config_def store_config2_def store_local_def Let_def)

lemma synced_upd [simp]:
  "synced (S\<lparr>rng := r\<rparr>) = synced S" "synced (S\<lparr>online := hs\<rparr>) = synced S"
  "synced (S\<lparr>peer_files := fs\<rparr>) = synced S" "synced (S\<lparr>history := ls\<rparr>) = synced S"
  by (simp_all add: synced_def)

lemma synced_load_entries:
  "synced (snd st) \<Longrightarrow> synced (snd (fold (load_entry E) es st))"
proof (induction es arbitrary: st)
  case (Cons e es)
  have "synced (snd (load_entry E e st))" using Cons.prems
    by (cases st, cases e) (auto simp: load_entry_def load_peer_def remove_path_def Let_def split: option.splits)
  then show ?case using Cons.IH by simp
qed simp

lemma synced_set_id: "disk_ok E \<Longrightarrow> synced S \<Longrightarrow> synced (set_id E i S)"
  by (simp add: set_id_def synced_store)

lemma synced_get_id: "disk_ok E \<Longrightarrow> synced S \<Longrightarrow> synced (snd (get_id E S))"
  by (auto simp: get_id_def Let_def synced_set_id split: option.splits)

lemma config_op_synced:
  assumes "config_op E S S'" "disk_ok E" "synced S"
  shows "synced S'"
  using assms(1)
proof cases
  case 34
  then show ?thesis
    using synced_load_entries [of "([], S\<lparr>history := []\<rparr>)" E "peer_files S"] assms(3)
    by (simp add: get_peers_def split_beta)
qed (use assms(2,3) in \<open>auto simp: synced_store synced_set_id synced_get_id Let_def split_beta
  set_nat_type_def set_serial_def set_option_def set_options_def set_peer_permission_def set_permission_def
  update_latency_def reset_online_def set_key_confirmed_def set_host_key_confirmed_def set_key_pair_def
  get_key_pair_def update_id_def set_password_def get_password_def get_auto_password_def set_cstdir_def
  set_pwdupd_def set_idle_def set_flagex_def set_uid_def set_salt_def get_salt_def set_socks_def
  set_config_def set_config2_def set_size_def set_remote_id_def set_fav_def set_local_option_def
  load_peer_def store_peer_def remove_peer_def remove_path_def split: option.splits prod.splits\<close>)


text \<open>
  C15: What a process has in memory is what a restart reads: after any sequence of operations on the
  settings, as long as the disk takes the writes, the three files hold the three records in memory,
  although every setter skips the write when the value is unchanged.
\<close>

theorem restart_loses_nothing:
  assumes "(config_op E)\<^sup>*\<^sup>* S S'" "disk_ok E" "synced S"
  shows "config (restart S') = config S' \<and> config2 (restart S') = config2 S' \<and> local_conf (restart S') = local_conf S'"
proof -
  from assms(1) have "synced S'"
  proof induction
    case base
    show ?case by (rule assms(3))
  next
    case (step S S')
    then show ?case using config_op_synced assms(2) by blast
  qed
  then show ?thesis by (simp add: synced_def restart_def)
qed

definition sample_config_env :: config_env where
  "sample_config_env = \<lparr>disk_ok = True, mac_address = Some [0, 1, 2, 3, 4, 5], gen_keypair = ([1], [2]), clock = 7\<rparr>"

theorem restart_loses_nothing_witness:
  "c_password (config (restart (set_uid sample_config_env ''u'' (set_password sample_config_env ''pw'' default_settings)))) = ''pw''"
proof -
  let ?E = sample_config_env
  have "(config_op ?E)\<^sup>*\<^sup>* default_settings (set_uid ?E ''u'' (set_password ?E ''pw'' default_settings))"
    by (meson config_op.intros(15,21) rtranclp.rtrancl_into_rtrancl rtranclp.rtrancl_refl)
  from restart_loses_nothing [OF this] show ?thesis
    by (simp add: synced_def sample_config_env_def default_settings_def Let_def set_uid_def set_password_def
      store_config_def default_config_def)
qed

text \<open>
  The same shortcut makes a failed write final: a password whose write failed is not written by
  setting it again, and a restart brings the old one back.
\<close>

theorem failed_write_is_not_retried:
  assumes "\<not> disk_ok E" "p \<noteq> c_password (config S)"
  shows "set_password E' p (set_password E p S) = set_password E p S \<and>
    config (restart (set_password E' p (set_password E p S))) = stored S"
  using assms by (simp add: set_password_def store_config_def restart_def Let_def)

theorem failed_write_is_not_retried_witness:
  "c_password (config (restart (set_password sample_config_env ''pw''
     (set_password (sample_config_env\<lparr>disk_ok := False\<rparr>) ''pw'' default_settings)))) = []"
proof -
  let ?E = "sample_config_env\<lparr>disk_ok := False\<rparr>"
  have "\<not> disk_ok ?E" "''pw'' \<noteq> c_password (config default_settings)"
    by (simp_all add: default_settings_def Let_def default_config_def)
  from conjunct2 [OF failed_write_is_not_retried [OF this, of sample_config_env]]
  have "c_password (config (restart (set_password sample_config_env ''pw'' (set_password ?E ''pw'' default_settings)))) =
      c_password (stored default_settings)" by (rule arg_cong)
  then show ?thesis by (simp add: default_settings_def Let_def default_config_def)
qed

subsection \<open>The table of options\<close>

locale option_store =
  fixes get :: "string \<Rightarrow> 's \<Rightarrow> string"
    and set_to :: "string \<Rightarrow> string \<Rightarrow> 's \<Rightarrow> 's"
  assumes get_same: "get k (set_to k v s) = v"
    and get_other: "k' \<noteq> k \<Longrightarrow> get k' (set_to k v s) = get k' s"
begin

lemma get_set: "get k' (set_to k v s) = (if k' = k then v else get k' s)"
  by (simp add: get_same get_other)

lemma last_write_wins:
  "get k (fold (\<lambda>(k, v). set_to k v) (kvs @ [(k, v)]) s) = v"
  by (simp add: get_same)

lemma writes_elsewhere:
  "k \<notin> fst ` set kvs \<Longrightarrow> get k (fold (\<lambda>(k, v). set_to k v) kvs s) = get k s"
  by (induction kvs arbitrary: s) (auto simp: get_other)

lemma writes_commute:
  "k \<noteq> k' \<Longrightarrow> get j (set_to k v (set_to k' v' s)) = get j (set_to k' v' (set_to k v s))"
  by (simp add: get_set)

end

interpretation service_options: option_store get_option "set_option E"
  by unfold_locales (simp_all add: get_option_def set_option_def Let_def store_config2_def split: option.splits)

interpretation ui_options: option_store get_local_option "set_local_option E"
  by unfold_locales (simp_all add: get_local_option_def set_local_option_def Let_def store_local_def split: option.splits)

interpretation peer_permissions: option_store get_permission "set_permission E"
  by unfold_locales (simp_all add: get_permission_def set_permission_def Let_def store_config2_def split: option.splits)

text \<open>
  The permissions of the peers, whose keys are texts \<open>peer->permission\<close>, do not get mixed up:
  setting one permission of one peer determines exactly that entry among those of the same
  permission, and a permission that was set is never empty.
\<close>

theorem peer_permission_isolated:
  "get_peer_permission peer' k (set_peer_permission E peer k b S) =
     (if peer' = peer then if b then ''1'' else ''0'' else get_peer_permission peer' k S)"
  by (simp add: get_peer_permission_def set_peer_permission_def peer_permissions.get_set)

subsection \<open>The fastest server\<close>

definition reachable_hosts :: "(string \<times> int) list \<Rightarrow> (string \<times> int) list" where
  "reachable_hosts hs = filter (\<lambda>(h, d). 0 < d \<and> d < 2 ^ 63 - 1) hs"

lemma fastest_fold:
  assumes "(h', m') = fold (\<lambda>(h, d) (host, delay). if d > 0 \<and> d < delay then (h, d) else (host, delay)) hs (h0, m0)"
    "0 < (m0 :: int)"
  shows "m' \<le> m0 \<and> ((h', m') = (h0, m0) \<or> (h', m') \<in> set hs \<and> 0 < m' \<and> m' < m0) \<and> (\<forall>(h, d) \<in> set hs. 0 < d \<longrightarrow> m' \<le> d)"
  using assms
proof (induction hs arbitrary: h0 m0)
  case (Cons e hs)
  obtain h d where e: "e = (h, d)" by force
  show ?case
  proof (cases "0 < d \<and> d < m0")
    case True
    then show ?thesis using Cons.IH [of h d] Cons.prems e by auto
  next
    case False
    then show ?thesis using Cons.IH [of h0 m0] Cons.prems e by auto
  qed
qed simp

lemma fastest_reachable:
  assumes "reachable_hosts hs \<noteq> []"
  shows "fastest hs \<in> set (reachable_hosts hs) \<and> (\<forall>(h, d) \<in> set (reachable_hosts hs). snd (fastest hs) \<le> d)"
proof -
  obtain h' m' where f: "fastest hs = (h', m')" by force
  obtain h d where hd: "(h, d) \<in> set hs" "0 < d" "d < 2 ^ 63 - 1"
    using assms by (auto simp: reachable_hosts_def filter_empty_conv)
  have F: "m' \<le> 2 ^ 63 - 1 \<and> ((h', m') = ([], 2 ^ 63 - 1) \<or> (h', m') \<in> set hs \<and> 0 < m' \<and> m' < 2 ^ 63 - 1) \<and>
      (\<forall>(h, d) \<in> set hs. 0 < d \<longrightarrow> m' \<le> d)"
    by (rule fastest_fold) (use f in \<open>simp_all add: fastest_def\<close>)
  then have "m' \<le> d" using hd by auto
  with hd(3) have "(h', m') \<noteq> ([], 2 ^ 63 - 1)" by auto
  with F f show ?thesis by (auto simp: reachable_hosts_def)
qed

lemma fastest_unreachable: "reachable_hosts hs = [] \<Longrightarrow> fst (fastest hs) = []"
proof -
  assume u: "reachable_hosts hs = []"
  obtain h' m' where f: "fastest hs = (h', m')" by force
  have "(h', m') = ([], 2 ^ 63 - 1) \<or> (h', m') \<in> set hs \<and> 0 < m' \<and> m' < 2 ^ 63 - 1"
    using fastest_fold [of h' m' hs "[]" "2 ^ 63 - 1"] f by (simp add: fastest_def)
  then show ?thesis using u f by (auto simp: reachable_hosts_def filter_empty_conv)
qed

text \<open>
  The rendezvous server that is kept is always the fastest one known. After a latency is
  reported, if some server answered (a positive latency), the server kept is one that answered,
  none that answered is faster, and servers that failed (-1) are never chosen; if none answered,
  the one kept before stays.
\<close>

theorem update_latency_picks_fastest:
  assumes "\<forall>(h, d) \<in> set (AList.update host l (online S)). h \<noteq> []"
  shows "let S' = update_latency E host l S; hs = reachable_hosts (online S') in
    online S' = AList.update host l (online S) \<and>
    (if hs = [] then rendezvous_server (config2 S') = rendezvous_server (config2 S)
     else \<exists>d. (rendezvous_server (config2 S'), d) \<in> set hs \<and> (\<forall>(h, e) \<in> set hs. d \<le> e))"
proof -
  let ?hs = "AList.update host l (online S)" and ?S = "update_latency E host l S"
  obtain h d where f: "fastest ?hs = (h, d)" by force
  have o: "online ?S = ?hs" by (simp add: update_latency_def Let_def store_config2_def)
  show ?thesis
  proof (cases "reachable_hosts ?hs = []")
    case True
    then show ?thesis using fastest_unreachable [OF True] o
      by (simp add: update_latency_def Let_def)
  next
    case False
    have r: "(h, d) \<in> set (reachable_hosts ?hs)" "\<forall>(h, e) \<in> set (reachable_hosts ?hs). d \<le> e"
      using fastest_reachable [OF False] f by auto
    then have "h \<noteq> []" using assms by (auto simp: reachable_hosts_def)
    then have "rendezvous_server (config2 ?S) = h"
      using f by (simp add: update_latency_def Let_def store_config2_def)
    with False o r show ?thesis by (auto simp: Let_def)
  qed
qed

theorem update_latency_picks_fastest_witness:
  "rendezvous_server (config2 (update_latency sample_config_env ''b'' 5
     (default_settings\<lparr>online := [(''a'', 9), (''c'', -1)]\<rparr>))) = ''b''"
proof -
  let ?S = "default_settings\<lparr>online := [(''a'', 9 :: int), (''c'', -1)]\<rparr>"
  have "\<forall>(h, d) \<in> set (AList.update ''b'' 5 (online ?S)). h \<noteq> []" by simp
  from update_latency_picks_fastest [OF this, of sample_config_env] show ?thesis
    by (auto simp: Let_def reachable_hosts_def split: if_splits dest!: spec [of _ "''b''"])
qed

subsection \<open>The files of the peers\<close>

lemma takeWhile_rev_self: "x \<notin> set a \<Longrightarrow> takeWhile (\<lambda>c. c \<noteq> x) (rev a @ x # ys) = rev a"
  by (induction a rule: rev_induct) auto

lemma split_dot_app:
  "CHR ''.'' \<notin> set a \<Longrightarrow> b @ CHR ''.'' # a \<noteq> ''..'' \<Longrightarrow> split_dot (b @ CHR ''.'' # a) = (Some b, a)"
  by (simp add: split_dot_def Let_def takeWhile_rev_self)

lemma file_stem_app:
  "CHR ''.'' \<notin> set a \<Longrightarrow> b \<noteq> [] \<Longrightarrow> b @ CHR ''.'' # a \<noteq> ''..'' \<Longrightarrow> file_stem (b @ CHR ''.'' # a) = b"
  by (simp add: file_stem_def split_dot_app)

lemma file_stem_plain: "CHR ''.'' \<notin> set i \<Longrightarrow> file_stem i = i"
  by (simp add: file_stem_def split_dot_def)

lemma toml_file:
  "st \<noteq> [] \<Longrightarrow> file_stem (st @ ''.toml'') = st" "st \<noteq> [] \<Longrightarrow> extension (st @ ''.toml'') = Some ''toml''"
  by (simp_all add: file_stem_app extension_def split_dot_app)

lemma peer_path_plain: "i \<noteq> [] \<Longrightarrow> CHR ''.'' \<notin> set i \<Longrightarrow> peer_path i = [PEERS, i @ ''.toml'']"
  by (auto simp: peer_path_def file_stem_plain)

text \<open>An id that ends in a dot and something without dots (the last octet, say).\<close>

lemma peer_path_dotted:
  assumes "CHR ''.'' \<notin> set a" "b \<noteq> []" "b \<noteq> ''.''"
  shows "peer_path (b @ CHR ''.'' # a) = [PEERS, b @ ''.toml'']"
proof -
  have "b @ CHR ''.'' # a \<noteq> ''..''" "b @ CHR ''.'' # a \<noteq> ''.''" using assms(2,3)
    by (cases b; auto simp: Cons_eq_append_conv append_eq_Cons_conv)+
  then show ?thesis using assms file_stem_app [of a b] by (simp add: peer_path_def)
qed

text \<open>
  The settings of a peer are found again by its id. What is stored for an id is what loading it
  gives, and an id without dots shares its file with no other id without dots; but ids that differ
  only behind their last dot, as the addresses \<open>192.168.1.5\<close> and \<open>192.168.1.7\<close> do, share one file,
  so the settings (the saved password among them) of one are those of the other.
\<close>

theorem peer_files_by_id:
  assumes "disk_ok E" "i \<noteq> ''..''" "j \<noteq> ''..''"
  shows "fst (load_peer E i (store_peer E i c S)) = c \<and>
    (i \<noteq> [] \<and> CHR ''.'' \<notin> set i \<and> j \<noteq> [] \<and> CHR ''.'' \<notin> set j \<and> i \<noteq> j \<longrightarrow>
       fst (load_peer E j (store_peer E i c S)) = fst (load_peer E j S)) \<and>
    (\<forall>b x y. i = b @ CHR ''.'' # x \<and> j = b @ CHR ''.'' # y \<and> CHR ''.'' \<notin> set x \<and> CHR ''.'' \<notin> set y \<and>
       b \<noteq> [] \<and> b \<noteq> ''.'' \<longrightarrow> fst (load_peer E j (store_peer E i c S)) = c)"
  using assms
  by (auto simp: load_peer_def store_peer_def update_conv peer_path_plain peer_path_dotted split: option.splits)

theorem peer_files_by_id_witness:
  "fst (load_peer sample_config_env ''192.168.1.7''
     (store_peer sample_config_env ''192.168.1.5'' (default_peer_config\<lparr>pc_password := [9]\<rparr>) default_settings)) =
   default_peer_config\<lparr>pc_password := [9]\<rparr>"
proof -
  let ?c = "default_peer_config\<lparr>pc_password := [9]\<rparr>"
  have E: "disk_ok sample_config_env" "''192.168.1.5'' \<noteq> ''..''" "''192.168.1.7'' \<noteq> ''..''"
    by (simp_all add: sample_config_env_def)
  have "''192.168.1.5'' = ''192.168.1'' @ CHR ''.'' # ''5'' \<and> ''192.168.1.7'' = ''192.168.1'' @ CHR ''.'' # ''7'' \<and>
      CHR ''.'' \<notin> set ''5'' \<and> CHR ''.'' \<notin> set ''7'' \<and> ''192.168.1'' \<noteq> [] \<and> ''192.168.1'' \<noteq> ''.''" by simp
  then show ?thesis
    using conjunct2 [OF conjunct2 [OF peer_files_by_id [OF E, of ?c default_settings]]] by blast
qed

text \<open>
  Listing the peers deletes the settings of a peer that is reached by its address. The file of
  such a peer is named by the address less its last part; the listing takes that name for an id and
  looks for its settings under the name cut once more, finds none, and removes the file it listed.
\<close>

theorem listing_deletes_address_peers:
  assumes "CHR ''.'' \<notin> set y" "CHR ''.'' \<notin> set x" "b \<noteq> []" "b \<noteq> ''.''"
    "peer_files (store_peer E (b @ ''.'' @ x @ ''.'' @ y) c S) = [(peer_path (b @ ''.'' @ x @ ''.'' @ y), f)]"
  shows "fst (get_peers E (store_peer E (b @ ''.'' @ x @ ''.'' @ y) c S)) = [] \<and>
    map_of (peer_files (snd (get_peers E (store_peer E (b @ ''.'' @ x @ ''.'' @ y) c S))))
      (peer_path (b @ ''.'' @ x @ ''.'' @ y)) = None"
proof -
  let ?n = "b @ ''.'' @ x" and ?S = "store_peer E (b @ ''.'' @ x @ ''.'' @ y) c S"
  have "?n \<noteq> []" "?n \<noteq> ''.''" using assms(3) by (auto simp: append_eq_Cons_conv)
  then have p: "peer_path (b @ ''.'' @ x @ ''.'' @ y) = [PEERS, ?n @ ''.toml'']"
    using peer_path_dotted [of y ?n] assms(1) by simp
  have q: "peer_path ?n = [PEERS, b @ ''.toml'']" using peer_path_dotted [of x b] assms(2-4) by simp
  have l: "listed_name [PEERS, ?n @ ''.toml''] = Some (?n @ ''.toml'')" "file_stem (?n @ ''.toml'') = ?n"
    using toml_file [of ?n] \<open>?n \<noteq> []\<close> by (simp_all add: listed_name_def)
  have "b @ ''.toml'' \<noteq> ?n @ ''.toml''" by simp
  then have n: "map_of (peer_files ?S) (peer_path ?n) = None" using assms(5) p q by simp
  show ?thesis using assms(5) n p q l \<open>b @ ''.toml'' \<noteq> ?n @ ''.toml''\<close>
    by (auto simp: get_peers_def load_entry_def Let_def load_peer_def remove_path_def default_peer_config_def)
qed

theorem listing_deletes_address_peers_witness:
  "fst (get_peers sample_config_env (store_peer sample_config_env (''192.168'' @ ''.'' @ ''1'' @ ''.'' @ ''5'')
     (default_peer_config\<lparr>pc_info := \<lparr>i_username = [], i_hostname = [], i_platform = ''Windows'', i_uid = []\<rparr>\<rparr>)
     default_settings)) = []"
proof -
  let ?c = "default_peer_config\<lparr>pc_info := \<lparr>i_username = [], i_hostname = [], i_platform = ''Windows'', i_uid = []\<rparr>\<rparr>"
  have a: "CHR ''.'' \<notin> set ''5''" "CHR ''.'' \<notin> set ''1''" "''192.168'' \<noteq> []" "''192.168'' \<noteq> ''.''" by simp_all
  have "peer_files (store_peer sample_config_env (''192.168'' @ ''.'' @ ''1'' @ ''.'' @ ''5'') ?c default_settings) =
      [(peer_path (''192.168'' @ ''.'' @ ''1'' @ ''.'' @ ''5''), \<lparr>pf_time = 7, pf_content = Some ?c\<rparr>)]"
    by (simp add: store_peer_def sample_config_env_def default_settings_def Let_def)
  from conjunct1 [OF listing_deletes_address_peers [OF a this]] show ?thesis .
qed

text \<open>Passwords and salts are drawn once: asking again gives the same one and changes nothing.\<close>

lemma CHARS_distinct: "distinct CHARS" "length CHARS = 32"
  by (simp_all add: CHARS_def)

lemma auto_password_chars:
  "length (fst (get_auto_password S)) = 6 \<and> set (fst (get_auto_password S)) \<subseteq> set CHARS"
proof -
  have "CHARS ! (r mod 32) \<in> set CHARS" for r by (rule nth_mem) (simp add: CHARS_distinct)
  then show ?thesis by (auto simp: get_auto_password_def CHARS_distinct)
qed

lemma get_password_stable:
  "get_password E S = (p, S') \<Longrightarrow> p \<noteq> [] \<and> get_password E' S' = (p, S')"
  using auto_password_chars [of S]
  by (auto simp: get_password_def Let_def set_password_def store_config_def split_beta split: if_splits)

lemma get_salt_stable:
  "get_salt E S = (p, S') \<Longrightarrow> p \<noteq> [] \<and> get_salt E' S' = (p, S')"
  using auto_password_chars [of S]
  by (auto simp: get_salt_def Let_def set_salt_def store_config_def split_beta split: if_splits)

end
