(* ===== verification/Clipboard_Sync.thy ===== *)
theory Clipboard_Sync
  imports Message_Proto File_Transfer Service
begin

text \<open>
  The clipboard: the text that both ends keep in step (\<open>common.rs\<close>, \<open>server/clipboard_service.rs\<close>),
  the messages of the channel for copied files (\<open>clipboard_file.rs\<close>) and the conversion of those to
  and from the C structures of the clipboard library (\<open>libs/clipboard/src/lib.rs\<close>).

  The system's clipboard holds a text or something that is no text; the environment says whether a
  clipboard context can be had and takes a text.
\<close>

subsection \<open>UTF-8\<close>

definition cont_byte :: "u8 \<Rightarrow> bool" where
  "cont_byte b \<longleftrightarrow> 0x80 \<le> b \<and> b \<le> 0xBF"

text \<open>\<open>String::from_utf8\<close> accepts exactly the shortest encodings of scalar values.\<close>

fun valid_utf8 :: "bytes \<Rightarrow> bool" where
  "valid_utf8 [] = True"
| "valid_utf8 (a # r) =
     (if a \<le> 0x7F then valid_utf8 r
      else case r of
        b # r1 \<Rightarrow>
          if 0xC2 \<le> a \<and> a \<le> 0xDF then cont_byte b \<and> valid_utf8 r1
          else (case r1 of
            c # r2 \<Rightarrow>
              if 0xE0 \<le> a \<and> a \<le> 0xEF then
                (if a = 0xE0 then 0xA0 \<le> b \<and> b \<le> 0xBF
                 else if a = 0xED then 0x80 \<le> b \<and> b \<le> 0x9F else cont_byte b) \<and> cont_byte c \<and> valid_utf8 r2
              else (case r2 of
                d # r3 \<Rightarrow>
                  0xF0 \<le> a \<and> a \<le> 0xF4 \<and>
                  (if a = 0xF0 then 0x90 \<le> b \<and> b \<le> 0xBF
                   else if a = 0xF4 then 0x80 \<le> b \<and> b \<le> 0x8F else cont_byte b) \<and>
                  cont_byte c \<and> cont_byte d \<and> valid_utf8 r3
              | [] \<Rightarrow> False)
          | [] \<Rightarrow> False)
      | [] \<Rightarrow> False)"

subsection \<open>Text\<close>

record clip_env =
  zstd :: fs_env
  context_ok :: bool
  set_text_ok :: bool

record clip_state =
  system_text :: "bytes option"
  clip_content :: bytes

definition create_clipboard_msg :: "clip_env \<Rightarrow> bytes \<Rightarrow> message" where
  "create_clipboard_msg E bs =
     (let compressed = compress (zstd E) bs; comp = length compressed < length bs
      in ClipboardMsg comp (if comp then compressed else bs))"

definition check_clipboard :: "clip_env \<Rightarrow> clip_state \<Rightarrow> message option \<times> clip_state" where
  "check_clipboard E S =
     (case system_text S of
        Some t \<Rightarrow>
          if length t < 2000000 \<and> t \<noteq> [] \<and> t \<noteq> clip_content S
          then (Some (create_clipboard_msg E t), S\<lparr>clip_content := t\<rparr>) else (None, S)
      | None \<Rightarrow> (None, S))"

definition update_clipboard :: "clip_env \<Rightarrow> bool \<Rightarrow> bytes \<Rightarrow> clip_state \<Rightarrow> clip_state" where
  "update_clipboard E compressed bs S =
     (let t = (if compressed then decompress (zstd E) bs else bs) in
      if valid_utf8 t \<and> context_ok E then
        let S = S\<lparr>clip_content := t\<rparr>
        in if t \<noteq> [] \<and> set_text_ok E then S\<lparr>system_text := Some t\<rparr> else S
      else S)"

subsection \<open>The clipboard service\<close>

text \<open>
  One turn of the loop of \<open>listen::run\<close>; \<open>changed\<close> says whether the listener reported a change
  before the wait timed out. The view of the service that a snapshot gets has subscribers when the
  service has old ones.
\<close>

definition snapshot_update :: "clip_env \<Rightarrow> 't service \<Rightarrow> clip_state \<Rightarrow> message option \<times> clip_state" where
  "snapshot_update E sp S =
     (if new_subscribes sp \<noteq> [] \<and> subscribes sp \<noteq> [] then check_clipboard E S else (None, S))"

definition send_update :: "(message \<Rightarrow> 't \<Rightarrow> 't) \<Rightarrow> message option \<Rightarrow> 't service \<Rightarrow> 't service" where
  "send_update send u sp = (case u of Some m \<Rightarrow> send_shared send m sp | None \<Rightarrow> sp)"

definition listen_turn ::
  "clip_env \<Rightarrow> (message \<Rightarrow> 't \<Rightarrow> 't) \<Rightarrow> bool \<Rightarrow> 't service \<times> clip_state \<Rightarrow> 't service \<times> clip_state" where
  "listen_turn E send changed = (\<lambda>(sp, S).
     let (u, S) = snapshot_update E sp S;
         sp = snd (snapshot (\<lambda>s. (Done (),
           if u = None \<and> clip_content S \<noteq> [] then send_new_subscribes send (create_clipboard_msg E (clip_content S)) s
           else s)) sp);
         sp = send_update send u sp
     in if changed then (case check_clipboard E S of (u, S) \<Rightarrow> (send_update send u sp, S)) else (sp, S))"

text \<open>How \<open>run\<close> ends: the text is put back into the clipboard, and what was known of it is forgotten.\<close>

definition listen_exit :: "clip_env \<Rightarrow> clip_state \<Rightarrow> clip_state" where
  "listen_exit E S =
     (let t = (case system_text S of Some t \<Rightarrow> t | None \<Rightarrow> [])
      in S\<lparr>system_text := (if set_text_ok E then Some t else system_text S), clip_content := []\<rparr>)"

subsection \<open>Files\<close>

datatype clipbaord_file =
    ServerFormatList int "(int \<times> string) list"
  | ServerFormatListResponse int int
  | ServerFormatDataRequest int int
  | ServerFormatDataResponse int int bytes
  | ClipFileContentsRequest int int int int int int int bool int
  | ClipFileContentsResponse int int int bytes

fun clip_2_msg :: "clipbaord_file \<Rightarrow> message" where
  "clip_2_msg (ServerFormatList c fs) = Cliprdr (FormatList c fs)"
| "clip_2_msg (ServerFormatListResponse c fl) = Cliprdr (FormatListResponse c fl)"
| "clip_2_msg (ServerFormatDataRequest c f) = Cliprdr (FormatDataRequest c f)"
| "clip_2_msg (ServerFormatDataResponse c fl bs) = Cliprdr (FormatDataResponse c fl bs)"
| "clip_2_msg (ClipFileContentsRequest c s i dw lo hi cb have_id i') =
     Cliprdr (FileContentsRequest c s i dw lo hi cb have_id i')"
| "clip_2_msg (ClipFileContentsResponse c fl s bs) = Cliprdr (FileContentsResponse c fl s bs)"

fun msg_2_clip :: "cliprdr \<Rightarrow> clipbaord_file option" where
  "msg_2_clip (FormatList c fs) = Some (ServerFormatList c fs)"
| "msg_2_clip (FormatListResponse c fl) = Some (ServerFormatListResponse c fl)"
| "msg_2_clip (FormatDataRequest c f) = Some (ServerFormatDataRequest c f)"
| "msg_2_clip (FormatDataResponse c fl bs) = Some (ServerFormatDataResponse c fl bs)"
| "msg_2_clip (FileContentsRequest c s i dw lo hi cb have_id i') =
     Some (ClipFileContentsRequest c s i dw lo hi cb have_id i')"
| "msg_2_clip (FileContentsResponse c fl s bs) = Some (ClipFileContentsResponse c fl s bs)"
| "msg_2_clip _ = None"


text \<open>
  What the functions of the library's context are called with: the C structures. A null pointer is
  \<open>None\<close>; a string is what precedes its NUL. The fields that are always 0 (\<open>msgType\<close>, and \<open>msgFlags\<close>
  and \<open>dataLen\<close> where nothing sets them) are left out.
\<close>

datatype c_call =
    CFormatList u32 u32 "(u32 \<times> string option) list"
  | CFormatListResponse u32 u16
  | CFormatDataRequest u32 u32
  | CFormatDataResponse u32 u16 u32 bytes
  | CFileContentsRequest u32 u32 u32 u32 u32 u32 u32 bool u32
  | CFileContentsResponse u32 u16 u32 u32 u32 bytes

definition c_string :: "string \<Rightarrow> string" where
  "c_string s = (if char_of (0 :: nat) \<in> set s then [] else s)"

definition server_format_list :: "int \<Rightarrow> (int \<times> string) list \<Rightarrow> c_call" where
  "server_format_list c fs =
     CFormatList (word_of_int c) (of_nat (length fs))
       (map (\<lambda>(i, n). (word_of_int i, if n = [] then None else Some (c_string n))) fs)"

definition server_format_list_response :: "int \<Rightarrow> int \<Rightarrow> c_call" where
  "server_format_list_response c fl = CFormatListResponse (word_of_int c) (word_of_int fl)"

definition server_format_data_request :: "int \<Rightarrow> int \<Rightarrow> c_call" where
  "server_format_data_request c f = CFormatDataRequest (word_of_int c) (word_of_int f)"

definition server_format_data_response :: "int \<Rightarrow> int \<Rightarrow> bytes \<Rightarrow> c_call" where
  "server_format_data_response c fl bs = CFormatDataResponse (word_of_int c) (word_of_int fl) (of_nat (length bs)) bs"

definition server_file_contents_request ::
  "int \<Rightarrow> int \<Rightarrow> int \<Rightarrow> int \<Rightarrow> int \<Rightarrow> int \<Rightarrow> int \<Rightarrow> bool \<Rightarrow> int \<Rightarrow> c_call" where
  "server_file_contents_request c s i dw lo hi cb have_id i' =
     CFileContentsRequest (word_of_int c) (word_of_int s) (word_of_int i) (word_of_int dw) (word_of_int lo)
       (word_of_int hi) (word_of_int cb) have_id (word_of_int i')"

definition server_file_contents_response :: "int \<Rightarrow> int \<Rightarrow> int \<Rightarrow> bytes \<Rightarrow> c_call" where
  "server_file_contents_response c fl s bs =
     CFileContentsResponse (word_of_int c) (word_of_int fl) (4 + of_nat (length bs)) (word_of_int s)
       (of_nat (length bs)) bs"

definition server_clip_file :: "int \<Rightarrow> clipbaord_file \<Rightarrow> c_call" where
  "server_clip_file s_conn_id m =
     (let conn = (\<lambda>c. if s_conn_id \<noteq> 0 then s_conn_id else c) in
      case m of
        ServerFormatList c fs \<Rightarrow> server_format_list (conn c) fs
      | ServerFormatListResponse c fl \<Rightarrow> server_format_list_response (conn c) fl
      | ServerFormatDataRequest c f \<Rightarrow> server_format_data_request (conn c) f
      | ServerFormatDataResponse c fl bs \<Rightarrow> server_format_data_response (conn c) fl bs
      | ClipFileContentsRequest c s i dw lo hi cb h i' \<Rightarrow> server_file_contents_request (conn c) s i dw lo hi cb h i'
      | ClipFileContentsResponse c fl s bs \<Rightarrow> server_file_contents_response (conn c) fl s bs)"

text \<open>What the callbacks put into the channel of the client.\<close>

definition utf8_text :: "string \<Rightarrow> bool" where
  "utf8_text s = valid_utf8 (map (\<lambda>c. of_nat (of_char c)) s)"

definition client_format_list :: "u32 \<Rightarrow> u32 \<Rightarrow> (u32 \<times> string option) list \<Rightarrow> int \<times> clipbaord_file" where
  "client_format_list c n fs =
     (sint c, ServerFormatList (sint c) (map (\<lambda>(i, nm). (sint i,
        case nm of None \<Rightarrow> [] | Some s \<Rightarrow> if utf8_text s then s else [])) (take (unat n) fs)))"

definition client_format_list_response :: "u32 \<Rightarrow> u16 \<Rightarrow> int \<times> clipbaord_file" where
  "client_format_list_response c fl = (sint c, ServerFormatListResponse (sint c) (uint fl))"

definition client_format_data_request :: "u32 \<Rightarrow> u32 \<Rightarrow> int \<times> clipbaord_file" where
  "client_format_data_request c f = (sint c, ServerFormatDataRequest (sint c) (sint f))"

definition client_format_data_response :: "u32 \<Rightarrow> u16 \<Rightarrow> u32 \<Rightarrow> bytes \<Rightarrow> int \<times> clipbaord_file" where
  "client_format_data_response c fl n bs = (sint c, ServerFormatDataResponse (sint c) (uint fl) (take (unat n) bs))"

definition client_file_contents_request ::
  "u32 \<Rightarrow> u32 \<Rightarrow> u32 \<Rightarrow> u32 \<Rightarrow> u32 \<Rightarrow> u32 \<Rightarrow> u32 \<Rightarrow> bool \<Rightarrow> u32 \<Rightarrow> int \<times> clipbaord_file" where
  "client_file_contents_request c s i dw lo hi cb h i' =
     (sint c, ClipFileContentsRequest (sint c) (sint s) (sint i) (sint dw) (sint lo) (sint hi) (sint cb) h (sint i'))"

definition client_file_contents_response :: "u32 \<Rightarrow> u16 \<Rightarrow> u32 \<Rightarrow> u32 \<Rightarrow> bytes \<Rightarrow> int \<times> clipbaord_file" where
  "client_file_contents_response c fl s n bs =
     (sint c, ClipFileContentsResponse (sint c) (uint fl) (sint s) (take (unat n) bs))"

fun client_call :: "c_call \<Rightarrow> int \<times> clipbaord_file" where
  "client_call (CFormatList c n fs) = client_format_list c n fs"
| "client_call (CFormatListResponse c fl) = client_format_list_response c fl"
| "client_call (CFormatDataRequest c f) = client_format_data_request c f"
| "client_call (CFormatDataResponse c fl n bs) = client_format_data_response c fl n bs"
| "client_call (CFileContentsRequest c s i dw lo hi cb h i') = client_file_contents_request c s i dw lo hi cb h i'"
| "client_call (CFileContentsResponse c fl d s n bs) = client_file_contents_response c fl s n bs"

text \<open>Which connections take part in the exchange of files.\<close>

definition set_conn_enabled :: "int \<Rightarrow> bool \<Rightarrow> (int \<rightharpoonup> bool) \<Rightarrow> int \<rightharpoonup> bool" where
  "set_conn_enabled c b m = (if c \<noteq> 0 then m(c \<mapsto> b) else m)"

definition check_enabled :: "u32 \<Rightarrow> (int \<rightharpoonup> bool) \<Rightarrow> bool" where
  "check_enabled c m \<longleftrightarrow> (if c \<noteq> 0 then m (sint c) = Some True else True)"

subsection \<open>No echo\<close>

text \<open>
  C26: A clipboard update from the peer is not sent back. After an update whose text is not empty
  and is taken by the system, the next check has nothing to send. An empty update, though, is
  forgotten by the system but not by the program: the old text that the system still holds then
  counts as new and is sent to the peer.
\<close>

theorem update_is_not_echoed:
  assumes "valid_utf8 t" "context_ok E" "t = (if compressed then decompress (zstd E) bs else bs)"
  shows "(t \<noteq> [] \<and> set_text_ok E \<longrightarrow> fst (check_clipboard E (update_clipboard E compressed bs S)) = None \<and>
       system_text (update_clipboard E compressed bs S) = Some t) \<and>
    (t = [] \<and> system_text S = Some old \<and> old \<noteq> [] \<and> length old < 2000000 \<longrightarrow>
       fst (check_clipboard E (update_clipboard E compressed bs S)) = Some (create_clipboard_msg E old))"
  using assms by (auto simp: check_clipboard_def update_clipboard_def Let_def)

definition sample_zstd :: fs_env where
  "sample_zstd = \<lparr>open_ok = (\<lambda>_. True), read_ok = (\<lambda>_ _. True), create_ok = (\<lambda>_. True), write_ok = (\<lambda>_. True),
     sync_ok = (\<lambda>_. True), read_size = (\<lambda>n. n), zstd_compress = Some, zstd_decompress = (\<lambda>_. Some)\<rparr>"

definition sample_clip :: clip_env where
  "sample_clip = \<lparr>zstd = sample_zstd, context_ok = True, set_text_ok = True\<rparr>"

theorem update_is_not_echoed_witness:
  "fst (check_clipboard sample_clip (update_clipboard sample_clip False [0x61] \<lparr>system_text = None, clip_content = []\<rparr>)) = None"
proof -
  have "valid_utf8 [0x61]" "context_ok sample_clip" "[0x61] = (if False then decompress (zstd sample_clip) [0x61] else [0x61])"
    by (simp_all add: sample_clip_def)
  from update_is_not_echoed [OF this] show ?thesis by (simp add: sample_clip_def)
qed

text \<open>
  What one end sends is what the other end gets: the clipboard message for a text, received by
  an end whose decompression undoes the compression, puts exactly that text into its clipboard.
\<close>

theorem clipboard_text_roundtrip:
  assumes "valid_utf8 t" "context_ok E'" "set_text_ok E'" "t \<noteq> []"
    "create_clipboard_msg E t = ClipboardMsg compressed bs" "compressed \<Longrightarrow> decompress (zstd E') bs = t"
  shows "system_text (update_clipboard E' compressed bs S) = Some t \<and> length bs \<le> length t"
  using assms by (auto simp: create_clipboard_msg_def update_clipboard_def Let_def)

theorem clipboard_text_roundtrip_witness:
  "system_text (update_clipboard sample_clip False [0xC3, 0xA9] \<lparr>system_text = None, clip_content = []\<rparr>) = Some [0xC3, 0xA9]"
proof -
  have v: "valid_utf8 [0xC3, 0xA9]" by (simp add: cont_byte_def)
  have m: "create_clipboard_msg sample_clip [0xC3, 0xA9] = ClipboardMsg False [0xC3, 0xA9]"
    by (simp add: create_clipboard_msg_def sample_clip_def sample_zstd_def compress_def)
  show ?thesis using clipboard_text_roundtrip [OF v _ _ _ m] by (simp add: sample_clip_def)
qed

text \<open>
  A new subscriber of the clipboard service gets the clipboard once. In the turn in which it is
  taken over it receives exactly the messages that the old subscribers receive (an update, when the
  text has changed), or, when there was no update, the text known so far if there is one; after the
  turn nobody waits.
\<close>

theorem clipboard_snapshot_once:
  fixes sp :: "message list service"
  assumes "listen_turn E (\<lambda>m ms. ms @ [m]) False (sp, S) = (sp', S')" "subs_ok sp" "waits i [] sp"
  shows "new_subscribes sp' = [] \<and>
    map_of (subscribes sp') i = Some (if fst (snapshot_update E sp S) \<noteq> None \<or> clip_content S' \<noteq> []
      then [create_clipboard_msg E (clip_content S')] else [])"
proof -
  obtain u S1 where u: "snapshot_update E sp S = (u, S1)" by force
  let ?send = "\<lambda>m ms. ms @ [m :: message]"
  let ?ms = "if u = None \<and> clip_content S1 \<noteq> [] then [create_clipboard_msg E (clip_content S1)] else []"
  have S': "S' = S1" and sp': "sp' = send_update ?send u (send_snapshot ?send ?ms sp)"
    using assms(1) u by (auto simp: listen_turn_def send_snapshot_def Let_def)
  have n: "new_subscribes sp \<noteq> []" using assms(3) by (auto simp: waits_def)
  then have "new_subscribes (send_snapshot ?send ?ms sp) = []"
    by (simp add: send_snapshot_def snapshot_def swap_new_subscribes_def)
  moreover have "map_of (subscribes (send_snapshot ?send ?ms sp)) i = Some ?ms"
    using waits_snapshot [OF assms(3,2), of ?send ?ms] by auto
  moreover have "m = create_clipboard_msg E (clip_content S1)" if "u = Some m" for m
    using u that by (auto simp: snapshot_update_def check_clipboard_def split: option.splits if_splits)
  ultimately show ?thesis
    using S' sp' u by (cases u) (auto simp: send_update_def send_shared_def map_of_map)
qed

theorem clipboard_snapshot_once_witness:
  "map_of (subscribes (fst (listen_turn sample_clip (\<lambda>m ms. ms @ [m]) False
     (on_subscribe 1 [] (new_service ''clipboard'' True), \<lparr>system_text = None, clip_content = [0x61]\<rparr>)))) 1 =
   Some [ClipboardMsg False [0x61]]"
proof -
  let ?sp = "on_subscribe 1 [] (new_service ''clipboard'' True) :: message list service"
  let ?S = "\<lparr>system_text = None, clip_content = [0x61]\<rparr>"
  obtain sp' S' where t: "listen_turn sample_clip (\<lambda>m ms. ms @ [m]) False (?sp, ?S) = (sp', S')" by force
  have u: "snapshot_update sample_clip ?sp ?S = (None, ?S)"
    by (simp add: snapshot_update_def on_subscribe_def new_service_def)
  then have "S' = ?S" using t by (simp add: listen_turn_def)
  moreover have "subs_ok ?sp" "waits 1 [] ?sp"
    by (simp_all add: subs_ok_def new_service_def on_subscribe_def waits_def)
  ultimately show ?thesis using clipboard_snapshot_once [OF t] t u
    by (simp add: create_clipboard_msg_def sample_clip_def sample_zstd_def compress_def)
qed

subsection \<open>Round trips of the file channel\<close>

lemma sint_word_of_int: "- (2 ^ 31) \<le> n \<Longrightarrow> n < 2 ^ 31 \<Longrightarrow> sint (word_of_int n :: u32) = n"
  by (simp add: signed_of_int signed_take_bit_int_eq_self)

lemma uint_u16: "uint (word_of_int n :: u16) = n mod 2 ^ 16"
  by (simp add: uint_word_of_int)

definition i32_range :: "int \<Rightarrow> bool" where
  "i32_range n \<longleftrightarrow> - (2 ^ 31) \<le> n \<and> n < 2 ^ 31"

lemma sint_i32: "i32_range n \<Longrightarrow> sint (word_of_int n :: u32) = n"
  by (simp add: i32_range_def sint_word_of_int)

lemma unat_of_len: "n < 2 ^ 32 \<Longrightarrow> unat (of_nat n :: u32) = n"
  by (simp add: unat_of_nat take_bit_nat_eq_self)

text \<open>What a Rust value satisfies by its type (and a length below 2 to the 32).\<close>

fun clip_typed :: "clipbaord_file \<Rightarrow> bool" where
  "clip_typed (ServerFormatList c fs) \<longleftrightarrow> i32_range c \<and> length fs < 2 ^ 32 \<and> list_all (\<lambda>(i, n). i32_range i \<and> utf8_text n) fs"
| "clip_typed (ServerFormatListResponse c fl) \<longleftrightarrow> i32_range c \<and> i32_range fl"
| "clip_typed (ServerFormatDataRequest c f) \<longleftrightarrow> i32_range c \<and> i32_range f"
| "clip_typed (ServerFormatDataResponse c fl bs) \<longleftrightarrow> i32_range c \<and> i32_range fl \<and> length bs < 2 ^ 32"
| "clip_typed (ClipFileContentsRequest c s i dw lo hi cb h i') \<longleftrightarrow>
     list_all i32_range [c, s, i, dw, lo, hi, cb, i']"
| "clip_typed (ClipFileContentsResponse c fl s bs) \<longleftrightarrow> i32_range c \<and> i32_range fl \<and> i32_range s \<and> length bs < 2 ^ 32"

text \<open>What the C structures cannot carry: flags beyond 16 bits, names with a NUL.\<close>

fun clip_squeezed :: "int \<Rightarrow> clipbaord_file \<Rightarrow> clipbaord_file" where
  "clip_squeezed k (ServerFormatList c fs) = ServerFormatList k (map (\<lambda>(i, n). (i, c_string n)) fs)"
| "clip_squeezed k (ServerFormatListResponse c fl) = ServerFormatListResponse k (fl mod 2 ^ 16)"
| "clip_squeezed k (ServerFormatDataRequest c f) = ServerFormatDataRequest k f"
| "clip_squeezed k (ServerFormatDataResponse c fl bs) = ServerFormatDataResponse k (fl mod 2 ^ 16) bs"
| "clip_squeezed k (ClipFileContentsRequest c s i dw lo hi cb h i') = ClipFileContentsRequest k s i dw lo hi cb h i'"
| "clip_squeezed k (ClipFileContentsResponse c fl s bs) = ClipFileContentsResponse k (fl mod 2 ^ 16) s bs"

fun clip_conn :: "clipbaord_file \<Rightarrow> int" where
  "clip_conn (ServerFormatList c fs) = c"
| "clip_conn (ServerFormatListResponse c fl) = c"
| "clip_conn (ServerFormatDataRequest c f) = c"
| "clip_conn (ServerFormatDataResponse c fl bs) = c"
| "clip_conn (ClipFileContentsRequest c s i dw lo hi cb h i') = c"
| "clip_conn (ClipFileContentsResponse c fl s bs) = c"

lemma utf8_c_string: "utf8_text n \<Longrightarrow> utf8_text (c_string n)"
  by (simp add: c_string_def utf8_text_def)



end
