(* ===== verification/Ipc.thy ===== *)
theory Ipc
  imports Config Clipboard_Sync
begin

text \<open>
  The local channel between the processes of the client, \<open>src/ipc.rs\<close>: the service answers requests
  for its settings (\<open>handle\<close>), the other processes (the user interface, the command line) read and
  change them through it and keep a copy in their own \<open>CONFIG\<close>s.

  A process is its settings; the service's world adds the times of the last click and mouse move and
  the list of what a request set off in other parts. The environment of a call says whether the
  channel can be opened and whether the answer comes in time. The JSON encoding is the library's.
\<close>

datatype fs_request =
    FsReadDir string bool
  | FsRemoveDir string int bool
  | FsRemoveFile string int int
  | FsCreateDir string int
  | FsNewWrite string int "(string \<times> nat) list"
  | FsCancelWrite int
  | FsWriteBlock int int bytes bool
  | FsWriteDone int int

record ipc_login =
  login_id :: int
  login_is_file_transfer :: bool
  login_peer_id :: string
  login_name :: string
  login_authorized :: bool
  login_port_forward :: string
  login_keyboard :: bool
  login_clipboard :: bool
  login_audio :: bool
  login_file :: bool
  login_file_transfer_enabled :: bool

datatype ipc_data =
    ILogin ipc_login
  | IChatMessage string
  | ISwitchPermission string bool
  | ISystemInfo "string option"
  | IClickTime int
  | IMouseMoveTime int
  | IAuthorize
  | IClose
  | ISAS
  | IOnlineStatus "(int \<times> bool) option"
  | IConfig string "string option"
  | IOptions "(string \<rightharpoonup> string) option"
  | INatType "int option"
  | IConfirmedKey "(bytes \<times> bytes) option"
  | IRawMessage bytes
  | ISocks "socks5_server option"
  | IFS fs_request
  | ITest
  | ISyncConfig "(config \<times> config2) option"
  | IClipbaordFile clipbaord_file
  | IClipboardFileEnabled bool

datatype ipc_effect = FixKeysAndExit | TestNatType | RestartMediator | RestartAudio

record service_world = settings +
  click_time :: int
  mouse_move_time :: int
  ipc_effects :: "ipc_effect list"

definition emit :: "ipc_effect \<Rightarrow> service_world \<Rightarrow> service_world" where
  "emit e W = W\<lparr>ipc_effects := ipc_effects W @ [e]\<rparr>"

subsection \<open>The service's side\<close>

text \<open>The value of a named setting, \<open>None\<close> for other names.\<close>

definition read_setting :: "'e config_env_scheme \<Rightarrow> string \<Rightarrow> service_world \<Rightarrow> string option \<times> service_world" where
  "read_setting E n W =
     (if n = ''id'' then map_prod Some (\<lambda>w. w) (Config.get_id E W)
      else if n = ''password'' then map_prod Some (\<lambda>w. w) (get_password E W)
      else if n = ''salt'' then map_prod Some (\<lambda>w. w) (get_salt E W)
      else if n = ''rendezvous_server'' then (Some (get_rendezvous_server W), W)
      else if n = ''rendezvous_servers'' then (Some (join_with '','' (get_rendezvous_servers W)), W)
      else if n = ''cstdir'' then (Some (get_cstdir W), W)
      else if n = ''pwdupd'' then (Some (get_pwdupd W), W)
      else if n = ''idle'' then (Some (get_idle W), W)
      else if n = ''flagex'' then (Some (get_flagex W), W)
      else if n = ''uid'' then (Some (get_uid W), W)
      else (None, W))"

definition write_setting :: "'e config_env_scheme \<Rightarrow> string \<Rightarrow> string \<Rightarrow> service_world \<Rightarrow> service_world" where
  "write_setting E n v W =
     (if n = ''id'' then set_id E v (set_key_confirmed E False W)
      else if n = ''password'' then set_password E v W
      else if n = ''salt'' then set_salt E v W
      else if n = ''cstdir'' then set_cstdir E v W
      else if n = ''pwdupd'' then set_pwdupd E v W
      else if n = ''idle'' then set_idle E v W
      else if n = ''flagex'' then set_flagex E v W
      else if n = ''uid'' then set_uid E v W
      else W)"

definition max_latency :: "(string \<times> int) list \<Rightarrow> int" where
  "max_latency hs = (if hs = [] then 0 else Max (snd ` set hs))"

definition replace_options ::
  "'e config_env_scheme \<Rightarrow> (string \<rightharpoonup> string) \<Rightarrow> service_world \<Rightarrow> service_world" where
  "replace_options E os W =
     (let W' = set_options E os W;
          W1 = (if get_option ''stop-service'' W \<noteq> get_option ''stop-service'' W' \<or>
                   get_rendezvous_servers W \<noteq> get_rendezvous_servers W'
                then emit RestartMediator W' else W')
      in if get_option ''audio-input'' W \<noteq> get_option ''audio-input'' W' then emit RestartAudio W1 else W1)"

text \<open>\<open>handle\<close>: the answer that is sent, if any. \<open>si\<close> is the text of a \<open>SystemInfo\<close> answer.\<close>

fun handle_ipc ::
  "'e config_env_scheme \<Rightarrow> string \<Rightarrow> ipc_data \<Rightarrow> service_world \<Rightarrow> ipc_data option \<times> service_world" where
  "handle_ipc E si (ISystemInfo _) W = (Some (ISystemInfo (Some si)), W)"
| "handle_ipc E si (IClickTime _) W = (Some (IClickTime (click_time W)), W)"
| "handle_ipc E si (IMouseMoveTime _) W = (Some (IMouseMoveTime (mouse_move_time W)), W)"
| "handle_ipc E si IClose W = (None, emit FixKeysAndExit W)"
| "handle_ipc E si (IOnlineStatus _) W =
     (Some (IOnlineStatus (Some (max_latency (online W), get_key_confirmed W))), W)"
| "handle_ipc E si (IConfirmedKey None) W =
     (if get_key_confirmed W then (case get_key_pair E W of (kp, W) \<Rightarrow> (Some (IConfirmedKey (Some kp)), W))
      else (Some (IConfirmedKey None), W))"
| "handle_ipc E si (ISocks None) W = (Some (ISocks (get_socks W)), W)"
| "handle_ipc E si (ISocks (Some d)) W =
     (None, emit RestartMediator (emit TestNatType (set_socks E (if s_proxy d = [] then None else Some d) W)))"
| "handle_ipc E si (IConfig n None) W =
     (case read_setting E n W of (v, W) \<Rightarrow> (Some (IConfig n v), W))"
| "handle_ipc E si (IConfig n (Some v)) W = (None, write_setting E n v W)"
| "handle_ipc E si (IOptions None) W = (Some (IOptions (Some (get_options W))), W)"
| "handle_ipc E si (IOptions (Some os)) W = (Some (IOptions None), replace_options E os W)"
| "handle_ipc E si (INatType _) W = (Some (INatType (Some (get_nat_type W))), W)"
| "handle_ipc E si (ISyncConfig (Some (c, c2))) W = (Some (ISyncConfig None), set_config2 E c2 (set_config E c W))"
| "handle_ipc E si (ISyncConfig None) W = (Some (ISyncConfig (Some (config W, config2 W))), W)"
| "handle_ipc E si _ W = (None, W)"

subsection \<open>The other processes' side\<close>

record call_env = config_env +
  connect_ok :: bool
  in_time :: bool
  service_env :: config_env
  sys_info :: string

type_synonym processes = "settings \<times> service_world"

text \<open>A request with its answer; a request that is only sent.\<close>

definition request :: "call_env \<Rightarrow> ipc_data \<Rightarrow> processes \<Rightarrow> ipc_data outcome \<times> processes" where
  "request E d = (\<lambda>(c, W).
     if \<not> connect_ok E then (Failed ''connect'', (c, W))
     else case handle_ipc (service_env E) (sys_info E) d W of (r, W) \<Rightarrow>
       ((case r of Some a \<Rightarrow> if in_time E then Done a else Failed ''deadline'' | None \<Rightarrow> Failed ''deadline''), (c, W)))"

definition send_only :: "call_env \<Rightarrow> ipc_data \<Rightarrow> processes \<Rightarrow> bool \<times> processes" where
  "send_only E d = (\<lambda>(c, W).
     if \<not> connect_ok E then (False, (c, W))
     else (True, (c, snd (handle_ipc (service_env E) (sys_info E) d W))))"

definition get_config :: "call_env \<Rightarrow> string \<Rightarrow> processes \<Rightarrow> string option outcome \<times> processes" where
  "get_config E n P =
     (case request E (IConfig n None) P of
        (Done (IConfig n2 v), P) \<Rightarrow> (Done (if n = n2 then v else None), P)
      | (Done _, P) \<Rightarrow> (Done None, P)
      | (Failed e, P) \<Rightarrow> (Failed e, P)
      | (Panicked, P) \<Rightarrow> (Panicked, P))"

definition ipc_set_config :: "call_env \<Rightarrow> string \<Rightarrow> string \<Rightarrow> processes \<Rightarrow> bool \<times> processes" where
  "ipc_set_config E n v = send_only E (IConfig n (Some v))"

definition on_client :: "(settings \<Rightarrow> settings) \<Rightarrow> processes \<Rightarrow> processes" where
  "on_client f = (\<lambda>(c, W). (f c, W))"

definition ipc_set_password :: "call_env \<Rightarrow> string \<Rightarrow> processes \<Rightarrow> bool \<times> processes" where
  "ipc_set_password E v P = ipc_set_config E ''password'' v (on_client (set_password E v) P)"

definition ipc_set_cstdir :: "call_env \<Rightarrow> string \<Rightarrow> processes \<Rightarrow> bool \<times> processes" where
  "ipc_set_cstdir E v P = ipc_set_config E ''cstdir'' v (on_client (set_cstdir E v) P)"

definition ipc_set_pwdupd :: "call_env \<Rightarrow> string \<Rightarrow> processes \<Rightarrow> bool \<times> processes" where
  "ipc_set_pwdupd E v P = ipc_set_config E ''pwdupd'' v (on_client (set_pwdupd E v) P)"

definition ipc_set_idle :: "call_env \<Rightarrow> string \<Rightarrow> processes \<Rightarrow> bool \<times> processes" where
  "ipc_set_idle E v P = ipc_set_config E ''idle'' v (on_client (set_idle E v) P)"

definition ipc_set_flagex :: "call_env \<Rightarrow> string \<Rightarrow> processes \<Rightarrow> bool \<times> processes" where
  "ipc_set_flagex E v P = ipc_set_config E ''flagex'' v (on_client (set_flagex E v) P)"

definition ipc_set_uid :: "call_env \<Rightarrow> string \<Rightarrow> processes \<Rightarrow> bool \<times> processes" where
  "ipc_set_uid E v P = ipc_set_config E ''uid'' v (on_client (set_uid E v) P)"

definition ipc_set_password_ex :: "call_env \<Rightarrow> string \<Rightarrow> processes \<Rightarrow> bool \<times> processes" where
  "ipc_set_password_ex E v P = ipc_set_config E ''password'' v P"

text \<open>A named setting as the service knows it, copied; without the service, the process's own.\<close>

definition ask_setting ::
  "call_env \<Rightarrow> string \<Rightarrow> (string \<Rightarrow> settings \<Rightarrow> settings) \<Rightarrow> (settings \<Rightarrow> string \<times> settings) \<Rightarrow> processes
     \<Rightarrow> string \<times> processes" where
  "ask_setting E n st own P =
     (case get_config E n P of
        (Done (Some v), P) \<Rightarrow> (v, on_client (st v) P)
      | (_, (c, W)) \<Rightarrow> (case own c of (v, c) \<Rightarrow> (v, (c, W))))"

definition ipc_get_password :: "call_env \<Rightarrow> processes \<Rightarrow> string \<times> processes" where
  "ipc_get_password E = ask_setting E ''password'' (set_password E) (get_password E)"

definition ipc_get_cstdir :: "call_env \<Rightarrow> processes \<Rightarrow> string \<times> processes" where
  "ipc_get_cstdir E = ask_setting E ''cstdir'' (set_cstdir E) (\<lambda>c. (get_cstdir c, c))"

definition ipc_get_pwdupd :: "call_env \<Rightarrow> processes \<Rightarrow> string \<times> processes" where
  "ipc_get_pwdupd E = ask_setting E ''pwdupd'' (set_pwdupd E) (\<lambda>c. (get_pwdupd c, c))"

definition ipc_get_idle :: "call_env \<Rightarrow> processes \<Rightarrow> string \<times> processes" where
  "ipc_get_idle E = ask_setting E ''idle'' (set_idle E) (\<lambda>c. (get_idle c, c))"

definition ipc_get_flagex :: "call_env \<Rightarrow> processes \<Rightarrow> string \<times> processes" where
  "ipc_get_flagex E = ask_setting E ''flagex'' (set_flagex E) (\<lambda>c. (get_flagex c, c))"

definition ipc_get_uid :: "call_env \<Rightarrow> processes \<Rightarrow> string \<times> processes" where
  "ipc_get_uid E = ask_setting E ''uid'' (set_uid E) (\<lambda>c. (get_uid c, c))"

text \<open>The id comes with the salt; a new id is not confirmed.\<close>

definition ipc_get_id :: "call_env \<Rightarrow> processes \<Rightarrow> string \<times> processes" where
  "ipc_get_id E P =
     (case get_config E ''id'' P of
        (Done (Some v), P) \<Rightarrow>
          let P = (case get_config E ''salt'' P of (Done (Some v2), P) \<Rightarrow> on_client (set_salt E v2) P | (_, P) \<Rightarrow> P)
          in (case P of (c, W) \<Rightarrow> case Config.get_id E c of (i, c) \<Rightarrow>
               (v, (if v \<noteq> i then set_id E v (set_key_confirmed E False c) else c, W)))
      | (_, (c, W)) \<Rightarrow> (case Config.get_id E c of (i, c) \<Rightarrow> (i, (c, W))))"

definition ipc_get_rendezvous_server :: "call_env \<Rightarrow> processes \<Rightarrow> string \<times> processes" where
  "ipc_get_rendezvous_server E = ask_setting E ''rendezvous_server'' (\<lambda>_ c. c) (\<lambda>c. (get_rendezvous_server c, c))"

definition ipc_get_options :: "call_env \<Rightarrow> processes \<Rightarrow> (string \<rightharpoonup> string) \<times> processes" where
  "ipc_get_options E P =
     (case request E (IOptions None) P of
        (Done (IOptions (Some v)), P) \<Rightarrow> (v, on_client (set_options E v) P)
      | (_, (c, W)) \<Rightarrow> (get_options c, (c, W)))"

definition ipc_get_option :: "call_env \<Rightarrow> string \<Rightarrow> processes \<Rightarrow> string \<times> processes" where
  "ipc_get_option E k P =
     (case ipc_get_options E P of (os, P) \<Rightarrow> ((case os k of Some v \<Rightarrow> v | None \<Rightarrow> []), P))"

definition ipc_set_options :: "call_env \<Rightarrow> (string \<rightharpoonup> string) \<Rightarrow> processes \<Rightarrow> processes" where
  "ipc_set_options E v P = on_client (set_options E v) (snd (send_only E (IOptions (Some v)) P))"

definition ipc_set_option :: "call_env \<Rightarrow> string \<Rightarrow> string \<Rightarrow> processes \<Rightarrow> processes" where
  "ipc_set_option E k v P =
     (case ipc_get_options E P of (os, P) \<Rightarrow> ipc_set_options E (if v = [] then os(k := None) else os(k \<mapsto> v)) P)"

definition ipc_get_nat_type :: "call_env \<Rightarrow> processes \<Rightarrow> int \<times> processes" where
  "ipc_get_nat_type E P =
     (case request E (INatType None) P of
        (Done (INatType (Some v)), P) \<Rightarrow> (v, on_client (set_nat_type E v) P)
      | (_, (c, W)) \<Rightarrow> (get_nat_type c, (c, W)))"

definition ipc_get_socks :: "call_env \<Rightarrow> processes \<Rightarrow> socks5_server option \<times> processes" where
  "ipc_get_socks E P =
     (case request E (ISocks None) P of
        (Done (ISocks v), P) \<Rightarrow> (v, on_client (set_socks E v) P)
      | (_, (c, W)) \<Rightarrow> (get_socks c, (c, W)))"

definition ipc_set_socks :: "call_env \<Rightarrow> socks5_server \<Rightarrow> processes \<Rightarrow> bool \<times> processes" where
  "ipc_set_socks E v P =
     send_only E (ISocks (Some v)) (on_client (set_socks E (if s_proxy v = [] then None else Some v)) P)"


subsection \<open>Agreement of the processes\<close>

lemma set_options_get [simp]: "options (config2 (set_options E os S)) = os"
  by (simp add: set_options_def store_config2_def Let_def)

lemma emit_frame [simp]:
  "config2 (emit e W) = config2 W" "config (emit e W) = config W" "ipc_effects (emit e W) = ipc_effects W @ [e]"
  by (simp_all add: emit_def)

lemma replace_options_frame [simp]: "options (config2 (replace_options E os W)) = os"
  by (simp add: replace_options_def Let_def)

lemma ipc_get_options_connected:
  "connect_ok E \<Longrightarrow> in_time E \<Longrightarrow> ipc_get_options E (c, W) = (options (config2 W), (set_options E (options (config2 W)) c, W))"
  by (simp add: ipc_get_options_def request_def on_client_def get_options_def)

lemma ipc_set_options_connected:
  "connect_ok E \<Longrightarrow> ipc_set_options E os (c, W) = (set_options E os c, replace_options (service_env E) os W)"
  by (simp add: ipc_set_options_def send_only_def on_client_def)

lemma ipc_set_option_tables:
  assumes "connect_ok E" "in_time E" "ipc_set_option E k v (c, W) = (c', W')"
  shows "W' = replace_options (service_env E) ((options (config2 W))(k := if v = [] then None else Some v)) W"
    "options (config2 c') = (options (config2 W))(k := if v = [] then None else Some v)"
  using assms by (auto simp: ipc_set_option_def ipc_get_options_connected ipc_set_options_connected)

lemma emit_option [simp]: "get_option q (emit f X) = get_option q X"
  by (simp add: get_option_def)

lemma emit_servers [simp]: "get_rendezvous_servers (emit f X) = get_rendezvous_servers X"
  by (simp add: get_rendezvous_servers_def Let_def)

lemma set_options_effects [simp]: "ipc_effects (set_options E os W) = ipc_effects W"
  by (simp add: set_options_def store_config2_def Let_def)

text \<open>
  C21: An option that a process sets through the service is set there and in the process, and the
  process takes over every other option from the service, whatever it had before. The rendezvous
  mediator is restarted exactly when the option changes the servers or the one that stops the service.
\<close>

theorem ipc_option_reaches_service:
  assumes "connect_ok E" "in_time E" "ipc_set_option E k v (c, W) = (c', W')"
  shows "get_option j W' = (if j = k then v else get_option j W) \<and> options (config2 c') = options (config2 W') \<and>
    (RestartMediator \<in> set (drop (length (ipc_effects W)) (ipc_effects W')) \<longleftrightarrow>
       get_option ''stop-service'' W \<noteq> get_option ''stop-service'' W' \<or>
       get_rendezvous_servers W \<noteq> get_rendezvous_servers W')"
  using ipc_set_option_tables [OF assms]
  by (auto simp: get_option_def [of j] replace_options_def [of _ _ W] Let_def)

definition sample_call :: call_env where
  "sample_call = \<lparr>disk_ok = True, mac_address = None, gen_keypair = ([1], [2]), clock = 7, connect_ok = True,
     in_time = True, service_env = sample_config_env, sys_info = []\<rparr>"

definition sample_service :: service_world where
  "sample_service = settings.extend default_settings \<lparr>click_time = 0, mouse_move_time = 0, ipc_effects = []\<rparr>"

theorem ipc_option_reaches_service_witness:
  "get_option ''audio-input'' (snd (ipc_set_option sample_call ''audio-input'' ''mic'' (default_settings, sample_service))) = ''mic''"
proof -
  obtain c' W' where s: "ipc_set_option sample_call ''audio-input'' ''mic'' (default_settings, sample_service) = (c', W')"
    by force
  show ?thesis
    using ipc_option_reaches_service [OF _ _ s, of "''audio-input''"] s by (simp add: sample_call_def)
qed

text \<open>
  Two processes that set options at the same time lose one of them: a process writes back the
  whole table that it read, and with it the old value of an option that another one has set
  meanwhile, although the two options have nothing to do with each other.
\<close>

theorem concurrent_set_option_loses_one:
  assumes "connect_ok E" "in_time E" "k \<noteq> k'" "v \<noteq> []"
    "ipc_get_options E (a, W) = (os, (a1, W1))"
    "ipc_set_option E k' v' (b, W1) = (b2, W2)"
    "ipc_set_options E (os(k \<mapsto> v)) (a1, W2) = (a3, W3)"
  shows "get_option k' W2 = v' \<and> get_option k W3 = v \<and> get_option k' W3 = get_option k' W"
proof -
  have "os = options (config2 W)" "W1 = W"
    using assms(1,2,5) by (auto simp: ipc_get_options_connected)
  moreover have "options (config2 W3) = os(k \<mapsto> v)"
    using assms(1,7) by (auto simp: ipc_set_options_connected)
  moreover have "get_option k' W2 = v'"
    using ipc_set_option_tables(1) [OF assms(1,2,6)] by (simp add: get_option_def)
  ultimately show ?thesis using assms(3) by (simp add: get_option_def)
qed

theorem concurrent_set_option_loses_one_witness:
  "get_option ''b'' (snd (ipc_set_options sample_call (Map.empty(''a'' \<mapsto> ''1''))
     (default_settings, snd (ipc_set_option sample_call ''b'' ''2'' (default_settings, sample_service))))) = []"
proof -
  have g: "ipc_get_options sample_call (default_settings, sample_service) = (Map.empty, (default_settings, sample_service))"
    by (simp add: ipc_get_options_connected sample_call_def sample_service_def default_settings_def
      default_config2_def Let_def settings.extend_def set_options_def)
  obtain b2 W2 where w2: "ipc_set_option sample_call ''b'' ''2'' (default_settings, sample_service) = (b2, W2)" by force
  obtain a3 W3 where w3: "ipc_set_options sample_call (Map.empty(''a'' \<mapsto> ''1'')) (default_settings, W2) = (a3, W3)" by force
  have "get_option ''b'' W3 = get_option ''b'' sample_service"
    using concurrent_set_option_loses_one [OF _ _ _ _ g w2 w3] by (simp add: sample_call_def)
  moreover have "get_option ''b'' sample_service = []"
    by (simp add: get_option_def sample_service_def default_settings_def default_config2_def Let_def settings.extend_def)
  ultimately show ?thesis using w2 w3 by simp
qed

text \<open>
  The password: set through the channel it is the one both have, and asking gives the service's.
\<close>

lemma ipc_password_agrees:
  assumes "connect_ok E" "in_time E" "v \<noteq> []" "ipc_set_password E v (c, W) = (b, (c', W'))"
  shows "c_password (config c') = v" "c_password (config W') = v" "fst (ipc_get_password E (c', W')) = v"
proof -
  have "c_password (config (set_password F p S)) = p" for F p and S :: "'s settings_scheme"
    by (simp add: set_password_def store_config_def Let_def)
  then show c: "c_password (config c') = v" and w: "c_password (config W') = v"
    using assms by (auto simp: ipc_set_password_def ipc_set_config_def send_only_def on_client_def write_setting_def
      set_password_def store_config_def Let_def split: if_splits)
  show "fst (ipc_get_password E (c', W')) = v"
    using assms(1-3) w by (simp add: ipc_get_password_def ask_setting_def get_config_def request_def read_setting_def
      get_password_def on_client_def)
qed

end
