(* ===== verification/Connection.thy ===== *)
theory Connection
  imports Ipc Rendezvous_Proto
begin

text \<open>
  The controlled side of a session, \<open>src/server/connection.rs\<close>, as it is built for Windows. A session
  is one record: the connection, the settings of the process, the table of failed logins, the
  \<open>Server\<close> with its services (a subscriber is the list of messages that the services sent to it) and
  the list of what the connection did to the rest of the world (\<open>out\<close>).

  A handler takes the environment of its call: the time, the answers of the operating system, the
  digest function, the files. Reading the clock several times in a handler gives one time. The
  server outlives its connections. A panic (the log file of operations cannot be created) ends the
  task. Texts are bytes; the remarks in Chinese are constants.
\<close>

definition NAME_CURSOR :: string where "NAME_CURSOR = ''mouse_cursor''"

definition NAME_POS :: string where "NAME_POS = ''mouse_pos''"

definition NAME_CLIPBOARD :: string where "NAME_CLIPBOARD = ''clipboard''"

definition NAME_AUDIO :: string where "NAME_AUDIO = ''audio''"

datatype message_input =
    InMouse mouse_event int
  | InKey key_event bool
  | BlockOn
  | BlockOff
  | PrivacyOn
  | PrivacyOff

datatype log_kind = LogConnectIn | LogFileOut | LogFileIn | LogRemoveDir | LogRemoveFile | LogDisconnect

datatype log_remark = ByHand | ByPassword | Remark string | SizeAndPath nat string

record op_log =
  lclid :: string
  lcluid :: string
  log_type :: log_kind
  rmtid :: string
  rmtuid :: string
  remark :: log_remark

datatype conn_effect =
    ToPeer message
  | ToPeerRaw bytes
  | ToSelf message
  | ToCm ipc_data
  | Input message_input
  | SetClipboard bool bytes
  | WriteLog op_log
  | LockScreenNow
  | ActivateScreen
  | FrameFetched int bool
  | TestLatency int int
  | VideoQuality int "int option"
  | SwitchDisplayTo int
  | RefreshVideoNow
  | ToForward bytes

record conn_env = config_env +
  now_ms :: int
  active_username :: string
  host_name :: string
  platform_name :: string
  version_name :: string
  is_root :: bool
  is_prelogin :: bool
  cm_alive :: bool
  displays :: "string + int \<times> display_info list"
  can_connect :: "string \<Rightarrow> bool"
  sha256 :: "bytes \<Rightarrow> bytes"
  ip_of :: "string \<Rightarrow> ip_addr option"
  is_dir :: "string \<Rightarrow> bool"
  tree_at :: "string \<Rightarrow> node option"
  log_ok :: bool
  file_env :: fs_env
  disk_now :: disk

record session = service_world +
  conn_id :: int
  hash_salt :: string
  hash_challenge :: string
  read_jobs :: "transfer_job list"
  fast_timer :: bool
  file_transfer :: "(string \<times> bool) option"
  port_forward_socket :: "string option"
  port_forward_address :: string
  authorized :: bool
  latest_active_time :: int
  keyboard :: bool
  clip :: bool
  audio :: bool
  file_perm :: bool
  last_test_delay :: int
  quality :: int
  lock_after_session_end :: bool
  show_remote_cursor :: bool
  privacy_mode :: bool
  conn_ip :: string
  peer_id :: string
  peer_name :: string
  peer_uid :: string
  disable_clipboard :: bool
  disable_audio :: bool
  enable_file_transfer :: bool
  video_ack_required :: bool
  last_recv_time :: int
  login_failures :: "string \<rightharpoonup> int \<times> int \<times> int"
  sv :: "(unit, message list) server"
  out :: "conn_effect list"

subsection \<open>Small operations\<close>

definition does :: "conn_effect \<Rightarrow> session \<Rightarrow> session" where
  "does e S = S\<lparr>out := out S @ [e]\<rparr>"

definition send :: "message \<Rightarrow> session \<Rightarrow> session" where
  "send m = does (ToPeer m)"

definition send_to_cm :: "ipc_data \<Rightarrow> session \<Rightarrow> session" where
  "send_to_cm d = does (ToCm d)"

definition send_fs :: "fs_request \<Rightarrow> session \<Rightarrow> session" where
  "send_fs r = send_to_cm (IFS r)"

definition conn_read_dir :: "string \<Rightarrow> bool \<Rightarrow> session \<Rightarrow> session" where
  "conn_read_dir dir hid = send_fs (FsReadDir dir hid)"

definition send_permission :: "permission \<Rightarrow> bool \<Rightarrow> session \<Rightarrow> session" where
  "send_permission p b = send (Misc (PermissionInfo p b))"

definition send_login_error :: "string \<Rightarrow> session \<Rightarrow> session" where
  "send_login_error err = send (LoginResponse (LoginError err))"

definition set_subscription :: "string \<Rightarrow> bool \<Rightarrow> session \<Rightarrow> session" where
  "set_subscription n b S = S\<lparr>sv := Service.subscribe (\<lambda>_ _. []) n (conn_id S) () b (sv S)\<rparr>"

definition clipboard_enabled :: "session \<Rightarrow> bool" where
  "clipboard_enabled S \<longleftrightarrow> clip S \<and> \<not> disable_clipboard S"

definition audio_enabled :: "session \<Rightarrow> bool" where
  "audio_enabled S \<longleftrightarrow> audio S \<and> \<not> disable_audio S"

definition file_transfer_enabled :: "session \<Rightarrow> bool" where
  "file_transfer_enabled S \<longleftrightarrow> file_perm S \<and> enable_file_transfer S"

definition get_connect_idle_val :: "session \<Rightarrow> int" where
  "get_connect_idle_val S =
     (let v = get_idle S in
      if v = ''0'' then 10 else if v = ''1'' then 30 else if v = ''2'' then 60 else if v = ''3'' then 180 else 30)"

definition touch :: "'e conn_env_scheme \<Rightarrow> session \<Rightarrow> session" where
  "touch E S = S\<lparr>latest_active_time := now_ms E\<rparr>"

text \<open>Writing the log of operations, and then the rest of the handler.\<close>

definition logged ::
  "'e conn_env_scheme \<Rightarrow> log_kind \<Rightarrow> log_remark \<Rightarrow> (session \<Rightarrow> bool outcome \<times> session) \<Rightarrow> session
     \<Rightarrow> bool outcome \<times> session" where
  "logged E k r rest S =
     (if log_ok E then
        (case Config.get_id E S of (i, S) \<Rightarrow>
           rest (does (WriteLog \<lparr>lclid = i, lcluid = get_uid S, log_type = k, rmtid = peer_id S,
             rmtuid = peer_uid S, remark = r\<rparr>) S))
      else (Panicked, S))"

subsection \<open>Options\<close>

definition on_image_quality :: "image_quality proto_enum \<Rightarrow> session \<Rightarrow> session" where
  "on_image_quality q S =
     (case q of
        Known q \<Rightarrow> does (VideoQuality (conn_id S) (Some (quality_value q))) (S\<lparr>quality := quality_value q\<rparr>)
      | Unknown _ \<Rightarrow> S)"

definition on_custom_quality :: "int \<Rightarrow> session \<Rightarrow> session" where
  "on_custom_quality q S =
     (if q > 0 then does (VideoQuality (conn_id S) (Some q)) (S\<lparr>quality := q\<rparr>) else S)"

text \<open>A field that is set is yes or no; unset and unknown values change nothing.\<close>

fun set_option_to :: "bool_option proto_enum \<Rightarrow> bool option" where
  "set_option_to (Known Yes) = Some True"
| "set_option_to (Known No) = Some False"
| "set_option_to _ = None"

definition when_set :: "bool_option proto_enum \<Rightarrow> (bool \<Rightarrow> session \<Rightarrow> session) \<Rightarrow> session \<Rightarrow> session" where
  "when_set q f S = (case set_option_to q of Some b \<Rightarrow> f b S | None \<Rightarrow> S)"

definition on_lock_option :: "bool \<Rightarrow> session \<Rightarrow> session" where
  "on_lock_option b S = S\<lparr>lock_after_session_end := b\<rparr>"

definition on_cursor_option :: "bool \<Rightarrow> session \<Rightarrow> session" where
  "on_cursor_option b S =
     set_subscription NAME_POS b (set_subscription NAME_CURSOR (keyboard S \<or> b) (S\<lparr>show_remote_cursor := b\<rparr>))"

definition on_audio_option :: "bool \<Rightarrow> session \<Rightarrow> session" where
  "on_audio_option b S = (let S = S\<lparr>disable_audio := b\<rparr> in set_subscription NAME_AUDIO (audio_enabled S) S)"

definition on_file_option :: "bool \<Rightarrow> session \<Rightarrow> session" where
  "on_file_option b S =
     (let S = S\<lparr>enable_file_transfer := b\<rparr> in send_to_cm (IClipboardFileEnabled (file_transfer_enabled S)) S)"

definition on_clipboard_option :: "bool \<Rightarrow> session \<Rightarrow> session" where
  "on_clipboard_option b S =
     (let S = S\<lparr>disable_clipboard := b\<rparr> in set_subscription NAME_CLIPBOARD (clipboard_enabled S \<and> keyboard S) S)"

definition on_privacy_option :: "bool \<Rightarrow> session \<Rightarrow> session" where
  "on_privacy_option b S =
     (if keyboard S then does (Input (if b then PrivacyOn else PrivacyOff)) (S\<lparr>privacy_mode := b\<rparr>) else S)"

definition on_block_option :: "bool \<Rightarrow> session \<Rightarrow> session" where
  "on_block_option b S = (if keyboard S then does (Input (if b then BlockOn else BlockOff)) S else S)"

definition update_option :: "option_message \<Rightarrow> session \<Rightarrow> session" where
  "update_option o1 S =
     (let S = on_image_quality (image_quality o1) S;
          S = on_custom_quality (custom_image_quality o1) S;
          S = when_set (o_lock_after_session_end o1) on_lock_option S;
          S = when_set (o_show_remote_cursor o1) on_cursor_option S;
          S = when_set (o_disable_audio o1) on_audio_option S;
          S = when_set (o_enable_file_transfer o1) on_file_option S;
          S = when_set (o_disable_clipboard o1) on_clipboard_option S;
          S = when_set (o_privacy_mode o1) on_privacy_option S
      in when_set (o_block_input o1) on_block_option S)"

subsection \<open>Opening and closing\<close>

definition whitelist_blocks :: "'e conn_env_scheme \<Rightarrow> socket_addr \<Rightarrow> session \<Rightarrow> bool" where
  "whitelist_blocks E addr S =
     (let wl = filter (\<lambda>x. x \<noteq> []) (split_on (CHR '','') (get_option ''whitelist'' S))
      in wl \<noteq> [] \<and> ''0.0.0.0'' \<notin> set wl \<and> filter (\<lambda>x. ip_of E x = Some (ip addr)) wl = [])"

definition on_open :: "'e conn_env_scheme \<Rightarrow> socket_addr \<Rightarrow> session \<Rightarrow> bool \<times> session" where
  "on_open E addr S =
     (if get_flagex S \<noteq> ''1'' then (False, S)
      else if whitelist_blocks E addr S then (False, send_login_error ''Your ip is blocked by the peer'' S)
      else (True, send (Hash (hash_salt S) (hash_challenge S)) (S\<lparr>conn_ip := ip_to_string (ip addr)\<rparr>)))"

definition on_close :: "'e conn_env_scheme \<Rightarrow> bool \<Rightarrow> session \<Rightarrow> unit outcome \<times> session" where
  "on_close E lock S =
     (case logged E LogDisconnect (Remark ''1'') (\<lambda>S. (Done True, S)) S of
        (Done _, S) \<Rightarrow>
          let S = S\<lparr>sv := remove_connection (conn_id S) (sv S)\<rparr>;
              S = (if lock \<and> lock_after_session_end S \<and> keyboard S then does LockScreenNow S else S);
              S = (send_to_cm IClose S)\<lparr>port_forward_socket := None\<rparr>
          in (Done (), if get_pwdupd S = ''1'' then (case get_auto_password S of (p, S) \<Rightarrow> set_password E p S) else S)
      | (_, S) \<Rightarrow> (Panicked, S))"

definition close_message :: "'e conn_env_scheme \<Rightarrow> string \<Rightarrow> session \<Rightarrow> unit outcome \<times> session" where
  "close_message E reason S = on_close E False (send (Misc (CloseReason reason)) S)"

definition check_client_idle_timeout :: "'e conn_env_scheme \<Rightarrow> session \<Rightarrow> bool" where
  "check_client_idle_timeout E S \<longleftrightarrow>
     latest_active_time S \<noteq> 0 \<and> now_ms E - latest_active_time S > get_connect_idle_val S * 60 * 1000"


subsection \<open>Logging in\<close>

definition peer_info_of :: "'e conn_env_scheme \<Rightarrow> string \<Rightarrow> string \<Rightarrow> bool \<Rightarrow> peer_info_msg" where
  "peer_info_of E uname u sas =
     \<lparr>pi_username = uname, pi_hostname = host_name E, pi_platform = platform_name E, pi_displays = [],
      pi_current_display = 0, pi_sas_enabled = sas, pi_version = version_name E, pi_uid = u\<rparr>"

definition no_permissions :: "session \<Rightarrow> string list" where
  "no_permissions S =
     (if \<not> keyboard S \<and> \<not> show_remote_cursor S then [NAME_CURSOR] else []) @
     (if \<not> show_remote_cursor S then [NAME_POS] else []) @
     (if \<not> clipboard_enabled S \<or> \<not> keyboard S then [NAME_CLIPBOARD] else []) @
     (if \<not> audio_enabled S then [NAME_AUDIO] else [])"

definition authorized_response :: "'e conn_env_scheme \<Rightarrow> session \<Rightarrow> session" where
  "authorized_response E S =
     (let uname = (if file_transfer S \<noteq> None \<and> (is_prelogin E \<or> \<not> cm_alive E) then [] else active_username E);
          S = (if file_transfer S \<noteq> None \<and> \<not> is_prelogin E then send_to_cm ITest S else S);
          S = (touch E S)\<lparr>authorized := True\<rparr>;
          pinfo = peer_info_of E uname (get_uid S) (is_root E)
      in case file_transfer S of
           Some (dir, hid) \<Rightarrow>
             conn_read_dir (if dir \<noteq> [] \<and> is_dir E dir then dir else []) hid
               (send (LoginResponse (LoginPeerInfo pinfo)) S)
         | None \<Rightarrow>
             let S = does ActivateScreen S in
             (case displays E of
                Inl err \<Rightarrow> send (LoginResponse (LoginError (''X11 error: '' @ err))) S
              | Inr (cur, ds) \<Rightarrow>
                  let S = send (LoginResponse (LoginPeerInfo (pinfo\<lparr>pi_displays := ds, pi_current_display := cur\<rparr>))) S
                  in S\<lparr>sv := add_connection (\<lambda>_ _. []) (conn_id S) () (no_permissions S) (sv S)\<rparr>))"

definition send_logon_response :: "'e conn_env_scheme \<Rightarrow> session \<Rightarrow> session" where
  "send_logon_response E S =
     (if authorized S then S
      else if port_forward_socket S \<noteq> None
      then send (LoginResponse (LoginPeerInfo (peer_info_of E (active_username E) [] False))) S
      else authorized_response E S)"

definition try_start_cm :: "string \<Rightarrow> string \<Rightarrow> string \<Rightarrow> bool \<Rightarrow> session \<Rightarrow> session" where
  "try_start_cm pid nm pu auth S =
     (let S = S\<lparr>peer_id := pid, peer_name := nm, peer_uid := pu\<rparr> in
      send_to_cm (ILogin \<lparr>login_id = conn_id S, login_is_file_transfer = (file_transfer S \<noteq> None),
        login_peer_id = pid, login_name = nm, login_authorized = auth, login_port_forward = port_forward_address S,
        login_keyboard = keyboard S, login_clipboard = clip S, login_audio = audio S, login_file = file_perm S,
        login_file_transfer_enabled = file_transfer_enabled S\<rparr>) S)"

text \<open>\<open>is_ip\<close>: four groups of digits with dots, and perhaps a port; digits are ASCII here.\<close>

definition all_digits :: "string \<Rightarrow> bool" where
  "all_digits s \<longleftrightarrow> s \<noteq> [] \<and> list_all (\<lambda>c. of_char c \<in> {48..57 :: nat}) s"

definition is_ip :: "string \<Rightarrow> bool" where
  "is_ip s =
     (case split_on (CHR '':'') s of
        [a] \<Rightarrow> length (split_on (CHR ''.'') a) = 4 \<and> list_all all_digits (split_on (CHR ''.'') a)
      | [a, p] \<Rightarrow> length (split_on (CHR ''.'') a) = 4 \<and> list_all all_digits (split_on (CHR ''.'') a) \<and> all_digits p
      | _ \<Rightarrow> False)"

definition text_bytes :: "string \<Rightarrow> bytes" where
  "text_bytes s = map (\<lambda>c. of_nat (of_char c)) s"

definition password_digest :: "'e conn_env_scheme \<Rightarrow> string \<Rightarrow> string \<Rightarrow> string \<Rightarrow> bytes" where
  "password_digest E pw slt challenge =
     sha256 E (sha256 E (text_bytes pw @ text_bytes slt) @ text_bytes challenge)"

definition login_minute :: "'e conn_env_scheme \<Rightarrow> int" where
  "login_minute E = wrap_i32 (now_ms E div 60000)"

definition failure_of :: "session \<Rightarrow> int \<times> int \<times> int" where
  "failure_of S = (case login_failures S (conn_ip S) of Some f \<Rightarrow> f | None \<Rightarrow> (0, 0, 0))"

definition count_failure :: "int \<Rightarrow> int \<times> int \<times> int \<Rightarrow> int \<times> int \<times> int" where
  "count_failure t = (\<lambda>(m, n, total). if m = t then (m, n + 1, total + 1) else (t, 1, total + 1))"

definition check_password :: "'e conn_env_scheme \<Rightarrow> login_request \<Rightarrow> session \<Rightarrow> bool outcome \<times> session" where
  "check_password E lr S =
     (case get_password E S of (pw, S) \<Rightarrow>
        let (m, n, total) = failure_of S; t = login_minute E in
        if total > 30 then (Done True, send_login_error ''Too many wrong password attempts'' S)
        else if t = m \<and> n > 6 then (Done True, send_login_error ''Please try 1 minute later'' S)
        else if password_digest E pw (hash_salt S) (hash_challenge S) \<noteq> lr_password lr then
          (Done True,
           try_start_cm (my_id lr) (my_name lr) (my_uid lr) False
             (send_login_error ''Wrong Password''
               (S\<lparr>login_failures := (login_failures S)(conn_ip S \<mapsto> count_failure t (m, n, total))\<rparr>)))
        else
          let S = (if m \<noteq> 0 then S\<lparr>login_failures := (login_failures S)(conn_ip S := None)\<rparr> else S);
              S = try_start_cm (my_id lr) (my_name lr) (my_uid lr) True (send_logon_response E S)
          in logged E LogConnectIn ByPassword (\<lambda>S. (Done (port_forward_socket S = None), S)) S)"

definition check_login :: "'e conn_env_scheme \<Rightarrow> login_request \<Rightarrow> session \<Rightarrow> bool outcome \<times> session" where
  "check_login E lr S =
     (if is_ip (username lr) then
        (if lr_password lr = [] then (Done True, try_start_cm (my_id lr) (my_name lr) (my_uid lr) False S)
         else check_password E lr S)
      else case Config.get_id E S of (i, S) \<Rightarrow>
        if username lr \<noteq> i then (Done True, send_login_error ''Offline'' S)
        else if lr_password lr = [] then (Done True, try_start_cm (my_id lr) (my_name lr) (my_uid lr) False S)
        else check_password E lr S)"

definition show_i32 :: "int \<Rightarrow> string" where
  "show_i32 n = (if n < 0 then ''-'' @ show_nat (nat (- n)) else show_nat (nat n))"

definition open_port_forward :: "'e conn_env_scheme \<Rightarrow> string \<Rightarrow> int \<Rightarrow> session \<Rightarrow> session" where
  "open_port_forward E host prt S =
     (let rdp = (host = ''RDP'' \<and> prt = 0);
          host = (if rdp then ''localhost'' else host);
          prt = (if rdp then 3389 else prt);
          host = (if host = [] then ''localhost'' else host);
          addr = host @ '':'' @ show_i32 prt;
          S = S\<lparr>port_forward_address := addr\<rparr>
      in if can_connect E addr then S\<lparr>port_forward_socket := Some addr\<rparr>
         else send_login_error (''Failed to access remote '' @ (if rdp then ''RDP'' else addr) @
           '', please make sure if it is open'') S)"

definition on_login :: "'e conn_env_scheme \<Rightarrow> login_request \<Rightarrow> session \<Rightarrow> bool outcome \<times> session" where
  "on_login E lr S =
     (let S = (case lr_option lr of Some o1 \<Rightarrow> update_option o1 S | None \<Rightarrow> S);
          S = S\<lparr>video_ack_required := lr_video_ack_required lr\<rparr>
      in if authorized S then (Done True, S)
         else case lr_union lr of
           FileTransfer dir hid \<Rightarrow>
             if get_option ''enable-file-transfer'' S \<noteq> [] \<or> get_peer_permission (my_id lr) ''file'' S = ''0''
             then (Done False, send_login_error ''No permission of file transfer'' S)
             else check_login E lr (S\<lparr>file_transfer := Some (dir, hid)\<rparr>)
         | PortForward host prt \<Rightarrow>
             if get_option ''enable-tunnel'' S \<noteq> []
             then (Done False, send_login_error ''No permission of IP tunneling'' S)
             else check_login E lr (open_port_forward E host prt S)
         | NoLoginUnion \<Rightarrow> check_login E lr S)"

subsection \<open>Messages\<close>

definition ctl_is :: "control_key proto_enum \<Rightarrow> control_key list \<Rightarrow> bool" where
  "ctl_is k ks = (case k of Known c \<Rightarrow> c \<in> set ks | Unknown _ \<Rightarrow> False)"

definition is_enter :: "key_event \<Rightarrow> bool" where
  "is_enter ke = (case k_union ke of ControlKey k \<Rightarrow> ctl_is k [Return, NumpadEnter] | _ \<Rightarrow> False)"

text \<open>The buttons are the upper bits of the mask of a mouse event, what happened the lowest three.\<close>

definition is_left_up :: "mouse_event \<Rightarrow> bool" where
  "is_left_up me \<longleftrightarrow> m_mask me div 8 = 1 \<and> m_mask me mod 8 = 2"

definition on_mouse :: "'e conn_env_scheme \<Rightarrow> mouse_event \<Rightarrow> session \<Rightarrow> session" where
  "on_mouse E me S =
     (let S = touch E S in
      if keyboard S then
        does (Input (InMouse me (conn_id S)))
          (if is_left_up me then S\<lparr>click_time := now_ms E\<rparr> else S\<lparr>mouse_move_time := now_ms E\<rparr>)
      else S)"

definition on_key :: "'e conn_env_scheme \<Rightarrow> key_event \<Rightarrow> session \<Rightarrow> session" where
  "on_key E ke S =
     (let S = touch E S in
      if keyboard S then
        let S = (if is_enter ke then S\<lparr>click_time := now_ms E\<rparr> else S) in
        if press ke
        then does (Input (InKey ke (case k_union ke of Unicode _ \<Rightarrow> False | Seq _ \<Rightarrow> False | _ \<Rightarrow> True))) S
        else does (Input (InKey ke False)) S
      else S)"

definition on_file_send :: "'e conn_env_scheme \<Rightarrow> int \<Rightarrow> string \<Rightarrow> bool \<Rightarrow> session \<Rightarrow> bool outcome \<times> session" where
  "on_file_send E i p hid S =
     (let nd = tree_at E p in
      if new_read_is_too_large nd hid then
        (Done True, send (new_error i ''The size of file is over 50M'' (-1))
          ((send_fs (FsCancelWrite i) S)\<lparr>read_jobs := remove_job i (read_jobs S)\<rparr>))
      else
        logged E LogFileOut (SizeAndPath (new_read_total_size nd hid) p) (\<lambda>S.
          (Done True,
           case new_read i p nd hid of
             None \<Rightarrow> send (new_error i ''read'' 0) S
           | Some j \<Rightarrow> (send (new_dir i (files j)) S)\<lparr>read_jobs := read_jobs S @ [j], fast_timer := True\<rparr>)) S)"

fun on_file_action :: "'e conn_env_scheme \<Rightarrow> file_action \<Rightarrow> session \<Rightarrow> bool outcome \<times> session" where
  "on_file_action E (ReadDir p hid) S = (Done True, conn_read_dir p hid S)"
| "on_file_action E (AllFiles i p hid) S =
     (Done True,
      case get_recursive_files (tree_at E p) hid of
        None \<Rightarrow> send (new_error i ''read'' (-1)) S
      | Some fs \<Rightarrow> send (new_dir i fs) S)"
| "on_file_action E (FSend i p hid) S = on_file_send E i p hid S"
| "on_file_action E (FReceive i p fs) S =
     logged E LogFileIn (SizeAndPath (sum_sizes fs) p) (\<lambda>S.
       (Done True, send_fs (FsNewWrite p i (map (\<lambda>f. (f_name f, modified_time f)) fs)) S)) S"
| "on_file_action E (FRemoveDir i p rec) S =
     logged E LogRemoveDir (Remark p) (\<lambda>S. (Done True, send_fs (FsRemoveDir p i rec) S)) S"
| "on_file_action E (FRemoveFile i p n) S =
     logged E LogRemoveFile (Remark p) (\<lambda>S. (Done True, send_fs (FsRemoveFile p i n) S)) S"
| "on_file_action E (FCreate i p) S = (Done True, send_fs (FsCreateDir p i) S)"
| "on_file_action E (FCancel i) S =
     (Done True, (send_fs (FsCancelWrite i) S)\<lparr>read_jobs := remove_job i (read_jobs S)\<rparr>)"
| "on_file_action E NoFileAction S = (Done True, S)"

fun on_file_response :: "file_response \<Rightarrow> session \<Rightarrow> session" where
  "on_file_response (FBlock b) S = send_fs (FsWriteBlock (b_id b) (b_file_num b) (b_data b) (b_compressed b)) S"
| "on_file_response (FDone i n) S = send_fs (FsWriteDone i n) S"
| "on_file_response _ S = S"

fun on_misc :: "misc \<Rightarrow> session \<Rightarrow> session" where
  "on_misc (SwitchDisplay d _ _ _ _) S = does (SwitchDisplayTo d) S"
| "on_misc (ChatMessage t) S = send_to_cm (IChatMessage t) S"
| "on_misc (MOption o1) S = update_option o1 S"
| "on_misc (RefreshVideo r) S = (if r then does RefreshVideoNow S else S)"
| "on_misc (VideoReceived _) S = does (FrameFetched (conn_id S) True) S"
| "on_misc _ S = S"

definition on_test_delay :: "'e conn_env_scheme \<Rightarrow> int \<Rightarrow> bool \<Rightarrow> session \<Rightarrow> session" where
  "on_test_delay E t from_client S =
     (if from_client then does (ToSelf (TestDelay t from_client)) S
      else
        let S = S\<lparr>last_test_delay := 0\<rparr>; latency = now_ms E - t in
        if latency > 0 then does (TestLatency (conn_id S) latency) S else S)"

definition on_message :: "'e conn_env_scheme \<Rightarrow> message \<Rightarrow> session \<Rightarrow> bool outcome \<times> session" where
  "on_message E m S =
     (case m of
        LoginRequest lr \<Rightarrow> on_login E lr S
      | TestDelay t from_client \<Rightarrow> (Done True, on_test_delay E t from_client S)
      | _ \<Rightarrow>
        if authorized S then
          (case m of
             MouseEvent me \<Rightarrow> (Done True, on_mouse E me S)
           | KeyEvent ke \<Rightarrow> (Done True, on_key E ke S)
           | ClipboardMsg z bs \<Rightarrow>
               (Done True, let S = touch E S in if clip S then does (SetClipboard z bs) S else S)
           | Cliprdr c \<Rightarrow>
               (Done True,
                let S = touch E S in
                if file_transfer_enabled S then
                  (case msg_2_clip c of Some cf \<Rightarrow> send_to_cm (IClipbaordFile cf) S | None \<Rightarrow> S)
                else S)
           | FileAction fa \<Rightarrow>
               (let S = touch E S in
                if file_transfer S \<noteq> None then on_file_action E fa S else (Done True, S))
           | FileResponse fr \<Rightarrow> (Done True, on_file_response fr (touch E S))
           | Misc mi \<Rightarrow> (Done True, on_misc mi (touch E S))
           | _ \<Rightarrow> (Done True, S))
        else (Done True, S))"


subsection \<open>The loop of a connection\<close>

text \<open>
  What wakes the loop: a message of the connection manager, a frame from the peer (\<open>None\<close> when it
  does not parse), an error or the end of the stream, the timers, a message from the services or
  from the connection itself with whether the stream takes it.
\<close>

datatype conn_event =
    FromCm ipc_data
  | Received "message option"
  | StreamError
  | StreamEnd
  | CheckTick
  | JobTick "message \<Rightarrow> bool"
  | VideoOut message bool
  | OtherOut message int bool
  | TestDelayTick

datatype loop_state = Running | Broken | Returned | Crashed

fun loop_result :: "bool outcome \<times> session \<Rightarrow> loop_state \<times> session" where
  "loop_result (Done True, S) = (Running, S)"
| "loop_result (Done False, S) = (Broken, S)"
| "loop_result (_, S) = (Crashed, S)"

definition close_loop :: "'e conn_env_scheme \<Rightarrow> bool \<Rightarrow> session \<Rightarrow> loop_state \<times> session" where
  "close_loop E lock S = (case on_close E lock S of (Done _, S) \<Rightarrow> (Broken, S) | (_, S) \<Rightarrow> (Crashed, S))"

definition switch_permission :: "'e conn_env_scheme \<Rightarrow> string \<Rightarrow> bool \<Rightarrow> session \<Rightarrow> session" where
  "switch_permission E n b S =
     (if n = ''keyboard'' then
        let S = send_permission Keyboard b (S\<lparr>keyboard := b\<rparr>)
        in set_subscription NAME_CURSOR (b \<or> show_remote_cursor S) S
      else if n = ''clipboard'' then
        let S = send_permission Clipboard b (S\<lparr>clip := b\<rparr>)
        in set_subscription NAME_CLIPBOARD (clipboard_enabled S \<and> keyboard S) S
      else if n = ''audio'' then
        let S = send_permission Audio b (S\<lparr>audio := b\<rparr>)
        in set_subscription NAME_AUDIO (audio_enabled S) S
      else if n = ''file'' then
        let S = send_permission File b (set_peer_permission E (peer_id S) n b (S\<lparr>file_perm := b\<rparr>))
        in send_to_cm (IClipboardFileEnabled (file_transfer_enabled S)) S
      else S)"

definition on_cm :: "'e conn_env_scheme \<Rightarrow> ipc_data \<Rightarrow> session \<Rightarrow> loop_state \<times> session" where
  "on_cm E d S =
     (case d of
        IAuthorize \<Rightarrow>
          loop_result (logged E LogConnectIn ByHand (\<lambda>S. (Done (port_forward_socket S = None), S))
            (send_logon_response E S))
      | IClose \<Rightarrow> close_loop E False (send (Misc (CloseReason ''Closed manually by the peer'')) S)
      | IChatMessage t \<Rightarrow> (Running, send (Misc (ChatMessage t)) S)
      | ISwitchPermission n b \<Rightarrow> (Running, switch_permission E n b S)
      | IRawMessage bs \<Rightarrow> (Running, does (ToPeerRaw bs) S)
      | IClipbaordFile cf \<Rightarrow>
          (Running, if file_transfer_enabled S then send (clip_2_msg cf) S else S)
      | _ \<Rightarrow> (Running, S))"

definition send_or_close :: "'e conn_env_scheme \<Rightarrow> message \<Rightarrow> bool \<Rightarrow> session \<Rightarrow> loop_state \<times> session" where
  "send_or_close E m sent S = (if sent then (Running, send m S) else close_loop E False S)"

definition on_job_tick :: "'e conn_env_scheme \<Rightarrow> (message \<Rightarrow> bool) \<Rightarrow> session \<Rightarrow> loop_state \<times> session" where
  "on_job_tick E snd_ok S =
     (if read_jobs S \<noteq> [] then
        (case handle_read_jobs (file_env E) snd_ok (disk_now E) (read_jobs S) of
           (sent, ms, js) \<Rightarrow>
             let S = fold send ms (S\<lparr>read_jobs := js\<rparr>) in
             if sent then (Running, S) else close_loop E False S)
      else (Running, S\<lparr>fast_timer := False\<rparr>))"

definition on_test_delay_tick :: "'e conn_env_scheme \<Rightarrow> session \<Rightarrow> loop_state \<times> session" where
  "on_test_delay_tick E S =
     (if now_ms E - last_recv_time S \<ge> 30000 then close_loop E True S
      else if now_ms E > 0 \<and> last_test_delay S = 0 then
        (Running, does (ToSelf (TestDelay (now_ms E) False)) (S\<lparr>last_test_delay := now_ms E\<rparr>))
      else (Running, S))"

definition conn_step :: "'e conn_env_scheme \<Rightarrow> conn_event \<Rightarrow> session \<Rightarrow> loop_state \<times> session" where
  "conn_step E ev S =
     (case ev of
        FromCm d \<Rightarrow> on_cm E d S
      | Received (Some m) \<Rightarrow> loop_result (on_message E m (S\<lparr>last_recv_time := now_ms E\<rparr>))
      | Received None \<Rightarrow> (Running, S\<lparr>last_recv_time := now_ms E\<rparr>)
      | StreamError \<Rightarrow> close_loop E True S
      | StreamEnd \<Rightarrow> close_loop E True S
      | CheckTick \<Rightarrow>
          if check_client_idle_timeout E S
          then (case close_message E ''Failed: idle'' S of (Done _, S) \<Rightarrow> (Returned, S) | (_, S) \<Rightarrow> (Crashed, S))
          else (Running, S)
      | JobTick snd_ok \<Rightarrow> on_job_tick E snd_ok S
      | VideoOut m sent \<Rightarrow>
          send_or_close E m sent (if \<not> video_ack_required S then does (FrameFetched (conn_id S) True) S else S)
      | OtherOut m latency sent \<Rightarrow>
          if latency > 1000 \<and> (case m of AudioFrame _ \<Rightarrow> True | _ \<Rightarrow> False) then (Running, S) else send_or_close E m sent S
      | TestDelayTick \<Rightarrow> on_test_delay_tick E S)"

text \<open>Every event comes with the environment of its moment.\<close>

fun conn_loop :: "('e conn_env_scheme \<times> conn_event) list \<Rightarrow> session \<Rightarrow> loop_state \<times> session" where
  "conn_loop [] S = (Running, S)"
| "conn_loop ((E, ev) # evs) S =
     (case conn_step E ev S of (Running, S) \<Rightarrow> conn_loop evs S | r \<Rightarrow> r)"

text \<open>What follows the loop when it was left by a break, before the forwarding of a port.\<close>

definition forget_video :: "session \<Rightarrow> session" where
  "forget_video S =
     does (VideoQuality (conn_id S) None) (does (TestLatency (conn_id S) 0) (does (FrameFetched (conn_id S) False) S))"

datatype forward_event =
    FwCm ipc_data
  | FwForward "bytes option" bool
  | FwStream "bytes option" bool
  | FwTick nat

text \<open>
  The forwarding loop, while there is a socket: \<open>None\<close> of the function is that it goes on. A failed
  receive or send, the end of either side, a request to close and an idle hour end it with an error.
\<close>

fun forward_step :: "forward_event \<Rightarrow> session \<Rightarrow> bool \<times> session" where
  "forward_step (FwCm d) S = (d \<noteq> IClose, S)"
| "forward_step (FwForward (Some bs) sent) S = (sent, if sent then does (ToPeerRaw bs) S else S)"
| "forward_step (FwForward None _) S = (False, S)"
| "forward_step (FwStream (Some bs) sent) S = (sent, if sent then does (ToForward bs) S else S)"
| "forward_step (FwStream None _) S = (False, S)"
| "forward_step (FwTick idle_ms) S = (idle_ms < 3600000, S)"

fun forward_run :: "forward_event list \<Rightarrow> session \<Rightarrow> bool \<times> session" where
  "forward_run [] S = (True, S)"
| "forward_run (ev # evs) S = (case forward_step ev S of (True, S) \<Rightarrow> forward_run evs S | r \<Rightarrow> r)"

definition try_port_forward_loop :: "forward_event list \<Rightarrow> session \<Rightarrow> bool \<times> session" where
  "try_port_forward_loop evs S = (if port_forward_socket S \<noteq> None then forward_run evs S else (True, S))"

definition after_loop :: "'e conn_env_scheme \<Rightarrow> forward_event list \<Rightarrow> loop_state \<times> session \<Rightarrow> loop_state \<times> session" where
  "after_loop E fevs r =
     (case r of
        (Broken, S) \<Rightarrow>
          (case try_port_forward_loop fevs (forget_video S) of
             (True, S) \<Rightarrow> (Broken, S)
           | (False, S) \<Rightarrow> close_loop E False S)
      | r \<Rightarrow> r)"

definition first_permissions :: "session \<Rightarrow> session" where
  "first_permissions S =
     (let S = (if \<not> keyboard S then send_permission Keyboard False S else S);
          S = (if \<not> clip S then send_permission Clipboard False S else S);
          S = (if \<not> audio S then send_permission Audio False S else S)
      in if \<not> file_perm S then send_permission File False S else S)"

definition init_session ::
  "'e conn_env_scheme \<Rightarrow> int \<Rightarrow> service_world \<Rightarrow> (string \<rightharpoonup> int \<times> int \<times> int) \<Rightarrow> (unit, message list) server \<Rightarrow> session" where
  "init_session E i W fs server =
     (case get_salt E W of (slt, W) \<Rightarrow>
      case get_auto_password W of (ch, W) \<Rightarrow>
        service_world.extend W \<lparr>conn_id = i, hash_salt = slt, hash_challenge = ch, read_jobs = [], fast_timer = False,
          file_transfer = None, port_forward_socket = None, port_forward_address = [], authorized = False,
          latest_active_time = 0, keyboard = (get_option ''enable-keyboard'' W = []),
          clip = (get_option ''enable-clipboard'' W = []), audio = (get_option ''enable-audio'' W = []),
          file_perm = (get_option ''enable-file-transfer'' W = []), last_test_delay = 0,
          quality = quality_value Balanced, lock_after_session_end = False, show_remote_cursor = False,
          privacy_mode = False, conn_ip = [], peer_id = [], peer_name = [], peer_uid = [], disable_clipboard = False,
          disable_audio = False, enable_file_transfer = False, video_ack_required = False,
          last_recv_time = now_ms E, login_failures = fs, sv = server, out = []\<rparr>)"

definition start ::
  "'e conn_env_scheme \<Rightarrow> int \<Rightarrow> socket_addr \<Rightarrow> ('e conn_env_scheme \<times> conn_event) list \<Rightarrow> forward_event list
     \<Rightarrow> service_world \<Rightarrow> (string \<rightharpoonup> int \<times> int \<times> int) \<Rightarrow> (unit, message list) server \<Rightarrow> loop_state \<times> session" where
  "start E i addr evs fevs W fs server =
     (case on_open E addr (init_session E i W fs server) of
        (False, S) \<Rightarrow> (Returned, S)
      | (True, S) \<Rightarrow> after_loop E fevs (conn_loop evs (first_permissions S)))"

subsection \<open>The threads beside the connection\<close>

datatype input_effect =
    HandleMouse mouse_event int
  | HandleKey key_event
  | BlockInput bool
  | OptionError string
  | ToBlank bool

text \<open>
  The input thread: the state is whether input is blocked; \<open>block_ok\<close> says whether the operating
  system obeys. A timeout (\<open>None\<close>) blocks again.
\<close>

fun handle_input_turn ::
  "(bool \<Rightarrow> bool) \<Rightarrow> message_input option \<Rightarrow> bool \<Rightarrow> input_effect list \<times> bool" where
  "handle_input_turn block_ok (Some (InMouse me i)) blocked = ([HandleMouse me i], blocked)"
| "handle_input_turn block_ok (Some (InKey ke pr)) blocked =
     (if pr then [HandleKey (ke\<lparr>down := True\<rparr>), HandleKey (ke\<lparr>down := False\<rparr>)] else [HandleKey ke], blocked)"
| "handle_input_turn block_ok (Some BlockOn) blocked =
     (if block_ok True then ([BlockInput True], True)
      else ([BlockInput True, OptionError ''Failed to turn on block input mode''], blocked))"
| "handle_input_turn block_ok (Some BlockOff) blocked =
     (if block_ok False then ([BlockInput False], False)
      else ([BlockInput False, OptionError ''Failed to turn off block input mode''], blocked))"
| "handle_input_turn block_ok (Some PrivacyOn) blocked = ([BlockInput True, ToBlank True], block_ok True \<or> blocked)"
| "handle_input_turn block_ok (Some PrivacyOff) blocked =
     ([BlockInput False, ToBlank False], \<not> block_ok False \<and> blocked)"
| "handle_input_turn block_ok None blocked = (if blocked then [BlockInput True] else [], blocked)"

text \<open>The blanking thread gets the switches only; what it does is to set the screen's state.\<close>

fun handle_blank_turn :: "bool option \<Rightarrow> bool \<Rightarrow> bool list \<times> bool" where
  "handle_blank_turn (Some b) privacy = ([b], b)"
| "handle_blank_turn None privacy = (if privacy then [True] else [], privacy)"

text \<open>The channel to the connection manager: a block of a file travels as a header and raw bytes.\<close>

datatype cm_frame = CmJson ipc_data | CmRaw bytes

fun ipc_to_cm :: "ipc_data \<Rightarrow> cm_frame list" where
  "ipc_to_cm (IFS (FsWriteBlock i n bs z)) = [CmJson (IFS (FsWriteBlock i n [] z)), CmRaw bs]"
| "ipc_to_cm d = [CmJson d]"

text \<open>From the manager: a question for the time of the last click is answered here, the rest goes on.\<close>

fun ipc_from_cm :: "int \<Rightarrow> ipc_data \<Rightarrow> ipc_data option \<times> ipc_data option" where
  "ipc_from_cm click (IClickTime _) = (Some (IClickTime click), None)"
| "ipc_from_cm click d = (None, Some d)"

subsection \<open>What only an authorized peer gets done\<close>

text \<open>
  The effects that need a login: input, the requests to read and write files, the clipboard, the
  chat, the choice of the display, and the contents and lists of files that go to the peer.
\<close>

fun privileged :: "conn_effect \<Rightarrow> bool" where
  "privileged (Input (InMouse _ _)) = True"
| "privileged (Input (InKey _ _)) = True"
| "privileged (SetClipboard _ _) = True"
| "privileged (ToCm (IFS _)) = True"
| "privileged (ToCm (IChatMessage _)) = True"
| "privileged (ToCm (IClipbaordFile _)) = True"
| "privileged (SwitchDisplayTo _) = True"
| "privileged RefreshVideoNow = True"
| "privileged (ToPeer (FileResponse _)) = True"
| "privileged _ = False"

definition NAME_VIDEO :: string where "NAME_VIDEO = ''video''"

definition video_members :: "session \<Rightarrow> bool list" where
  "video_members S = map (\<lambda>s. name s = NAME_VIDEO \<and> member (conn_id S) s) (services (sv S))"

text \<open>What the invariant reads of a session.\<close>

definition view :: "session \<Rightarrow> conn_effect list \<times> bool \<times> transfer_job list \<times> bool list" where
  "view S = (filter privileged (out S), authorized S, read_jobs S, video_members S)"

definition guarded :: "session \<Rightarrow> bool" where
  "guarded S \<longleftrightarrow> authorized S \<or> filter privileged (out S) = [] \<and> read_jobs S = [] \<and> True \<notin> set (video_members S)"

lemma guarded_view: "view S' = view S \<Longrightarrow> guarded S' = guarded S"
  by (simp add: view_def guarded_def)

lemma guarded_authorized: "authorized S \<Longrightarrow> guarded S"
  by (simp add: guarded_def)

lemma view_does: "\<not> privileged e \<Longrightarrow> view (does e S) = view S"
  by (simp add: view_def does_def video_members_def)

lemma video_members_subscribe:
  "n \<noteq> NAME_VIDEO \<Longrightarrow> video_members (S\<lparr>sv := Service.subscribe into n i c b (sv S)\<rparr>) = video_members S"
  by (auto simp: video_members_def Service.subscribe_def on_subscribe_def on_unsubscribe_def)

lemma view_set_subscription: "n \<noteq> NAME_VIDEO \<Longrightarrow> view (set_subscription n b S) = view S"
  by (simp add: set_subscription_def view_def video_members_subscribe)

lemma names_not_video [simp]:
  "NAME_CURSOR \<noteq> NAME_VIDEO" "NAME_POS \<noteq> NAME_VIDEO" "NAME_CLIPBOARD \<noteq> NAME_VIDEO" "NAME_AUDIO \<noteq> NAME_VIDEO"
  by (simp_all add: NAME_CURSOR_def NAME_POS_def NAME_CLIPBOARD_def NAME_AUDIO_def NAME_VIDEO_def)

lemma view_settings [simp]:
  "view (store_config E f S) = view S" "view (store_config2 E g S) = view S"
  by (simp_all add: view_def store_config_def store_config2_def video_members_def Let_def)

lemma view_config [simp]:
  "view (set_id E i S) = view S" "view (set_password E p S) = view S"
  "view (set_peer_permission E pid n b S) = view S" "view (S\<lparr>rng := r\<rparr>) = view S"
  by (simp_all add: set_id_def set_password_def set_peer_permission_def set_permission_def Let_def)
    (simp add: view_def video_members_def)

lemma view_get_id: "Config.get_id E S = (i, S') \<Longrightarrow> view S' = view S"
  by (auto simp: Config.get_id_def Let_def split: if_splits option.splits)

lemma view_get_password: "get_password E S = (p, S') \<Longrightarrow> view S' = view S"
  by (auto simp: get_password_def get_auto_password_def Let_def split: if_splits)

lemma view_fields [simp]:
  "view (S\<lparr>quality := a1\<rparr>) = view S"
  "view (S\<lparr>lock_after_session_end := a2\<rparr>) = view S"
  "view (S\<lparr>show_remote_cursor := a3\<rparr>) = view S"
  "view (S\<lparr>disable_audio := a4\<rparr>) = view S"
  "view (S\<lparr>enable_file_transfer := a5\<rparr>) = view S"
  "view (S\<lparr>disable_clipboard := a6\<rparr>) = view S"
  "view (S\<lparr>privacy_mode := a7\<rparr>) = view S"
  "view (S\<lparr>latest_active_time := a8\<rparr>) = view S"
  "view (S\<lparr>last_test_delay := a9\<rparr>) = view S"
  "view (S\<lparr>keyboard := a10\<rparr>) = view S"
  "view (S\<lparr>clip := a11\<rparr>) = view S"
  "view (S\<lparr>audio := a12\<rparr>) = view S"
  "view (S\<lparr>file_perm := a13\<rparr>) = view S"
  "view (S\<lparr>video_ack_required := a14\<rparr>) = view S"
  "view (S\<lparr>peer_id := a15\<rparr>) = view S"
  "view (S\<lparr>peer_name := a16\<rparr>) = view S"
  "view (S\<lparr>peer_uid := a17\<rparr>) = view S"
  "view (S\<lparr>file_transfer := a18\<rparr>) = view S"
  "view (S\<lparr>port_forward_address := a19\<rparr>) = view S"
  "view (S\<lparr>port_forward_socket := a20\<rparr>) = view S"
  "view (S\<lparr>login_failures := a21\<rparr>) = view S"
  "view (S\<lparr>last_recv_time := a22\<rparr>) = view S"
  "view (S\<lparr>fast_timer := a23\<rparr>) = view S"
  "view (S\<lparr>conn_ip := a24\<rparr>) = view S"
  "view (S\<lparr>click_time := a25\<rparr>) = view S"
  "view (S\<lparr>mouse_move_time := a26\<rparr>) = view S"
  by (simp_all add: view_def video_members_def)

lemma view_sends [simp]:
  "view (send_permission p b S) = view S" "view (send_login_error err S) = view S"
  "view (send (LoginResponse lr) S) = view S" "view (send (Hash h1 h2) S) = view S" "view (send (Misc mi) S) = view S"
  "view (send_to_cm (ILogin l) S) = view S" "view (send_to_cm IClose S) = view S"
  "view (send_to_cm (IClipboardFileEnabled b) S) = view S" "view (send_to_cm ITest S) = view S"
  "view (touch E S) = view S"
  by (simp_all add: send_permission_def send_login_error_def send_def send_to_cm_def touch_def view_does)

lemma view_when_set: "(\<And>b S. view (f b S) = view S) \<Longrightarrow> view (when_set q f S) = view S"
  by (simp add: when_set_def split: option.split)

lemma view_update_option [simp]: "view (update_option o1 S) = view S"
proof -
  have "view (on_lock_option b S) = view S" "view (on_cursor_option b S) = view S" "view (on_audio_option b S) = view S"
    "view (on_file_option b S) = view S" "view (on_clipboard_option b S) = view S"
    "view (on_privacy_option b S) = view S" "view (on_block_option b S) = view S" for b S
    by (simp_all add: on_lock_option_def on_cursor_option_def on_audio_option_def on_file_option_def
      on_clipboard_option_def on_privacy_option_def on_block_option_def Let_def view_set_subscription view_does)
  moreover have "view (on_image_quality q S) = view S" "view (on_custom_quality n S) = view S" for q n S
    by (simp_all add: on_image_quality_def on_custom_quality_def view_does split: proto_enum.split)
  ultimately show ?thesis by (simp add: update_option_def Let_def view_when_set)
qed

lemma view_auth: "view S' = view S \<Longrightarrow> authorized S' = authorized S"
  by (simp add: view_def)

lemma guarded_does: "guarded S \<Longrightarrow> authorized S \<or> \<not> privileged e \<Longrightarrow> guarded (does e S)"
  by (auto simp: guarded_def does_def video_members_def)

lemma authorized_does [simp]: "authorized (does e S) = authorized S"
  by (simp add: does_def)

lemma authorized_sends [simp]:
  "authorized (send m S) = authorized S" "authorized (send_to_cm d S) = authorized S"
  "authorized (send_fs r S) = authorized S" "authorized (conn_read_dir p h S) = authorized S"
  by (simp_all add: send_def send_to_cm_def send_fs_def conn_read_dir_def)

text \<open>A handler that writes the log: what holds of the rest for every session that looks the same.\<close>

lemma logged_cases:
  assumes "logged E k r rest S = (res, S')"
  obtains "res = Panicked" "S' = S" | S1 where "rest S1 = (res, S')" "view S1 = view S"
proof (cases "log_ok E")
  case True
  obtain i S0 where g: "Config.get_id E S = (i, S0)" by force
  let ?S1 = "does (WriteLog \<lparr>lclid = i, lcluid = get_uid S0, log_type = k, rmtid = peer_id S0, rmtuid = peer_uid S0,
    remark = r\<rparr>) S0"
  have "view ?S1 = view S" using view_get_id [OF g] by (simp add: view_does)
  moreover have "rest ?S1 = (res, S')" using assms True g by (simp add: logged_def)
  ultimately show thesis using that(2) by blast
next
  case False
  then show thesis using assms that(1) by (simp add: logged_def)
qed

lemma view_try_start_cm [simp]: "view (try_start_cm a b c d S) = view S"
  by (simp add: try_start_cm_def Let_def)

lemma authorized_logon: "authorized S \<Longrightarrow> authorized (send_logon_response E S)"
  by (simp add: send_logon_response_def)

lemma guarded_logon: "guarded S \<Longrightarrow> guarded (send_logon_response E S)"
proof -
  assume g: "guarded S"
  have "authorized (authorized_response E S)"
    by (simp add: authorized_response_def Let_def split: option.split sum.split)
  then show ?thesis using g
    by (simp add: send_logon_response_def guarded_authorized) (metis guarded_view view_sends(3))
qed

text \<open>What a handler must satisfy.\<close>

definition keeps :: "session \<Rightarrow> session \<Rightarrow> bool" where
  "keeps S S' \<longleftrightarrow> (guarded S \<longrightarrow> guarded S') \<and> (authorized S \<longrightarrow> authorized S')"

lemma keeps_view: "view S' = view S \<Longrightarrow> keeps S S'"
  by (simp add: keeps_def view_def guarded_def)

lemma conn_keeps_trans: "keeps S S1 \<Longrightarrow> keeps S1 S' \<Longrightarrow> keeps S S'"
  by (simp add: keeps_def)

lemma keeps_authorized: "authorized S' \<Longrightarrow> keeps S S'"
  by (simp add: keeps_def guarded_authorized)

lemma keeps_logon: "keeps S (send_logon_response E S)"
  by (simp add: keeps_def guarded_logon authorized_logon)

lemma keeps_logged:
  assumes "logged E k r rest S = (res, S')" "\<And>S1. rest S1 = (res, S') \<Longrightarrow> keeps S1 S'"
  shows "keeps S S'"
  using assms(1)
proof (cases rule: logged_cases)
  case 1
  then show ?thesis by (simp add: keeps_def)
next
  case (2 S1)
  then show ?thesis using conn_keeps_trans [OF keeps_view assms(2)] by blast
qed

lemma keeps_check_password:
  assumes "check_password E lr S = (r, S')"
  shows "keeps S S'"
proof -
  obtain pw S0 where g: "get_password E S = (pw, S0)" by force
  obtain m n total where f: "failure_of S0 = (m, n, total)" using prod_cases3 by blast
  let ?S1 = "if m \<noteq> 0 then S0\<lparr>login_failures := (login_failures S0)(conn_ip S0 := None)\<rparr> else S0"
  let ?S2 = "try_start_cm (my_id lr) (my_name lr) (my_uid lr) True (send_logon_response E ?S1)"
  have k2: "keeps S0 ?S2"
    by (rule conn_keeps_trans [OF keeps_view conn_keeps_trans [OF keeps_logon keeps_view]]) simp_all
  consider (refused) "view S' = view S0"
    | (right) "logged E LogConnectIn ByPassword (\<lambda>S. (Done (port_forward_socket S = None), S)) ?S2 = (r, S')"
    using assms(1) g f by (auto simp: check_password_def Let_def split: if_splits)
  then have "keeps S0 S'"
  proof cases
    case refused
    then show ?thesis by (rule keeps_view)
  next
    case right
    then have "keeps ?S2 S'" by (rule keeps_logged) (simp add: keeps_def)
    with k2 show ?thesis by (rule conn_keeps_trans)
  qed
  with keeps_view [OF view_get_password [OF g]] show ?thesis by (rule conn_keeps_trans)
qed

lemma keeps_check_login:
  assumes "check_login E lr S = (r, S')"
  shows "keeps S S'"
proof -
  obtain i S0 where i: "Config.get_id E S = (i, S0)" by force
  have v: "keeps S S0" by (rule keeps_view [OF view_get_id [OF i]])
  consider "view S' = view S" | "check_password E lr S = (r, S')" | "view S' = view S0" | "check_password E lr S0 = (r, S')"
    using assms(1) i by (auto simp: check_login_def split: if_splits)
  then show ?thesis
    by cases (auto intro: keeps_view keeps_check_password conn_keeps_trans [OF v])
qed

lemma view_open_port_forward [simp]: "view (open_port_forward E host prt S) = view S"
  by (simp add: open_port_forward_def Let_def)

text \<open>The session after the options of a login request, which come before everything else.\<close>

definition login_options :: "login_request \<Rightarrow> session \<Rightarrow> session" where
  "login_options lr S =
     (case lr_option lr of Some o1 \<Rightarrow> update_option o1 S | None \<Rightarrow> S)\<lparr>video_ack_required := lr_video_ack_required lr\<rparr>"

lemma view_login_options [simp]: "view (login_options lr S) = view S"
  by (simp add: login_options_def split: option.split)

lemma on_login_eq:
  assumes "S0 = login_options lr S"
  shows "on_login E lr S = (if authorized S0 then (Done True, S0)
     else case lr_union lr of
       FileTransfer dir hid \<Rightarrow>
         if get_option ''enable-file-transfer'' S0 \<noteq> [] \<or> get_peer_permission (my_id lr) ''file'' S0 = ''0''
         then (Done False, send_login_error ''No permission of file transfer'' S0)
         else check_login E lr (S0\<lparr>file_transfer := Some (dir, hid)\<rparr>)
     | PortForward host prt \<Rightarrow>
         if get_option ''enable-tunnel'' S0 \<noteq> []
         then (Done False, send_login_error ''No permission of IP tunneling'' S0)
         else check_login E lr (open_port_forward E host prt S0)
     | NoLoginUnion \<Rightarrow> check_login E lr S0)"
  unfolding assms on_login_def login_options_def Let_def by (rule refl)

lemma on_login_cases:
  assumes "on_login E lr S = (r, S')" "S0 = login_options lr S"
  obtains (in_already) "authorized S0" "r = Done True" "S' = S0"
  | (no_files) "\<not> authorized S0" "r = Done False" "S' = send_login_error ''No permission of file transfer'' S0"
  | (no_tunnel) "\<not> authorized S0" "r = Done False" "S' = send_login_error ''No permission of IP tunneling'' S0"
  | (goes_on) S1 where "\<not> authorized S0" "view S1 = view S0" "check_login E lr S1 = (r, S')"
proof -
  note e = on_login_eq [OF assms(2), of E]
  show thesis
  proof (cases "authorized S0")
    case True
    then show thesis using e assms(1) in_already by simp
  next
    case False
    show thesis
    proof (cases "lr_union lr")
      case (FileTransfer dir hid)
      then show thesis using e assms(1) False no_files goes_on [of "S0\<lparr>file_transfer := Some (dir, hid)\<rparr>"]
        by (auto split: if_splits)
    next
      case (PortForward host prt)
      then show thesis using e assms(1) False no_tunnel goes_on [of "open_port_forward E host prt S0"]
        by (auto split: if_splits)
    next
      case NoLoginUnion
      then show thesis using e assms(1) False goes_on [of S0] by simp
    qed
  qed
qed

lemma keeps_on_login:
  assumes "on_login E lr S = (r, S')"
  shows "keeps S S'"
  using assms refl
proof (cases rule: on_login_cases)
  case (goes_on S1)
  have "keeps S S1" by (rule keeps_view) (simp add: goes_on)
  then show ?thesis using keeps_check_login [OF goes_on(3)] by (rule conn_keeps_trans)
qed (simp_all add: keeps_view)

lemma authorized_update_option [simp]: "authorized (update_option o1 S) = authorized S"
  by (rule view_auth) simp

lemma authorized_on_file_action:
  assumes "on_file_action E fa S = (r, S')"
  shows "authorized S' = authorized S"
proof -
  have L: "authorized S' = authorized S"
    if "logged E k rm (\<lambda>S. (Done True, f S)) S = (r, S')" "\<And>S. authorized (f S) = authorized S" for k rm f
    using that(1)
  proof (cases rule: logged_cases)
    case (2 S1)
    then show ?thesis using that(2) [of S1] view_auth [OF 2(2)] by auto
  qed simp
  show ?thesis
  proof (cases fa)
    case (FSend i p hid)
    show ?thesis
    proof (cases "new_read_is_too_large (tree_at E p) hid")
      case True
      then show ?thesis using assms FSend by (auto simp: on_file_send_def Let_def)
    next
      case False
      then have l: "logged E LogFileOut (SizeAndPath (new_read_total_size (tree_at E p) hid) p) (\<lambda>S.
          (Done True,
           case new_read i p (tree_at E p) hid of
             None \<Rightarrow> send (new_error i ''read'' 0) S
           | Some j \<Rightarrow> (send (new_dir i (files j)) S)\<lparr>read_jobs := read_jobs S @ [j], fast_timer := True\<rparr>)) S = (r, S')"
        using assms FSend by (simp add: on_file_send_def Let_def)
      show ?thesis by (rule L [OF l]) (simp split: option.split)
    qed
  next
    case (FReceive i p fs)
    show ?thesis by (rule L [OF assms [unfolded FReceive on_file_action.simps]]) simp
  next
    case (FRemoveDir i p b)
    show ?thesis by (rule L [OF assms [unfolded FRemoveDir on_file_action.simps]]) simp
  next
    case (FRemoveFile i p n)
    show ?thesis by (rule L [OF assms [unfolded FRemoveFile on_file_action.simps]]) simp
  qed (use assms in \<open>auto split: option.splits\<close>)
qed

lemma authorized_on_message:
  assumes "on_message E m S = (r, S')" "authorized S"
  shows "authorized S'"
proof (cases m)
  case (LoginRequest lr)
  then have "keeps S S'" using assms(1) by (intro keeps_on_login) (simp add: on_message_def)
  then show ?thesis using assms(2) by (simp add: keeps_def)
next
  case (FileAction fa)
  then show ?thesis using assms authorized_on_file_action [of E fa "touch E S" r S']
    by (auto simp: on_message_def Let_def touch_def split: if_splits)
next
  case (FileResponse fr)
  then show ?thesis using assms by (cases fr) (auto simp: on_message_def touch_def)
next
  case (Misc mi)
  then show ?thesis using assms by (cases mi) (auto simp: on_message_def touch_def split: if_splits)
qed (use assms in \<open>auto simp: on_message_def on_test_delay_def on_mouse_def on_key_def touch_def Let_def
  split: if_splits option.splits\<close>)

lemma keeps_on_message:
  assumes "on_message E m S = (r, S')"
  shows "keeps S S'"
proof (cases "authorized S")
  case True
  show ?thesis by (rule keeps_authorized [OF authorized_on_message [OF assms True]])
next
  case False
  consider (login) lr where "m = LoginRequest lr" | (delay) t b where "m = TestDelay t b"
    | (other) "S' = S" using assms False by (cases m) (auto simp: on_message_def)
  then show ?thesis
  proof cases
    case login
    then show ?thesis using assms by (intro keeps_on_login) (simp add: on_message_def)
  next
    case delay
    then show ?thesis using assms
      by (intro keeps_view) (auto simp: on_message_def on_test_delay_def Let_def view_does)
  qed (simp add: keeps_def)
qed

lemma member_unsubscribe: "member j (on_unsubscribe i s) \<Longrightarrow> member j s"
  by (auto simp: member_def on_unsubscribe_def fst_delete split: if_splits)

lemma name_unsubscribe [simp]: "name (on_unsubscribe i s) = name s"
  by (simp add: on_unsubscribe_def)

lemma keeps_remove: "keeps S (S\<lparr>sv := remove_connection i (sv S)\<rparr>)"
proof -
  have "True \<in> set (video_members (S\<lparr>sv := remove_connection i (sv S)\<rparr>)) \<Longrightarrow> True \<in> set (video_members S)"
    unfolding video_members_def remove_connection_def by (simp add: image_iff) (blast intro: member_unsubscribe)
  then show ?thesis by (auto simp: keeps_def guarded_def)
qed

lemma keeps_on_close:
  assumes "on_close E lock S = (r, S')"
  shows "keeps S S'"
proof -
  obtain r1 S1 where l: "logged E LogDisconnect (Remark ''1'') (\<lambda>S. (Done True, S)) S = (r1, S1)" by force
  have k: "keeps S S1" by (rule keeps_logged [OF l]) (simp add: keeps_def)
  let ?S2 = "S1\<lparr>sv := remove_connection (conn_id S1) (sv S1)\<rparr>"
  let ?S3 = "(send_to_cm IClose (if lock \<and> lock_after_session_end ?S2 \<and> keyboard ?S2 then does LockScreenNow ?S2 else ?S2))
    \<lparr>port_forward_socket := None\<rparr>"
  have v: "view ?S3 = view ?S2" by (simp add: view_does)
  have "view S' = view ?S2 \<or> S' = S1"
    using assms l v by (auto simp: on_close_def Let_def get_auto_password_def split: outcome.splits if_splits)
  then show ?thesis
    by (elim disjE) (simp_all add: k conn_keeps_trans [OF k conn_keeps_trans [OF keeps_remove keeps_view]])
qed

lemma keeps_close_loop:
  assumes "close_loop E lock S = (r, S')"
  shows "keeps S S'"
proof -
  obtain r1 S1 where c: "on_close E lock S = (r1, S1)" by force
  with assms have "S' = S1" by (auto simp: close_loop_def split: outcome.splits)
  with keeps_on_close [OF c] show ?thesis by simp
qed

lemma loop_result_snd: "snd (loop_result r) = snd r"
  by (cases r rule: loop_result.cases) simp_all

lemma view_clip_msg [simp]: "view (send (clip_2_msg cf) S) = view S"
  by (cases cf) (simp_all add: send_def view_does)

lemma keeps_on_cm:
  assumes "on_cm E d S = (r, S')"
  shows "keeps S S'"
proof -
  have sw: "view (switch_permission E n b S) = view S" for n b
    by (simp add: switch_permission_def Let_def view_set_subscription)
  consider (auth) "d = IAuthorize" | (close) "d = IClose" | (other) "view S' = view S"
    using assms sw by (cases d) (auto simp: on_cm_def view_does split: if_splits)
  then show ?thesis
  proof cases
    case auth
    obtain r1 S1 where l: "logged E LogConnectIn ByHand (\<lambda>S. (Done (port_forward_socket S = None), S))
        (send_logon_response E S) = (r1, S1)" by force
    have "keeps (send_logon_response E S) S1" by (rule keeps_logged [OF l]) (simp add: keeps_def)
    moreover have "S' = S1" using assms auth l loop_result_snd [of "(r1, S1)"] by (auto simp: on_cm_def)
    ultimately show ?thesis using conn_keeps_trans [OF keeps_logon] by simp
  next
    case close
    then show ?thesis using assms
      by (intro conn_keeps_trans [OF keeps_view keeps_close_loop]) (auto simp: on_cm_def)
  next
    case other
    then show ?thesis by (rule keeps_view)
  qed
qed

lemma authorized_fold_send [simp]: "authorized (fold send ms S) = authorized S"
  by (induction ms arbitrary: S) simp_all

text \<open>The services and the connection itself send no contents of files.\<close>

fun service_event :: "conn_event \<Rightarrow> bool" where
  "service_event (VideoOut m _) = (\<not> privileged (ToPeer m))"
| "service_event (OtherOut m _ _) = (\<not> privileged (ToPeer m))"
| "service_event _ = True"

lemma keeps_job_tick:
  assumes "on_job_tick E snd_ok S = (r, S')" "guarded S"
  shows "guarded S' \<and> (authorized S \<longrightarrow> authorized S')"
proof (cases "authorized S")
  case True
  obtain sent ms js where h: "handle_read_jobs (file_env E) snd_ok (disk_now E) (read_jobs S) = (sent, ms, js)"
    using prod_cases3 by blast
  let ?S = "fold send ms (S\<lparr>read_jobs := js\<rparr>)"
  have "S' = ?S \<or> close_loop E False ?S = (r, S') \<or> S' = S\<lparr>fast_timer := False\<rparr>"
    using assms h by (auto simp: on_job_tick_def Let_def split: if_splits)
  then have "authorized S'" using True keeps_close_loop [of E False ?S r S'] by (auto simp: keeps_def)
  then show ?thesis by (simp add: guarded_authorized)
next
  case False
  with assms(2) have "read_jobs S = []" by (simp add: guarded_def)
  with assms have "view S' = view S" by (auto simp: on_job_tick_def)
  then show ?thesis using assms(2) keeps_view by (auto simp: keeps_def)
qed

lemma keeps_conn_step:
  assumes "conn_step E ev S = (r, S')" "service_event ev" "guarded S"
  shows "guarded S' \<and> (authorized S \<longrightarrow> authorized S')"
proof -
  have K: ?thesis if "keeps S S'" using that assms(3) by (simp add: keeps_def)
  have C: "keeps S S'" if "close_loop E b S1 = (r, S')" "view S1 = view S" for b S1
    using conn_keeps_trans [OF keeps_view keeps_close_loop] that by blast
  show ?thesis
  proof (cases ev)
    case (FromCm d)
    then show ?thesis using assms(1) by (intro K keeps_on_cm) (simp add: conn_step_def)
  next
    case (Received mo)
    show ?thesis
    proof (cases mo)
      case (Some m)
      let ?S = "S\<lparr>last_recv_time := now_ms E\<rparr>"
      obtain r1 S1 where o: "on_message E m ?S = (r1, S1)" by force
      have "S' = S1" using assms(1) Received Some o loop_result_snd [of "(r1, S1)"] by (auto simp: conn_step_def)
      then have "keeps S S'" using conn_keeps_trans [OF keeps_view keeps_on_message [OF o]] by simp
      then show ?thesis by (rule K)
    qed (use assms(1) Received in \<open>auto intro!: K keeps_view simp: conn_step_def\<close>)
  next
    case StreamError
    then show ?thesis using assms(1) by (intro K C [of True S]) (simp_all add: conn_step_def)
  next
    case StreamEnd
    then show ?thesis using assms(1) by (intro K C [of True S]) (simp_all add: conn_step_def)
  next
    case CheckTick
    obtain r1 S1 where o: "on_close E False (send (Misc (CloseReason ''Failed: idle'')) S) = (r1, S1)" by force
    have "S' = S1 \<or> S' = S" using assms(1) CheckTick o
      by (auto simp: conn_step_def close_message_def split: outcome.splits if_splits)
    then show ?thesis using conn_keeps_trans [OF keeps_view keeps_on_close [OF o]] assms(3) K by auto
  next
    case (JobTick f)
    then show ?thesis using assms(1,3) keeps_job_tick [of E f S r S'] by (simp add: conn_step_def)
  next
    case (VideoOut m sent)
    let ?S = "if \<not> video_ack_required S then does (FrameFetched (conn_id S) True) S else S"
    have v: "view ?S = view S" by (simp add: view_does)
    have "view S' = view S \<or> close_loop E False ?S = (r, S')"
      using assms(1,2) VideoOut v by (auto simp: conn_step_def send_or_close_def send_def view_does split: if_splits)
    then show ?thesis using K keeps_view C [OF _ v] by blast
  next
    case (OtherOut m l sent)
    have "view S' = view S \<or> close_loop E False S = (r, S')"
      using assms(1,2) OtherOut by (auto simp: conn_step_def send_or_close_def send_def view_does split: if_splits)
    then show ?thesis using K keeps_view C [of False S] by blast
  next
    case TestDelayTick
    have "view S' = view S \<or> close_loop E True S = (r, S')"
      using assms(1) TestDelayTick by (auto simp: conn_step_def on_test_delay_tick_def view_does split: if_splits)
    then show ?thesis using K keeps_view C [of True S] by blast
  qed
qed

lemma guarded_conn_loop:
  "list_all (\<lambda>(E, ev). service_event ev) evs \<Longrightarrow> guarded S \<Longrightarrow> guarded (snd (conn_loop evs S))"
proof (induction evs S rule: conn_loop.induct)
  case (2 E ev evs S)
  obtain r S1 where st: "conn_step E ev S = (r, S1)" by force
  then have "guarded S1" using keeps_conn_step [OF st] 2(2,3) by simp
  with st 2 show ?case by (cases r) auto
qed simp

lemma view_forward_step [simp]: "view (snd (forward_step ev S)) = view S"
  by (cases "(ev, S)" rule: forward_step.cases) (simp_all add: view_does)

lemma view_forward_run [simp]: "view (snd (forward_run evs S)) = view S"
proof (induction evs arbitrary: S)
  case (Cons ev evs)
  obtain b S1 where f: "forward_step ev S = (b, S1)" by force
  then have "view S1 = view S" using view_forward_step [of ev S] by simp
  then show ?case using Cons f by (cases b) simp_all
qed simp

lemma view_port_forward: "view (snd (try_port_forward_loop evs S)) = view S"
  by (simp add: try_port_forward_loop_def)

lemma guarded_after_loop:
  assumes "guarded (snd res)"
  shows "guarded (snd (after_loop E fevs res))"
proof -
  obtain r S where r: "res = (r, S)" by force
  obtain b S1 where f: "try_port_forward_loop fevs (forget_video S) = (b, S1)" by force
  have "view (forget_video S) = view S" by (simp add: forget_video_def view_does)
  moreover have "view S1 = view (forget_video S)"
    using view_port_forward [of fevs "forget_video S"] unfolding f by simp
  ultimately have "view S1 = view S" by simp
  from guarded_view [OF this] assms r have g: "guarded S1" by simp
  obtain r2 S2 where c: "close_loop E False S1 = (r2, S2)" by force
  then have "guarded S2" using keeps_close_loop [OF c] g by (simp add: keeps_def)
  then show ?thesis using assms r f g c by (cases r; cases b) (auto simp: after_loop_def)
qed


subsection \<open>A sample connection\<close>

definition sample_conn_env :: conn_env where
  "sample_conn_env = \<lparr>disk_ok = True, mac_address = None, gen_keypair = ([1], [2]), clock = 7, now_ms = 600000,
     active_username = ''u'', host_name = ''h'', platform_name = ''Windows'', version_name = ''1.1.8'', is_root = False,
     is_prelogin = False, cm_alive = True, displays = Inr (0, []), can_connect = (\<lambda>_. True), sha256 = (\<lambda>b. b),
     ip_of = (\<lambda>_. None), is_dir = (\<lambda>_. False), tree_at = (\<lambda>_. None), log_ok = True, file_env = sample_zstd,
     disk_now = \<lparr>contents = Map.empty, mtimes = Map.empty\<rparr>\<rparr>"

definition sample_world :: service_world where
  "sample_world = sample_service\<lparr>config := default_config\<lparr>config.c_id := ''me'', c_password := ''pw'', c_salt := ''s'', c_flagex := ''1''\<rparr>\<rparr>"

definition sample_services :: "(unit, message list) server" where
  "sample_services = \<lparr>connections = [], services = [new_service NAME_AUDIO False, new_service NAME_VIDEO True], id_count = 1\<rparr>"

definition sample_session :: session where
  "sample_session = init_session sample_conn_env 1 sample_world Map.empty sample_services"

lemmas sample_conn = sample_conn_env_def sample_world_def sample_service_def default_settings_def settings.defs
  default_config_def default_config2_def sample_services_def

lemma sample_session_reads [simp]:
  "authorized sample_session = False" "out sample_session = []" "conn_id sample_session = 1"
  "get_flagex sample_session = ''1''" "get_option k sample_session = []" "keyboard sample_session = True"
  "audio sample_session = True" "sv sample_session = sample_services" "disable_audio sample_session = False"
  by (simp_all add: sample_session_def init_session_def sample_conn get_salt_def get_auto_password_def
    get_flagex_def get_option_def Let_def service_world.defs)

definition sample_mouse :: mouse_event where
  "sample_mouse = \<lparr>m_mask = 0, m_x = 1, m_y = 2, m_modifiers = []\<rparr>"


subsection \<open>Who gets authorized\<close>

text \<open>What the check of a password reads of a session.\<close>

definition credentials :: "session \<Rightarrow> string \<times> (nat \<Rightarrow> nat) \<times> string \<times> string \<times> (string \<rightharpoonup> int \<times> int \<times> int) \<times> string" where
  "credentials S = (c_password (config S), rng S, hash_salt S, hash_challenge S, login_failures S, conn_ip S)"

lemma credentials_does [simp]:
  "credentials (does e S) = credentials S" "credentials (set_subscription n b S) = credentials S"
  by (simp_all add: credentials_def does_def set_subscription_def)

lemma credentials_sends [simp]:
  "credentials (send m S) = credentials S" "credentials (send_to_cm d S) = credentials S"
  by (simp_all add: send_def send_to_cm_def)

lemma credentials_when_set: "(\<And>b S. credentials (f b S) = credentials S) \<Longrightarrow> credentials (when_set q f S) = credentials S"
  by (simp add: when_set_def split: option.split)

lemma credentials_update_option [simp]: "credentials (update_option o1 S) = credentials S"
proof -
  have u: "credentials (S\<lparr>quality := a1\<rparr>) = credentials S" "credentials (S\<lparr>lock_after_session_end := a2\<rparr>) = credentials S"
    "credentials (S\<lparr>show_remote_cursor := a2\<rparr>) = credentials S" "credentials (S\<lparr>disable_audio := a2\<rparr>) = credentials S"
    "credentials (S\<lparr>enable_file_transfer := a2\<rparr>) = credentials S" "credentials (S\<lparr>disable_clipboard := a2\<rparr>) = credentials S"
    "credentials (S\<lparr>privacy_mode := a2\<rparr>) = credentials S" for a1 a2 S
    by (simp_all add: credentials_def)
  have "credentials (on_lock_option b S) = credentials S" "credentials (on_cursor_option b S) = credentials S"
    "credentials (on_audio_option b S) = credentials S" "credentials (on_file_option b S) = credentials S"
    "credentials (on_clipboard_option b S) = credentials S" "credentials (on_privacy_option b S) = credentials S"
    "credentials (on_block_option b S) = credentials S" for b S
    by (simp_all add: on_lock_option_def on_cursor_option_def on_audio_option_def on_file_option_def
      on_clipboard_option_def on_privacy_option_def on_block_option_def Let_def u)
  moreover have "credentials (on_image_quality q S) = credentials S" "credentials (on_custom_quality n S) = credentials S" for q n S
    by (simp_all add: on_image_quality_def on_custom_quality_def u split: proto_enum.split)
  ultimately show ?thesis by (simp add: update_option_def Let_def credentials_when_set)
qed

lemma credentials_login_options [simp]: "credentials (login_options lr S) = credentials S"
  by (cases "lr_option lr") (simp_all add: login_options_def credentials_def [of "_\<lparr>video_ack_required := _\<rparr>"],
    simp_all flip: credentials_def)

lemma credentials_get_id: "Config.get_id E S = (i, S') \<Longrightarrow> credentials S' = credentials S"
  by (auto simp: Config.get_id_def set_id_def store_config_def credentials_def Let_def split: if_splits option.splits)

lemma credentials_open_port [simp]: "credentials (open_port_forward E h p S) = credentials S"
  by (simp add: open_port_forward_def Let_def send_login_error_def) (simp add: credentials_def)

definition locked_out :: "'e conn_env_scheme \<Rightarrow> session \<Rightarrow> bool" where
  "locked_out E S \<longleftrightarrow> (case failure_of S of (m, n, tot) \<Rightarrow> tot > 30 \<or> login_minute E = m \<and> n > 6)"

definition right_password :: "'e conn_env_scheme \<Rightarrow> login_request \<Rightarrow> session \<Rightarrow> bool" where
  "right_password E lr S \<longleftrightarrow>
     lr_password lr = password_digest E (fst (get_password E S)) (hash_salt S) (hash_challenge S)"

lemma credentials_eq:
  assumes "credentials S' = credentials S"
  shows "locked_out E S' = locked_out E S" "right_password E lr S' = right_password E lr S"
  using assms by (auto simp: credentials_def locked_out_def failure_of_def right_password_def get_password_def
    get_auto_password_def Let_def)

lemma authorized_logged: "authorized (snd (logged E k r (\<lambda>S. (Done (f S), S)) S)) = authorized S"
proof -
  obtain r1 S1 where l: "logged E k r (\<lambda>S. (Done (f S), S)) S = (r1, S1)" by force
  then have "view S1 = view S" by (cases rule: logged_cases) auto
  then have "authorized S1 = authorized S" by (rule view_auth)
  then show ?thesis unfolding l by simp
qed

lemma sample_env_reads [simp]:
  "now_ms sample_conn_env = 600000" "sha256 sample_conn_env = (\<lambda>b. b)" "can_connect sample_conn_env a = True"
  "log_ok sample_conn_env = True"
  by (simp_all add: sample_conn_env_def)

lemma authorized_after_response: "authorized (authorized_response E S)"
  by (simp add: authorized_response_def Let_def split: option.split sum.split)

lemma authorized_try_start_cm [simp]: "authorized (try_start_cm a b c d S) = authorized S"
  by (rule view_auth) simp

lemma sample_session_secrets [simp]:
  "config.c_id (config sample_session) = ''me''" "c_password (config sample_session) = ''pw''"
  "hash_salt sample_session = ''s''" "hash_challenge sample_session = ''222222''"
  "login_failures sample_session = Map.empty" "port_forward_socket sample_session = None"
  by (simp_all add: sample_session_def init_session_def sample_conn get_salt_def get_auto_password_def
    Let_def service_world.defs CHARS_def upt_rec)

lemma check_password_authorizes:
  assumes "check_password E lr S = (r, S')" "authorized S'" "\<not> authorized S"
  shows "right_password E lr S \<and> \<not> locked_out E S"
proof -
  obtain pw S0 where g: "get_password E S = (pw, S0)" by force
  have same: "hash_salt S0 = hash_salt S" "hash_challenge S0 = hash_challenge S" "failure_of S0 = failure_of S"
    using g by (auto simp: get_password_def get_auto_password_def set_password_def store_config_def failure_of_def
      Let_def split: if_splits)
  obtain m n total where f: "failure_of S0 = (m, n, total)" using prod_cases3 by blast
  have n: "\<not> authorized S0" using view_auth [OF view_get_password [OF g]] assms(3) by simp
  then have k: "authorized X \<Longrightarrow> view X \<noteq> view S0" for X using view_auth [of X S0] by auto
  show ?thesis
    using assms(1,2) g f same k [of S'] 
    by (auto simp: check_password_def right_password_def locked_out_def Let_def split: if_splits)
qed

lemma check_login_authorizes:
  assumes "check_login E lr S = (r, S')" "authorized S'" "\<not> authorized S"
  shows "right_password E lr S \<and> \<not> locked_out E S"
proof -
  obtain i S0 where i: "Config.get_id E S = (i, S0)" by force
  have n: "\<not> authorized S0" using view_auth [OF view_get_id [OF i]] assms(3) by simp
  have "check_password E lr S = (r, S') \<or> check_password E lr S0 = (r, S')"
    using assms i n view_auth [of S' S] view_auth [of S' S0]
    by (auto simp: check_login_def split: if_splits)
  then show ?thesis
    using check_password_authorizes [of E lr S r S'] check_password_authorizes [of E lr S0 r S'] assms(2,3) n
      credentials_eq [OF credentials_get_id [OF i]] by blast
qed

lemma credentials_fields [simp]:
  "credentials (S\<lparr>file_transfer := ft\<rparr>) = credentials S" "credentials (S\<lparr>last_recv_time := t\<rparr>) = credentials S"
  by (simp_all add: credentials_def)

lemma on_login_authorizes:
  assumes "on_login E lr S = (r, S')" "authorized S'" "\<not> authorized S"
  shows "right_password E lr S \<and> \<not> locked_out E S"
proof -
  let ?S0 = "login_options lr S"
  have n: "\<not> authorized ?S0" using view_auth [OF view_login_options] assms(3) by simp
  note e = on_login_eq [OF refl, of E lr S]
  have "view (send_login_error err ?S0) = view ?S0" for err by simp
  then have s: "\<not> authorized (send_login_error err ?S0)" for err using n view_auth by blast
  have "\<exists>S1. credentials S1 = credentials S \<and> \<not> authorized S1 \<and> check_login E lr S1 = (r, S')"
  proof (cases "lr_union lr")
    case (FileTransfer dir hid)
    then show ?thesis using e assms(1,2) n s
      by (intro exI [of _ "?S0\<lparr>file_transfer := Some (dir, hid)\<rparr>"]) (auto split: if_splits)
  next
    case (PortForward host prt)
    then show ?thesis using e assms(1,2) n s view_auth [OF view_open_port_forward [of E host prt ?S0]]
      by (intro exI [of _ "open_port_forward E host prt ?S0"]) (auto split: if_splits)
  next
    case NoLoginUnion
    then show ?thesis using e assms(1) n by (intro exI [of _ ?S0]) simp
  qed
  then show ?thesis using check_login_authorizes [OF _ assms(2)] credentials_eq by blast
qed

lemma authorized_on_close:
  assumes "on_close E b S = (r, S')"
  shows "authorized S' = authorized S"
proof -
  obtain r2 S2 where l: "logged E LogDisconnect (Remark ''1'') (\<lambda>S. (Done True, S)) S = (r2, S2)" by force
  then have "authorized S2 = authorized S" by (cases rule: logged_cases) (auto dest: view_auth)
  then show ?thesis using assms l
    by (auto simp: on_close_def Let_def get_auto_password_def set_password_def store_config_def split: outcome.splits if_splits)
qed

lemma authorized_close_loop:
  assumes "close_loop E b S = (r, S')"
  shows "authorized S' = authorized S"
  using authorized_on_close [of E b S] assms
  by (cases "on_close E b S") (auto simp: close_loop_def split: outcome.splits)

lemma authorized_on_cm:
  assumes "on_cm E d S = (r, S')" "\<not> authorized S" "authorized S'"
  shows "d = IAuthorize"
proof (rule ccontr)
  assume "d \<noteq> IAuthorize"
  have "view (switch_permission E n b S) = view S" for n b
    by (simp add: switch_permission_def Let_def view_set_subscription)
  with \<open>d \<noteq> IAuthorize\<close> have "view S' = view S \<or>
      close_loop E False (send (Misc (CloseReason ''Closed manually by the peer'')) S) = (r, S')"
    using assms(1) by (cases d) (auto simp: on_cm_def view_does split: if_splits)
  then show False using view_auth [of S' S]
    authorized_close_loop [of E False "send (Misc (CloseReason ''Closed manually by the peer'')) S" r S'] assms(2,3)
    by auto
qed

lemma authorized_job_tick:
  assumes "on_job_tick E f S = (r, S')"
  shows "authorized S' = authorized S"
proof -
  obtain sent ms js where h: "handle_read_jobs (file_env E) f (disk_now E) (read_jobs S) = (sent, ms, js)"
    using prod_cases3 by blast
  let ?S = "fold send ms (S\<lparr>read_jobs := js\<rparr>)"
  have "S' = ?S \<or> close_loop E False ?S = (r, S') \<or> S' = S\<lparr>fast_timer := False\<rparr>"
    using assms h by (auto simp: on_job_tick_def Let_def split: if_splits)
  then show ?thesis using authorized_close_loop [of E False ?S r S'] by auto
qed

lemma authorized_send_or_close:
  assumes "send_or_close E m sent S = (r, S')"
  shows "authorized S' = authorized S"
  using assms authorized_close_loop [of E False S] by (auto simp: send_or_close_def split: if_splits)

lemma authorized_login_message:
  assumes "on_message E m S = (r, S')" "\<not> authorized S" "authorized S'"
  obtains lr where "m = LoginRequest lr" "right_password E lr S" "\<not> locked_out E S"
proof -
  obtain lr where lr: "m = LoginRequest lr"
    using assms by (cases m) (auto simp: on_message_def on_test_delay_def Let_def split: if_splits)
  then have "on_login E lr S = (r, S')" using assms(1) by (simp add: on_message_def)
  from on_login_authorizes [OF this] show thesis using that lr assms(2,3) by simp
qed

text \<open>
  C4: There are two ways to be authorized. A step of the loop that authorizes a connection is
  either the consent of the local user, sent by the connection manager, or a login request that
  carries the digest of the password, its salt and the challenge of this connection, from an
  address that is not locked out.
\<close>

theorem authorization_needs_password:
  assumes "conn_step E ev S = (r, S')" "\<not> authorized S" "authorized S'"
  shows "ev = FromCm IAuthorize \<or>
    (\<exists>lr. ev = Received (Some (LoginRequest lr)) \<and> right_password E lr S \<and> \<not> locked_out E S)"
proof (cases ev)
  case (FromCm d)
  then show ?thesis using authorized_on_cm [OF _ assms(2,3)] assms(1) by (simp add: conn_step_def)
next
  case (Received mo)
  let ?S = "S\<lparr>last_recv_time := now_ms E\<rparr>"
  obtain m where m: "mo = Some m" using assms Received by (cases mo) (auto simp: conn_step_def)
  obtain r1 S1 where o: "on_message E m ?S = (r1, S1)" by force
  then have "S' = S1" using assms(1) Received m loop_result_snd [of "(r1, S1)"] by (auto simp: conn_step_def)
  with authorized_login_message [OF o] obtain lr where
    "m = LoginRequest lr" "right_password E lr ?S" "\<not> locked_out E ?S" using assms(2,3) by auto
  then show ?thesis using Received m credentials_eq [OF credentials_fields(2)] by blast
next
  case CheckTick
  obtain r1 S1 where o: "on_close E False (send (Misc (CloseReason ''Failed: idle'')) S) = (r1, S1)" by force
  have "S' = S1 \<or> S' = S" using assms(1) CheckTick o
    by (auto simp: conn_step_def close_message_def split: outcome.splits if_splits)
  then show ?thesis using authorized_on_close [OF o] assms(2,3) by auto
next
  case (JobTick f)
  then show ?thesis using authorized_job_tick [of E f S r S'] assms by (simp add: conn_step_def)
next
  case (VideoOut m b)
  then show ?thesis using assms by (auto simp: conn_step_def split: if_splits dest!: authorized_send_or_close)
next
  case (OtherOut m l b)
  then show ?thesis using assms by (auto simp: conn_step_def split: if_splits dest!: authorized_send_or_close)
next
  case TestDelayTick
  then show ?thesis using assms
    by (auto simp: conn_step_def on_test_delay_tick_def split: if_splits dest!: authorized_close_loop)
qed (use assms in \<open>auto simp: conn_step_def dest!: authorized_close_loop\<close>)

theorem authorization_needs_password_witness:
  "right_password sample_conn_env
     \<lparr>username = ''me'', lr_password = text_bytes ''pws222222'', my_id = ''a'', my_name = ''b'', lr_option = None,
       lr_union = NoLoginUnion, lr_video_ack_required = False, my_uid = []\<rparr> sample_session"
proof -
  let ?lr = "\<lparr>username = ''me'', lr_password = text_bytes ''pws222222'', my_id = ''a'', my_name = ''b'', lr_option = None,
    lr_union = NoLoginUnion, lr_video_ack_required = False, my_uid = []\<rparr>"
  let ?ev = "Received (Some (LoginRequest ?lr))"
  obtain r S' where st: "conn_step sample_conn_env ?ev sample_session = (r, S')" by force
  have "S' = snd (conn_step sample_conn_env ?ev sample_session)" using st by simp
  then have "authorized S'"
    by (simp add: conn_step_def on_message_def on_login_def check_login_def is_ip_def Config.get_id_def Let_def
      check_password_def get_password_def failure_of_def password_digest_def text_bytes_def
      send_logon_response_def authorized_logged authorized_after_response loop_result_snd login_minute_def)
  then show ?thesis using authorization_needs_password [OF st] by simp
qed


subsection \<open>Guessing the password\<close>

text \<open>
  Attempts from anywhere, each with a session of its own (its challenge, its address); all share the
  table of failures. How many passwords that are wrong are compared for one address, before a right
  one resets its count.
\<close>

definition attempt ::
  "conn_env \<times> login_request \<times> session \<Rightarrow> (string \<rightharpoonup> int \<times> int \<times> int) \<Rightarrow> session" where
  "attempt = (\<lambda>(E, lr, S) fs. snd (check_password E lr (S\<lparr>login_failures := fs\<rparr>)))"

fun wrong_guesses ::
  "string \<Rightarrow> (conn_env \<times> login_request \<times> session) list \<Rightarrow> (string \<rightharpoonup> int \<times> int \<times> int) \<Rightarrow> nat" where
  "wrong_guesses addr [] fs = 0"
| "wrong_guesses addr ((E, lr, S) # as) fs =
     (let S1 = S\<lparr>login_failures := fs\<rparr>; fs' = login_failures (attempt (E, lr, S) fs) in
      if conn_ip S \<noteq> addr \<or> locked_out E S1 then wrong_guesses addr as fs'
      else if right_password E lr S1 then 0
      else Suc (wrong_guesses addr as fs'))"

lemma failures_keep [simp]:
  "login_failures (does e S) = login_failures S" "login_failures (send m S) = login_failures S"
  "login_failures (send_to_cm d S) = login_failures S" "login_failures (send_login_error err S) = login_failures S"
  "login_failures (try_start_cm a b c au S) = login_failures S"
  "login_failures (store_config F f S) = login_failures S" "login_failures (conn_read_dir dr h S) = login_failures S"
  by (simp_all add: does_def send_def send_to_cm_def send_login_error_def try_start_cm_def store_config_def
    conn_read_dir_def send_fs_def Let_def)

lemma failures_logon [simp]: "login_failures (send_logon_response E S) = login_failures S"
  by (simp add: send_logon_response_def authorized_response_def touch_def Let_def split: option.split sum.split)

lemma failures_logged:
  "login_failures (snd (logged E k r (\<lambda>S. (Done (f S), S)) S)) = login_failures S"
  by (auto simp: logged_def Config.get_id_def set_id_def Let_def split: prod.splits option.splits if_splits)

lemma failures_get_password: "get_password E S = (p, S') \<Longrightarrow> login_failures S' = login_failures S \<and> conn_ip S' = conn_ip S"
  by (auto simp: get_password_def get_auto_password_def set_password_def store_config_def Let_def split: if_splits)

text \<open>What an attempt does to the table.\<close>

lemma check_password_failures:
  "login_failures (snd (check_password E lr S)) =
     (if locked_out E S then login_failures S
      else if right_password E lr S then
        (if fst (failure_of S) \<noteq> 0 then (login_failures S)(conn_ip S := None) else login_failures S)
      else (login_failures S)(conn_ip S \<mapsto> count_failure (login_minute E) (failure_of S)))"
proof -
  obtain pw S0 where g: "get_password E S = (pw, S0)" by force
  have same: "hash_salt S0 = hash_salt S" "hash_challenge S0 = hash_challenge S" "failure_of S0 = failure_of S"
    "login_failures S0 = login_failures S" "conn_ip S0 = conn_ip S"
    using g by (auto simp: get_password_def get_auto_password_def set_password_def store_config_def failure_of_def
      Let_def split: if_splits)
  obtain m n k where f: "failure_of S = (m, n, k)" using prod_cases3 by blast
  show ?thesis
    using g f same by (auto simp: check_password_def right_password_def locked_out_def failures_logged Let_def)
qed

definition total_failures :: "string \<Rightarrow> (string \<rightharpoonup> int \<times> int \<times> int) \<Rightarrow> int" where
  "total_failures addr fs = (case fs addr of Some (m, n, k) \<Rightarrow> k | None \<Rightarrow> 0)"

lemma total_attempt:
  assumes "conn_ip S = addr" "\<not> locked_out E (S\<lparr>login_failures := fs\<rparr>)" "\<not> right_password E lr (S\<lparr>login_failures := fs\<rparr>)"
  shows "total_failures addr (login_failures (attempt (E, lr, S) fs)) = total_failures addr fs + 1 \<and>
    total_failures addr fs \<le> 30"
  using assms
  by (auto simp: attempt_def check_password_failures total_failures_def count_failure_def failure_of_def locked_out_def
    split: option.splits prod.splits if_splits)

lemma other_attempt:
  assumes "conn_ip S \<noteq> addr \<or> locked_out E (S\<lparr>login_failures := fs\<rparr>)"
  shows "login_failures (attempt (E, lr, S) fs) addr = fs addr"
  using assms by (auto simp: attempt_def check_password_failures)


definition sample_login :: "bytes \<Rightarrow> login_request" where
  "sample_login pw = \<lparr>username = ''me'', lr_password = pw, my_id = ''a'', my_name = ''b'', lr_option = None,
     lr_union = NoLoginUnion, lr_video_ack_required = False, my_uid = []\<rparr>"


subsection \<open>What an unauthorized peer gets done all the same\<close>

lemma on_subscribe_member: "member i (on_subscribe i t s)" "name (on_subscribe i t s) = name s"
  by (auto simp: on_subscribe_def member_def fst_update)

lemma set_subscription_member:
  assumes "s \<in> set (services (sv S))" "name s = n"
  shows "\<exists>s' \<in> set (services (sv (set_subscription n True S))). name s' = n \<and> member (conn_id S) s'"
proof -
  let ?f = "\<lambda>s. if name s \<noteq> n then s else if is_subed (conn_id S) s = True then s
    else if True then on_subscribe (conn_id S) [] s else on_unsubscribe (conn_id S) s"
  have "name (?f s) = n \<and> member (conn_id S) (?f s)"
    using assms(2) on_subscribe_member [of "conn_id S" "[]" s]
    by (cases "is_subed (conn_id S) s") (simp_all, simp add: is_subed_def member_def)
  moreover have "?f s \<in> set (services (sv (set_subscription n True S)))"
    using assms(1) by (simp add: set_subscription_def Service.subscribe_def)
  ultimately show ?thesis by blast
qed

lemma check_login_no_password:
  assumes "check_login E lr S = (r, S')" "lr_password lr = []"
  shows "r = Done True \<and> authorized S' = authorized S \<and> sv S' = sv S \<and> set (out S) \<subseteq> set (out S') \<and>
    port_forward_socket S' = port_forward_socket S \<and> config2 S' = config2 S"
proof -
  have g: "sv S0 = sv S \<and> out S0 = out S \<and> authorized S0 = authorized S \<and> port_forward_socket S0 = port_forward_socket S \<and>
      config2 S0 = config2 S" if "Config.get_id E S = (i, S0)" for i S0
    using that by (auto simp: Config.get_id_def set_id_def store_config_def Let_def split: if_splits option.splits)
  have t: "sv (try_start_cm a b c au X) = sv X \<and> set (out X) \<subseteq> set (out (try_start_cm a b c au X)) \<and>
      port_forward_socket (try_start_cm a b c au X) = port_forward_socket X \<and>
      config2 (try_start_cm a b c au X) = config2 X" for a b c au X
    by (auto simp: try_start_cm_def send_to_cm_def does_def Let_def)
  have e: "sv (send_login_error err X) = sv X \<and> set (out X) \<subseteq> set (out (send_login_error err X)) \<and>
      port_forward_socket (send_login_error err X) = port_forward_socket X \<and> config2 (send_login_error err X) = config2 X \<and>
      authorized (send_login_error err X) = authorized X" for err X
    by (auto simp: send_login_error_def send_def does_def)
  obtain i S0 where i: "Config.get_id E S = (i, S0)" by force
  consider "S' = try_start_cm (my_id lr) (my_name lr) (my_uid lr) False S"
    | "S' = send_login_error ''Offline'' S0" | "S' = try_start_cm (my_id lr) (my_name lr) (my_uid lr) False S0"
    using assms i by (auto simp: check_login_def split: if_splits)
  moreover have "r = Done True" using assms i by (auto simp: check_login_def split: if_splits)
  ultimately show ?thesis
    by cases (use g [OF i] t [of "my_id lr" "my_name lr" "my_uid lr" False S] e [of "''Offline''" S0]
      t [of "my_id lr" "my_name lr" "my_uid lr" False S0] in auto)
qed

text \<open>
  C34: The options in a login request are obeyed before anything of the request is checked. A peer
  that has no password, and gets no login, can so subscribe to the sound of the machine (which is
  then sent to it), and have the screen blanked and the local user's input blocked.
\<close>

theorem options_apply_before_login:
  assumes "on_login E lr S = (r, S')" "\<not> authorized S" "audio S" "keyboard S"
    "s \<in> set (services (sv S))" "name s = NAME_AUDIO" "lr_password lr = []" "lr_union lr = NoLoginUnion"
    "lr_option lr = Some (default_option\<lparr>o_disable_audio := Known No, o_privacy_mode := Known Yes\<rparr>)"
  shows "\<not> authorized S' \<and> (\<exists>s' \<in> set (services (sv S')). name s' = NAME_AUDIO \<and> member (conn_id S) s') \<and>
    Input PrivacyOn \<in> set (out S')"
proof -
  let ?S1 = "does (VideoQuality (conn_id S) (Some 0)) (S\<lparr>quality := 0\<rparr>)\<lparr>disable_audio := False\<rparr>"
  let ?S0 = "(does (Input PrivacyOn) ((set_subscription NAME_AUDIO True ?S1)\<lparr>privacy_mode := True\<rparr>))
    \<lparr>video_ack_required := lr_video_ack_required lr\<rparr>"
  have S0: "login_options lr S = ?S0"
    using assms(3,4,9) by (simp add: login_options_def update_option_def default_option_def Let_def
      on_image_quality_def on_custom_quality_def when_set_def on_audio_option_def audio_enabled_def
      on_privacy_option_def does_def set_subscription_def)
  have n: "\<not> authorized ?S0" using view_auth [OF view_login_options, of lr S] assms(2) S0 by simp
  have "check_login E lr ?S0 = (r, S')"
    using assms(1,8) on_login_eq [OF refl, of E lr S] n unfolding S0 by simp
  from check_login_no_password [OF this assms(7)]
  have c: "authorized S' = authorized ?S0" "sv S' = sv ?S0" "set (out ?S0) \<subseteq> set (out S')" by auto
  have m: "s \<in> set (services (sv ?S1))" using assms(5) by (simp add: does_def)
  have "\<exists>s' \<in> set (services (sv ?S0)). name s' = NAME_AUDIO \<and> member (conn_id S) s'"
    using set_subscription_member [OF m assms(6)] by (simp add: does_def)
  moreover have "Input PrivacyOn \<in> set (out ?S0)" by (simp add: does_def)
  ultimately show ?thesis using c n by (metis subsetD)
qed

theorem options_apply_before_login_witness:
  "Input PrivacyOn \<in> set (out (snd (on_login sample_conn_env ((sample_login [])\<lparr>lr_option :=
     Some (default_option\<lparr>o_disable_audio := Known No, o_privacy_mode := Known Yes\<rparr>)\<rparr>) sample_session)))"
proof -
  let ?lr = "(sample_login [])\<lparr>lr_option := Some (default_option\<lparr>o_disable_audio := Known No, o_privacy_mode := Known Yes\<rparr>)\<rparr>"
  obtain r S' where l: "on_login sample_conn_env ?lr sample_session = (r, S')" by force
  have "new_service NAME_AUDIO False \<in> set (services (sv sample_session))" by (simp add: sample_services_def)
  from options_apply_before_login [OF l _ _ _ this] show ?thesis unfolding l
    by (simp add: sample_login_def new_service_def)
qed

text \<open>
  C33: A refused login can still open a tunnel. A first request for a port forward connects its
  target before the password is looked at; a second request, for files that the options or the
  peer's permissions refuse, ends the loop by a plain break, and behind the loop the connected
  socket is served: whatever the peer sends is forwarded to the target, without any login.
\<close>

theorem port_forward_without_login:
  assumes "\<not> authorized S" "get_option ''enable-tunnel'' S = []" "get_option ''enable-file-transfer'' S \<noteq> []"
    "lr_union lr1 = PortForward host prt" "lr_password lr1 = []" "lr_option lr1 = None"
    "\<forall>a. can_connect E a"
    "lr_union lr2 = FileTransfer dir hid" "lr_option lr2 = None"
    "after_loop E [FwStream (Some bs) True]
       (conn_loop [(E, Received (Some (LoginRequest lr1))), (E, Received (Some (LoginRequest lr2)))] S) = (r, S')"
  shows "\<not> authorized S' \<and> ToForward bs \<in> set (out S')"
proof -
  let ?A = "login_options lr1 (S\<lparr>last_recv_time := now_ms E\<rparr>)"
  have A: "?A = S\<lparr>last_recv_time := now_ms E, video_ack_required := lr_video_ack_required lr1\<rparr>"
    using assms(6) by (simp add: login_options_def)
  obtain r1 S1 where c: "check_login E lr1 (open_port_forward E host prt ?A) = (r1, S1)" by force
  have o1: "on_login E lr1 (S\<lparr>last_recv_time := now_ms E\<rparr>) = (r1, S1)"
    using on_login_eq [OF refl, of E lr1] A assms(1,2,4) c by (simp add: get_option_def)
  have P: "port_forward_socket (open_port_forward E host prt X) \<noteq> None" "config2 (open_port_forward E host prt X) = config2 X"
    for X using assms(7) by (auto simp: open_port_forward_def Let_def)
  have S1: "r1 = Done True" "authorized S1 = authorized S" "port_forward_socket S1 \<noteq> None" "config2 S1 = config2 S"
    using check_login_no_password [OF c assms(5)] P A view_auth [OF view_open_port_forward [of E host prt ?A]] by auto
  let ?B = "login_options lr2 (S1\<lparr>last_recv_time := now_ms E\<rparr>)"
  have B: "?B = S1\<lparr>last_recv_time := now_ms E, video_ack_required := lr_video_ack_required lr2\<rparr>"
    using assms(9) by (simp add: login_options_def)
  have o2: "on_login E lr2 (S1\<lparr>last_recv_time := now_ms E\<rparr>) = (Done False, send_login_error ''No permission of file transfer'' ?B)"
    using on_login_eq [OF refl, of E lr2] B S1 assms(1,3,8) by (simp add: get_option_def)
  let ?C = "forget_video (send_login_error ''No permission of file transfer'' ?B)"
  have C: "port_forward_socket ?C \<noteq> None" "authorized ?C = authorized S"
    using S1 B by (simp_all add: forget_video_def send_login_error_def send_def does_def)
  have "S' = does (ToForward bs) ?C"
    using assms(10) o1 o2 S1(1) C(1)
    by (simp add: conn_step_def on_message_def after_loop_def try_port_forward_loop_def)
  with C assms(1) show ?thesis by (simp add: does_def)
qed

definition no_files_session :: session where
  "no_files_session = sample_session\<lparr>config2 := default_config2\<lparr>options := [''enable-file-transfer'' \<mapsto> ''N'']\<rparr>\<rparr>"

theorem port_forward_without_login_witness:
  "ToForward [7] \<in> set (out (snd (after_loop sample_conn_env [FwStream (Some [7]) True]
     (conn_loop [(sample_conn_env, Received (Some (LoginRequest ((sample_login [])\<lparr>lr_union := PortForward ''RDP'' 0\<rparr>)))),
       (sample_conn_env, Received (Some (LoginRequest ((sample_login [])\<lparr>lr_union := FileTransfer [] False\<rparr>))))]
       no_files_session))))"
proof -
  let ?l1 = "(sample_login [])\<lparr>lr_union := PortForward ''RDP'' 0\<rparr>"
  let ?l2 = "(sample_login [])\<lparr>lr_union := FileTransfer [] False\<rparr>"
  obtain r S' where l: "after_loop sample_conn_env [FwStream (Some [7]) True]
     (conn_loop [(sample_conn_env, Received (Some (LoginRequest ?l1))), (sample_conn_env, Received (Some (LoginRequest ?l2)))]
       no_files_session) = (r, S')" by force
  have "\<not> authorized no_files_session" "get_option ''enable-tunnel'' no_files_session = []"
    "get_option ''enable-file-transfer'' no_files_session \<noteq> []"
    by (simp_all add: no_files_session_def get_option_def)
  note w = port_forward_without_login [OF this, where ?lr1.0 = ?l1 and host = "''RDP''" and prt = 0 and ?lr2.0 = ?l2
    and dir = "[]" and hid = False, OF _ _ _ _ _ _ l]
  have "ToForward [7] \<in> set (out S')" using w by (simp add: sample_login_def)
  then show ?thesis unfolding l by simp
qed

lemma on_close_out:
  assumes "log_ok E" "on_close E lock S = (r, S')"
  shows "r = Done () \<and> conn_id S' = conn_id S \<and>
    (\<exists>es. out S' = out S @ es \<and> (\<forall>i b q. FrameFetched i b \<notin> set es \<and> VideoQuality i q \<notin> set es))"
proof -
  obtain i S0 where i: "Config.get_id E S = (i, S0)" by force
  then have g: "out S0 = out S \<and> conn_id S0 = conn_id S"
    by (auto simp: Config.get_id_def set_id_def store_config_def Let_def split: if_splits option.splits)
  show ?thesis
    using assms i g by (auto simp: on_close_def logged_def does_def send_to_cm_def Let_def get_auto_password_def
      set_password_def store_config_def split: if_splits)
qed

text \<open>
  A session that ends by the idle timeout is not cleaned up as the others are. It leaves the
  loop by a return, so the video service is not told that the connection is gone (it keeps its
  latency and quality, and waits for it to fetch frames); every end of the stream tells it.
\<close>

theorem idle_disconnect_skips_cleanup:
  assumes "log_ok E" "check_client_idle_timeout E S" "log_ok E'"
  shows "(\<exists>S' es. after_loop E' fevs (conn_step E CheckTick S) = (Returned, S') \<and> out S' = out S @ es \<and>
      (\<forall>i b q. FrameFetched i b \<notin> set es \<and> VideoQuality i q \<notin> set es)) \<and>
    (\<exists>S'. after_loop E' [] (conn_step E StreamEnd S) = (Broken, S') \<and>
      FrameFetched (conn_id S) False \<in> set (out S') \<and> VideoQuality (conn_id S) None \<in> set (out S'))"
proof -
  obtain r1 S1 where c1: "on_close E False (send (Misc (CloseReason ''Failed: idle'')) S) = (r1, S1)" by force
  obtain r2 S2 where c2: "on_close E True S = (r2, S2)" by force
  have "\<exists>es. out S1 = out S @ es \<and> (\<forall>i b q. FrameFetched i b \<notin> set es \<and> VideoQuality i q \<notin> set es)"
    using on_close_out [OF assms(1) c1] by (auto simp: send_def does_def)
  moreover have "conn_step E CheckTick S = (Returned, S1)"
    using assms(2) c1 on_close_out [OF assms(1) c1] by (simp add: conn_step_def close_message_def)
  moreover have "conn_step E StreamEnd S = (Broken, S2)"
    using c2 on_close_out [OF assms(1) c2] by (simp add: conn_step_def close_loop_def)
  moreover have "after_loop E' [] (Broken, S2) = (Broken, forget_video S2)"
    by (simp add: after_loop_def try_port_forward_loop_def)
  moreover have "conn_id S2 = conn_id S" using on_close_out [OF assms(1) c2] by simp
  ultimately show ?thesis by (simp add: after_loop_def forget_video_def does_def)
qed

theorem idle_disconnect_skips_cleanup_witness:
  "fst (after_loop sample_conn_env [] (conn_step (sample_conn_env\<lparr>now_ms := 10000000\<rparr>) CheckTick
     (sample_session\<lparr>latest_active_time := 1\<rparr>))) = Returned"
proof -
  let ?E = "sample_conn_env\<lparr>now_ms := 10000000\<rparr>" and ?S = "sample_session\<lparr>latest_active_time := 1\<rparr>"
  have "get_idle ?S = ''1''"
    by (simp add: get_idle_def sample_session_def init_session_def sample_conn get_salt_def get_auto_password_def
      Let_def service_world.defs)
  then have "check_client_idle_timeout ?E ?S"
    by (simp add: check_client_idle_timeout_def get_connect_idle_val_def)
  from idle_disconnect_skips_cleanup [OF _ this, of sample_conn_env "[]"] show ?thesis by auto
qed

end
