(* ===== verification/Secure_Stream.thy ===== *)
theory Secure_Stream
  imports Bytes_Codec
begin

text \<open>
  The streams of \<open>libs/hbb_common/src/tcp.rs\<close>: frames of \<open>Bytes_Codec\<close> over TCP that are sealed once
  the two ends have a key. libsodium's \<open>secretbox\<close> is a parameter (\<open>cipher\<close>): a box is made from a
  message, a nonce of 24 bytes and a key. What tokio's \<open>Framed\<close> adds to the codec is its buffer: a
  frame is appended to what is written, and a reader gets the frames that \<open>read_chunks\<close> finds.
\<close>

record cipher =
  seal_box :: "bytes \<Rightarrow> bytes \<Rightarrow> bytes \<Rightarrow> bytes"
  open_box :: "bytes \<Rightarrow> bytes \<Rightarrow> bytes \<Rightarrow> bytes option"

text \<open>A box opens to what was sealed, and only a box that was made with the nonce and key opens.\<close>

definition cipher_ok :: "'c cipher_scheme \<Rightarrow> bool" where
  "cipher_ok C \<longleftrightarrow>
     (\<forall>m n k c. length n = 24 \<longrightarrow> open_box C c n k = Some m \<longleftrightarrow> c = seal_box C m n k)"

datatype stream_error = Codec io_error | TimedOut | SocketError | DecryptionError

record framed_stream =
  st_codec :: bytes_codec
  st_written :: bytes
  st_key :: "(bytes \<times> u64 \<times> u64) option"
  st_timeout :: u64

definition new_stream :: framed_stream where
  "new_stream = \<lparr>st_codec = new_codec, st_written = [], st_key = None, st_timeout = 0\<rparr>"

definition set_send_timeout :: "u64 \<Rightarrow> framed_stream \<Rightarrow> framed_stream" where
  "set_send_timeout ms F = F\<lparr>st_timeout := ms\<rparr>"

definition set_raw_stream :: "framed_stream \<Rightarrow> framed_stream" where
  "set_raw_stream F = F\<lparr>st_codec := set_raw (st_codec F), st_key := None\<rparr>"

definition is_secured :: "framed_stream \<Rightarrow> bool" where
  "is_secured F \<longleftrightarrow> st_key F \<noteq> None"

definition set_key :: "bytes \<Rightarrow> framed_stream \<Rightarrow> framed_stream" where
  "set_key k F = F\<lparr>st_key := Some (k, 0, 0)\<rparr>"

definition get_nonce :: "u64 \<Rightarrow> bytes" where
  "get_nonce n = le_bytes 8 n @ replicate 16 0"

text \<open>
  Sending: \<open>took\<close> is how many milliseconds the socket needs to take the bytes, or that it fails. A
  frame that was begun stays in the buffer.
\<close>

definition send_bytes :: "u64 option \<Rightarrow> bytes \<Rightarrow> framed_stream \<Rightarrow> (stream_error + unit) \<times> framed_stream" where
  "send_bytes took bs F =
     (case encode (st_codec F) bs (st_written F) of
        Inl e \<Rightarrow> (Inl (Codec e), F)
      | Inr buf \<Rightarrow>
          let F = F\<lparr>st_written := buf\<rparr> in
          (case took of
             None \<Rightarrow> (Inl SocketError, F)
           | Some t \<Rightarrow> (if st_timeout F > 0 \<and> t > st_timeout F then Inl TimedOut else Inr (), F)))"

definition send_raw ::
  "'c cipher_scheme \<Rightarrow> u64 option \<Rightarrow> bytes \<Rightarrow> framed_stream \<Rightarrow> (stream_error + unit) \<times> framed_stream" where
  "send_raw C took msg F =
     (case st_key F of
        Some (k, s, r) \<Rightarrow>
          send_bytes took (seal_box C msg (get_nonce (s + 1)) k) (F\<lparr>st_key := Some (k, s + 1, r)\<rparr>)
      | None \<Rightarrow> send_bytes took msg F)"

text \<open>\<open>next\<close>, given what the framed reader has (\<open>None\<close> is the end of the stream).\<close>

definition next_message ::
  "'c cipher_scheme \<Rightarrow> (io_error + bytes) option \<Rightarrow> framed_stream \<Rightarrow> (stream_error + bytes) option \<times> framed_stream" where
  "next_message C res F =
     (case res of
        None \<Rightarrow> (None, F)
      | Some (Inl e) \<Rightarrow> (Some (Inl (Codec e)), F)
      | Some (Inr bs) \<Rightarrow>
          (case st_key F of
             None \<Rightarrow> (Some (Inr bs), F)
           | Some (k, s, r) \<Rightarrow>
               let F = F\<lparr>st_key := Some (k, s, r + 1)\<rparr> in
               (case open_box C bs (get_nonce (r + 1)) k of
                  Some m \<Rightarrow> (Some (Inr m), F)
                | None \<Rightarrow> (Some (Inl DecryptionError), F))))"

subsection \<open>Many messages\<close>

fun send_all ::
  "'c cipher_scheme \<Rightarrow> (u64 option \<times> bytes) list \<Rightarrow> framed_stream \<Rightarrow> (stream_error + unit) \<times> framed_stream" where
  "send_all C [] F = (Inr (), F)"
| "send_all C ((took, m) # ms) F =
     (case send_raw C took m F of (Inr _, F) \<Rightarrow> send_all C ms F | r \<Rightarrow> r)"

text \<open>A receiver takes the frames in turn and stops at the first error, as every caller of \<open>next\<close> does.\<close>

fun deliver :: "'c cipher_scheme \<Rightarrow> bytes list \<Rightarrow> framed_stream \<Rightarrow> (bytes list \<times> stream_error option) \<times> framed_stream" where
  "deliver C [] F = (([], None), F)"
| "deliver C (f # fs) F =
     (case next_message C (Some (Inr f)) F of
        (Some (Inr m), F) \<Rightarrow> (case deliver C fs F of ((ms, e), F) \<Rightarrow> ((m # ms, e), F))
      | (Some (Inl e), F) \<Rightarrow> (([], Some e), F)
      | (None, F) \<Rightarrow> (([], None), F))"

text \<open>The boxes of a sender whose counter is at \<open>s\<close>.\<close>

fun boxes :: "'c cipher_scheme \<Rightarrow> bytes \<Rightarrow> u64 \<Rightarrow> bytes list \<Rightarrow> bytes list" where
  "boxes C k s [] = []"
| "boxes C k s (m # ms) = seal_box C m (get_nonce (s + 1)) k # boxes C k (s + 1) ms"

subsection \<open>Lemmas\<close>

lemma length_get_nonce [simp]: "length (get_nonce n) = 24"
  by (simp add: get_nonce_def)

lemma get_nonce_inj: "get_nonce a = get_nonce b \<longleftrightarrow> a = b"
proof
  assume "get_nonce a = get_nonce b"
  then have "of_le_bytes (le_bytes 8 a) = (of_le_bytes (le_bytes 8 b) :: u64)" by (simp add: get_nonce_def)
  then show "a = b" by (simp add: of_le_bytes_le_bytes take_bit_whole)
qed simp

lemma open_box_iff:
  "cipher_ok C \<Longrightarrow> open_box C c (get_nonce n) k = Some m \<longleftrightarrow> c = seal_box C m (get_nonce n) k"
  by (simp add: cipher_ok_def)

lemma length_boxes [simp]: "length (boxes C k s ms) = length ms"
  by (induction ms arbitrary: s) auto

lemma nth_boxes:
  "i < length ms \<Longrightarrow> boxes C k s ms ! i = seal_box C (ms ! i) (get_nonce (s + of_nat (Suc i))) k"
proof (induction ms arbitrary: s i)
  case Nil
  then show ?case by simp
next
  case (Cons m ms)
  then show ?case by (cases i) (simp_all add: add.assoc)
qed

lemma send_all_boxes:
  assumes "send_all C (zip tooks ms) F = (Inr (), F')" "length tooks = length ms"
    "st_key F = Some (k, s, r)" "\<not> raw (st_codec F)"
  shows "encode_all (st_codec F) (boxes C k s ms) (st_written F) = Inr (st_written F')
    \<and> F' = F\<lparr>st_written := st_written F', st_key := Some (k, s + of_nat (length ms), r)\<rparr>"
  using assms
proof (induction ms arbitrary: tooks F s)
  case Nil
  then show ?case by simp
next
  case (Cons m ms)
  then obtain t ts where t: "tooks = t # ts" "length ts = length ms" by (cases tooks) auto
  let ?F = "F\<lparr>st_key := Some (k, s + 1, r)\<rparr>" and ?b = "seal_box C m (get_nonce (s + 1)) k"
  obtain F1 where F1: "send_bytes t ?b ?F = (Inr (), F1)" "send_all C (zip ts ms) F1 = (Inr (), F')"
    using Cons.prems(1,3) t by (auto simp: send_raw_def split: prod.splits sum.splits)
  then obtain buf where "encode (st_codec F) ?b (st_written F) = Inr buf" "F1 = ?F\<lparr>st_written := buf\<rparr>"
    by (auto simp: send_bytes_def Let_def split: sum.splits option.splits if_splits)
  with Cons.IH [OF F1(2) t(2), of "s + 1"] Cons.prems(4) show ?case by (auto simp: add.assoc)
qed

lemma deliver_boxes:
  assumes "cipher_ok C" "st_key F = Some (k, s, r)"
  shows "deliver C (boxes C k r ms) F = ((ms, None), F\<lparr>st_key := Some (k, s, r + of_nat (length ms))\<rparr>)"
  using assms(2)
proof (induction ms arbitrary: F r)
  case Nil
  then show ?case by simp
next
  case (Cons m ms)
  have "open_box C (seal_box C m (get_nonce (r + 1)) k) (get_nonce (r + 1)) k = Some m"
    using assms(1) by (simp add: open_box_iff)
  with Cons show ?case by (simp add: next_message_def add.assoc)
qed

subsection \<open>Properties\<close>

text \<open>
  C5: What one end sends over a secured stream is what the other end gets, in order and complete,
  however the network cuts the bytes; both counters advance by the number of messages.
\<close>

theorem secured_stream_delivers:
  assumes "cipher_ok C" "send_all C (zip tooks ms) F = (Inr (), F')" "length tooks = length ms"
    and "st_key F = Some (k, s, r)" "at_boundary (st_codec F)" "st_written F = []"
    and "st_key G = Some (k, s2, s)" "at_boundary c" "concat chunks = st_written F'"
  shows "\<exists>fs. read_chunks decode codec_rank c [] chunks = (fs, None, c, []) \<and>
    deliver C fs G = ((ms, None), G\<lparr>st_key := Some (k, s2, s + of_nat (length ms))\<rparr>) \<and>
    st_key F' = Some (k, s + of_nat (length ms), r)"
proof -
  have raw: "\<not> raw (st_codec F)" using assms(5) by (simp add: at_boundary_def)
  note b = send_all_boxes [OF assms(2,3,4) raw]
  then obtain hs where "map frame_of (boxes C k s ms) = map Some hs" "st_written F' = concat hs"
    using encode_all_frames [OF raw conjunct1 [OF b]] assms(6) by fastforce
  then have "read_chunks decode codec_rank c [] chunks = (boxes C k s ms, None, c, [])"
    using assms(8,9) by (intro codec.read_chunks_encodings) auto
  moreover have "st_key F' = Some (k, s + of_nat (length ms), r)"
    by (subst b [THEN conjunct2]) simp
  ultimately show ?thesis using deliver_boxes [OF assms(1,7)] by blast
qed


definition prefix_cipher :: cipher where
  "prefix_cipher = \<lparr>seal_box = (\<lambda>m n k. n @ k @ m),
     open_box = (\<lambda>c n k. if take (length n + length k) c = n @ k then Some (drop (length n + length k) c) else None)\<rparr>"

lemma prefix_cipher_ok: "cipher_ok prefix_cipher"
proof -
  have "take (length n + length k) c = n @ k \<and> drop (length n + length k) c = m \<longleftrightarrow> c = n @ k @ m"
    for n k c m :: bytes
    by (metis append.assoc append_take_drop_id append_eq_conv_conj length_append)
  then have "(if take (length n + length k) c = n @ k then Some (drop (length n + length k) c) else None) = Some m
      \<longleftrightarrow> c = n @ k @ m" for n k c m :: bytes
    by (metis option.distinct(1) option.inject)
  then show ?thesis unfolding cipher_ok_def prefix_cipher_def cipher.simps by blast
qed

theorem secured_stream_delivers_witness:
  "\<exists>fs. fst (deliver prefix_cipher fs (set_key [9] new_stream)) = ([[1, 2], []], None)"
proof -
  let ?F = "set_key [9] new_stream"
  let ?r = "send_all prefix_cipher (zip [Some 5, Some 7] [[1, 2], []]) ?F"
  have "fst ?r = Inr ()"
    by (simp add: send_raw_def send_bytes_def set_key_def new_stream_def new_codec_def Let_def encode_def
      encode_head_def prefix_cipher_def)
  then obtain F' where F: "?r = (Inr (), F')" by (cases ?r) auto
  have "at_boundary (st_codec ?F)" "st_written ?F = []" "st_key ?F = Some ([9], 0, 0)" "at_boundary new_codec"
    by (simp_all add: at_boundary_def set_key_def new_stream_def new_codec_def)
  note b = this
  have l: "length [Some 5, Some (7 :: u64)] = length [[1, 2], [] :: bytes]" by simp
  show ?thesis
    using secured_stream_delivers [OF prefix_cipher_ok F l b(3,1,2,3,4), of "[st_written F']"]
    by (metis (no_types, lifting) append_Nil2 concat.simps fst_conv)
qed

text \<open>
  C6: Nobody between the two ends can change, drop, repeat or reorder messages unnoticed: if only
  the sender's boxes open under the key, each only under its own nonce, then whatever frames arrive,
  what the receiver takes before the first error is a beginning of what was sent.
\<close>

theorem secured_stream_takes_prefix:
  assumes "cipher_ok C" "st_key G = Some (k, s2, s)" "length ms < 2 ^ 64"
    and "\<forall>f \<in> set fs. \<forall>i. open_box C f (get_nonce i) k \<noteq> None \<longrightarrow>
      (\<exists>j < length ms. f = boxes C k s ms ! j \<and> i = s + of_nat (Suc j))"
    and "deliver C fs G = ((ds, e), G')"
  shows "\<exists>n. ds = take n ms"
proof -
  have "\<exists>n. ds = take n (drop j ms)" if "j \<le> length ms" "st_key G = Some (k, s2, s + of_nat j)"
      "deliver C fs G = ((ds, e), G')" for j ds
    using that assms(4)
  proof (induction fs arbitrary: G j ds)
    case Nil
    then show ?case by (intro exI [of _ 0]) simp
  next
    case (Cons f fs)
    let ?n = "s + of_nat j + 1" and ?G = "G\<lparr>st_key := Some (k, s2, s + of_nat j + 1)\<rparr>"
    show ?case
    proof (cases "open_box C f (get_nonce ?n) k")
      case None
      with Cons.prems show ?thesis by (intro exI [of _ 0]) (auto simp: next_message_def)
    next
      case (Some m)
      then obtain j' where j': "j' < length ms" "f = boxes C k s ms ! j'" "?n = s + of_nat (Suc j')"
        using Cons.prems(4) by force
      then have "(of_nat j :: u64) = of_nat j'" by (simp add: algebra_simps)
      then have "unat (of_nat j :: u64) = unat (of_nat j' :: u64)" by simp
      moreover have "j < 2 ^ 64" "j' < 2 ^ 64" using Cons.prems(1) j'(1) assms(3) by simp_all
      ultimately have "j = j'" by (simp add: unat_of_nat)
      with j' have "open_box C f (get_nonce ?n) k = Some (ms ! j)"
        using assms(1) by (simp add: open_box_iff nth_boxes algebra_simps)
      with Some have m: "m = ms ! j" by simp
      obtain ds1 e1 G1 where d: "deliver C fs ?G = ((ds1, e1), G1)" by (metis prod.exhaust)
      with Cons.prems(2,3) Some have ds: "ds = m # ds1" "e1 = e" "G1 = G'" by (auto simp: next_message_def)
      have "\<exists>n. ds1 = take n (drop (Suc j) ms)"
      proof (rule Cons.IH)
        show "Suc j \<le> length ms" using \<open>j = j'\<close> j'(1) by simp
        show "st_key ?G = Some (k, s2, s + of_nat (Suc j))" by (simp add: algebra_simps)
        show "deliver C fs ?G = ((ds1, e), G')" using d ds by simp
      qed (use Cons.prems(4) in simp)
      then obtain n where "ds1 = take n (drop (Suc j) ms)" ..
      then have "ds = take (Suc n) (drop j ms)"
        using ds m \<open>j = j'\<close> j'(1) by (simp flip: Cons_nth_drop_Suc)
      then show ?thesis ..
    qed
  qed
  from this [of 0] assms(2,5) show ?thesis by simp
qed

text \<open>A box that is sent twice is taken once.\<close>

theorem secured_stream_takes_prefix_witness:
  "\<exists>n. fst (fst (deliver prefix_cipher [get_nonce 1 @ [9, 1], get_nonce 1 @ [9, 1]] (set_key [9] new_stream)))
     = take n [[1]]"
proof -
  let ?f = "get_nonce 1 @ [9, 1]" and ?G = "set_key [9] new_stream"
  obtain ds e G' where d: "deliver prefix_cipher [?f, ?f] ?G = ((ds, e), G')" by (metis prod.exhaust)
  have "open_box prefix_cipher ?f (get_nonce i) [9] \<noteq> None \<longrightarrow> i = 1" for i
    by (auto simp: prefix_cipher_def get_nonce_inj split: if_splits)
  then have "\<forall>f \<in> set [?f, ?f]. \<forall>i. open_box prefix_cipher f (get_nonce i) [9] \<noteq> None \<longrightarrow>
      (\<exists>j < length [[1 :: u8]]. f = boxes prefix_cipher [9] 0 [[1]] ! j \<and> i = 0 + of_nat (Suc j))"
    by (simp add: prefix_cipher_def)
  from secured_stream_takes_prefix [OF prefix_cipher_ok _ _ this d] d show ?thesis
    by (auto simp: set_key_def)
qed

text \<open>
  C24: The two directions of a session share the key and count from one each, so the \<open>i\<close>th messages of
  both ends use one nonce, and an end takes its own first messages back when they are reflected to it.
\<close>

theorem reflected_messages_are_taken:
  assumes "cipher_ok C" "send_all C (zip tooks ms) (set_key k F) = (Inr (), F')" "length tooks = length ms"
    and "at_boundary (st_codec F)" "st_written F = []"
  shows "\<exists>fs. read_chunks decode codec_rank (st_codec F) [] [st_written F'] = (fs, None, st_codec F, []) \<and>
    fst (deliver C fs F') = (ms, None)"
proof -
  have raw: "\<not> raw (st_codec (set_key k F))" using assms(4) by (simp add: set_key_def at_boundary_def)
  have k: "st_key (set_key k F) = Some (k, 0, 0)" by (simp add: set_key_def)
  note b = send_all_boxes [OF assms(2,3) k raw]
  then obtain hs where "map frame_of (boxes C k 0 ms) = map Some hs" "st_written F' = concat hs"
    using encode_all_frames [OF raw conjunct1 [OF b]] assms(5) by (fastforce simp: set_key_def)
  then have "read_chunks decode codec_rank (st_codec F) [] [st_written F'] = (boxes C k 0 ms, None, st_codec F, [])"
    using assms(4) by (intro codec.read_chunks_encodings) auto
  moreover have "st_key F' = Some (k, 0 + of_nat (length ms), 0)"
    by (subst b [THEN conjunct2]) simp
  ultimately show ?thesis using deliver_boxes [OF assms(1)] by auto
qed

theorem reflected_messages_are_taken_witness:
  "\<exists>fs. fst (deliver prefix_cipher fs (snd (send_all prefix_cipher [(Some 0, [1])] (set_key [9] new_stream)))) = ([[1]], None)"
proof -
  let ?r = "send_all prefix_cipher (zip [Some 0] [[1]]) (set_key [9] new_stream)"
  have "fst ?r = Inr ()"
    by (simp add: send_raw_def send_bytes_def set_key_def new_stream_def new_codec_def Let_def encode_def
      encode_head_def prefix_cipher_def)
  then obtain F' where F: "?r = (Inr (), F')" by (cases ?r) auto
  have "at_boundary (st_codec new_stream)" "st_written new_stream = []"
    by (simp_all add: at_boundary_def new_stream_def new_codec_def)
  from reflected_messages_are_taken [OF prefix_cipher_ok F _ this]
  have "\<exists>fs. fst (deliver prefix_cipher fs F') = ([[1]], None)"
    by (metis length_Cons list.size(3))
  then show ?thesis using F by simp
qed

end
