(* ===== verification/Handshake.thy ===== *)
theory Handshake
  imports Secure_Stream Connection
begin

text \<open>
  Setting up a secured session: the controlled side in \<open>create_tcp_connection\<close> of \<open>src/server.rs\<close>, the
  controlling side in \<open>secure_connection\<close> of \<open>src/client.rs\<close>. libsodium's signatures and boxes,
  base64 and the bytes of the protobuf messages are parameters (\<open>crypto\<close>); random keys are arguments.
  A reply is what the framed reader of the stream gives, or \<open>None\<close> when the time is over.
\<close>

record crypto = cipher +
  sign_bytes :: "bytes \<Rightarrow> bytes \<Rightarrow> bytes"
  verify_bytes :: "bytes \<Rightarrow> bytes \<Rightarrow> bytes option"
  pk_seal :: "bytes \<Rightarrow> bytes \<Rightarrow> bytes \<Rightarrow> bytes \<Rightarrow> bytes"
  pk_open :: "bytes \<Rightarrow> bytes \<Rightarrow> bytes \<Rightarrow> bytes \<Rightarrow> bytes option"
  base64_decode :: "string \<Rightarrow> bytes option"
  write_id_pk :: "string \<Rightarrow> bytes \<Rightarrow> bytes"
  parse_id_pk :: "bytes \<Rightarrow> (string \<times> bytes) option"
  write_message :: "message \<Rightarrow> bytes"
  parse_message :: "bytes \<Rightarrow> message option"

datatype handshake_error = StreamFailure stream_error | TimeOut | HandshakeFailed string

definition CONNECT_TIMEOUT :: u64 where "CONNECT_TIMEOUT = 18000"

text \<open>
  The public key of the rendezvous server is put together from four constants, which the repository
  holds as empty texts; a slice past the end of a text panics (\<open>None\<close>). Below, the key of the build
  is an argument.
\<close>

definition get_public_key :: "string \<Rightarrow> string \<Rightarrow> string \<Rightarrow> string \<Rightarrow> string option" where
  "get_public_key t1 t2 t3 t4 =
     (if length t1 < 1 \<or> length t2 < 2 \<or> length t3 < 3 \<or> length t4 < 4 then None
      else Some (drop 1 t1 @ drop 2 t2 @ drop 3 t3 @ drop 4 t4 @ ''=''))"

text \<open>Sending a message, within the connection's time-out when it has one.\<close>

definition send_message ::
  "crypto \<Rightarrow> u64 option \<Rightarrow> message \<Rightarrow> framed_stream \<Rightarrow> (handshake_error + unit) \<times> framed_stream" where
  "send_message C took m F =
     (case send_raw C took (write_message C m) F of
        (Inl e, F) \<Rightarrow> (Inl (StreamFailure e), F)
      | (Inr _, F) \<Rightarrow> (Inr (), F))"

definition send_in_time ::
  "crypto \<Rightarrow> u64 option \<Rightarrow> message \<Rightarrow> framed_stream \<Rightarrow> (handshake_error + unit) \<times> framed_stream" where
  "send_in_time C took m F =
     (case send_message C took m F of
        (r, F) \<Rightarrow> (case took of Some t \<Rightarrow> (if t > CONNECT_TIMEOUT then Inl TimeOut else r, F) | None \<Rightarrow> (r, F)))"

type_synonym reply = "(io_error + bytes) option option"

definition no_nonce :: bytes where "no_nonce = replicate 24 0"

subsection \<open>The controlled side\<close>

definition server_answer ::
  "crypto \<Rightarrow> 'e config_env_scheme \<Rightarrow> bytes \<Rightarrow> message option \<Rightarrow> framed_stream \<Rightarrow> 's settings_scheme
     \<Rightarrow> (handshake_error + unit) \<times> framed_stream \<times> 's settings_scheme" where
  "server_answer C E our_sk m F W =
     (case m of
        None \<Rightarrow> (Inl (HandshakeFailed ''Handshake failed: invalid message format''), F, W)
      | Some (PublicKey a s) \<Rightarrow>
          if length a = 32 then
            (case pk_open C s no_nonce a our_sk of
               None \<Rightarrow> (Inl (HandshakeFailed ''Handshake failed: box decryption failure''), F, W)
             | Some k \<Rightarrow>
                 if length k \<noteq> 32
                 then (Inl (HandshakeFailed ''Handshake failed: invalid secret key length from peer''), F, W)
                 else (Inr (), set_key k F, W))
          else if a = [] then (Inr (), F, set_key_confirmed E False W)
          else (Inl (HandshakeFailed ''Handshake failed: invalid public sign key length from peer''), F, W)
      | Some _ \<Rightarrow> (Inr (), F, W))"

definition server_handshake ::
  "crypto \<Rightarrow> 'e config_env_scheme \<Rightarrow> bool \<Rightarrow> bytes \<times> bytes \<Rightarrow> u64 option \<Rightarrow> reply \<Rightarrow> framed_stream \<Rightarrow> 's settings_scheme
     \<Rightarrow> (handshake_error + unit) \<times> framed_stream \<times> 's settings_scheme" where
  "server_handshake C E secure box_keys took reply F W =
     (case get_key_pair E W of ((skey, pkey), W) \<Rightarrow>
      if secure \<and> length pkey = 32 \<and> length skey = 64 then
        (case Config.get_id E W of (i, W) \<Rightarrow>
         (case send_in_time C took (SignedId (sign_bytes C (write_id_pk C i (fst box_keys)) skey)) F of
           (Inl e, F) \<Rightarrow> (Inl e, F, W)
         | (Inr _, F) \<Rightarrow>
             (case reply of
                None \<Rightarrow> (Inl TimeOut, F, W)
              | Some res \<Rightarrow>
                  (case next_message C res F of
                     (None, F) \<Rightarrow> (Inl (HandshakeFailed ''Failed to receive public key''), F, W)
                   | (Some (Inl e), F) \<Rightarrow> (Inl (StreamFailure e), F, W)
                   | (Some (Inr bs), F) \<Rightarrow> server_answer C E (snd box_keys) (parse_message C bs) F W))))
      else (Inr (), F, W))"

text \<open>After the handshake the connection runs; the result is \<open>None\<close> when there is none.\<close>

definition create_tcp_connection ::
  "crypto \<Rightarrow> 'e conn_env_scheme \<Rightarrow> bool \<Rightarrow> bytes \<times> bytes \<Rightarrow> u64 option \<Rightarrow> reply \<Rightarrow> framed_stream \<Rightarrow> socket_addr
     \<Rightarrow> ('e conn_env_scheme \<times> conn_event) list \<Rightarrow> forward_event list \<Rightarrow> service_world
     \<Rightarrow> (string \<rightharpoonup> int \<times> int \<times> int) \<Rightarrow> (unit, message list) Service.server
     \<Rightarrow> (handshake_error + loop_state \<times> session) \<times> framed_stream \<times> (unit, message list) Service.server" where
  "create_tcp_connection C E secure box_keys took reply F addr evs fevs W fs server =
     (case next_id server of (i, server) \<Rightarrow>
      (case server_handshake C E secure box_keys took reply F W of
        (Inl e, F, W) \<Rightarrow> (Inl e, F, server)
      | (Inr _, F, W) \<Rightarrow>
          (case start E i addr evs fevs W fs server of (l, S) \<Rightarrow> (Inr (l, S), F, sv S))))"

subsection \<open>The controlling side\<close>

definition get_pk32 :: "bytes \<Rightarrow> bytes option" where
  "get_pk32 k = (if length k = 32 then Some k else None)"

definition get_rs_pk :: "crypto \<Rightarrow> string \<Rightarrow> bytes option" where
  "get_rs_pk C s = (case base64_decode C s of Some k \<Rightarrow> get_pk32 k | None \<Rightarrow> None)"

definition decode_id_pk :: "crypto \<Rightarrow> bytes \<Rightarrow> bytes \<Rightarrow> (string \<times> bytes) option" where
  "decode_id_pk C sid key =
     (case verify_bytes C sid key of
        None \<Rightarrow> None
      | Some bs \<Rightarrow>
          (case parse_id_pk C bs of
             None \<Rightarrow> None
           | Some (i, k) \<Rightarrow> map_option (Pair i) (get_pk32 k)))"

text \<open>The key that the peer signs with, when the rendezvous server vouches for it.\<close>

definition peer_sign_key :: "crypto \<Rightarrow> string \<Rightarrow> string \<Rightarrow> bytes \<Rightarrow> bytes option" where
  "peer_sign_key C pub peer sid =
     (if sid = [] then None
      else case get_rs_pk C pub of
        None \<Rightarrow> None
      | Some rs \<Rightarrow>
          (case decode_id_pk C sid rs of
             Some (i, k) \<Rightarrow> (if i = peer then Some k else None)
           | None \<Rightarrow> None))"

definition client_answer ::
  "crypto \<Rightarrow> string \<Rightarrow> bytes \<Rightarrow> (bytes \<times> bytes) \<times> bytes \<Rightarrow> u64 option \<Rightarrow> message option \<Rightarrow> framed_stream
     \<Rightarrow> (handshake_error + unit) \<times> framed_stream" where
  "client_answer C peer sign_pk = (\<lambda>((our_pk, our_sk), key) took m F.
     (case m of
        Some (SignedId si) \<Rightarrow>
          (case decode_id_pk C si sign_pk of
             Some (i, their_pk) \<Rightarrow>
               if i = peer then
                 (case send_in_time C took (PublicKey our_pk (pk_seal C key no_nonce their_pk our_sk)) F of
                    (Inl e, F) \<Rightarrow> (Inl e, F)
                  | (Inr _, F) \<Rightarrow> (Inr (), set_key key F))
               else send_message C took EmptyMessage F
           | None \<Rightarrow> send_message C took (PublicKey [] []) F)
      | _ \<Rightarrow> send_message C took EmptyMessage F))"

definition secure_connection ::
  "crypto \<Rightarrow> string \<Rightarrow> string \<Rightarrow> bytes \<Rightarrow> (bytes \<times> bytes) \<times> bytes \<Rightarrow> u64 option \<Rightarrow> reply \<Rightarrow> framed_stream
     \<Rightarrow> (handshake_error + unit) \<times> framed_stream" where
  "secure_connection C pub peer sid keys took reply F =
     (case peer_sign_key C pub peer sid of
        None \<Rightarrow> send_message C took EmptyMessage F
      | Some sign_pk \<Rightarrow>
          (case reply of
             None \<Rightarrow> (Inl TimeOut, F)
           | Some res \<Rightarrow>
               (case next_message C res F of
                  (None, F) \<Rightarrow> (Inl (HandshakeFailed ''Reset by the peer''), F)
                | (Some (Inl e), F) \<Rightarrow> (Inl (StreamFailure e), F)
                | (Some (Inr bs), F) \<Rightarrow> client_answer C peer sign_pk keys took (parse_message C bs) F)))"

subsection \<open>What the libraries promise\<close>

definition signs :: "crypto \<Rightarrow> bytes \<Rightarrow> bytes \<Rightarrow> bool" where
  "signs C skey pkey \<longleftrightarrow> (\<forall>m. verify_bytes C (sign_bytes C m skey) pkey = Some m)"

definition seals :: "crypto \<Rightarrow> bytes \<times> bytes \<Rightarrow> bytes \<times> bytes \<Rightarrow> bool" where
  "seals C from to \<longleftrightarrow>
     (\<forall>m. pk_open C (pk_seal C m no_nonce (fst to) (snd from)) no_nonce (fst from) (snd to) = Some m)"

definition parses :: "crypto \<Rightarrow> message \<Rightarrow> bool" where
  "parses C m \<longleftrightarrow> parse_message C (write_message C m) = Some m"

definition parses_id :: "crypto \<Rightarrow> string \<Rightarrow> bytes \<Rightarrow> bool" where
  "parses_id C i k \<longleftrightarrow> parse_id_pk C (write_id_pk C i k) = Some (i, k)"

subsection \<open>Lemmas\<close>

lemma new_stream_simps [simp]:
  "st_key new_stream = None" "st_codec new_stream = new_codec" "st_written new_stream = []" "st_timeout new_stream = 0"
  by (simp_all add: new_stream_def)

lemma new_codec_boundary [simp]: "at_boundary new_codec" "\<not> raw new_codec"
  by (simp_all add: at_boundary_def new_codec_def)

lemma send_message_new:
  "send_message C (Some t) m new_stream =
     (case frame_of (write_message C m) of
        Some h \<Rightarrow> (Inr (), new_stream\<lparr>st_written := h\<rparr>)
      | None \<Rightarrow> (Inl (StreamFailure (Codec (InvalidInput ''Overflow''))), new_stream))"
  by (simp add: send_message_def send_raw_def send_bytes_def encode_frame_of split: option.split)

lemma send_in_time_new:
  "t \<le> CONNECT_TIMEOUT \<Longrightarrow> send_in_time C (Some t) m new_stream = send_message C (Some t) m new_stream"
  by (cases "send_message C (Some t) m new_stream") (auto simp: send_in_time_def)

text \<open>What a reader finds in the bytes of one frame.\<close>

lemma read_one_frame:
  assumes "frame_of d = Some h" "concat cs = h"
  shows "read_chunks decode codec_rank new_codec [] cs = ([d], None, new_codec, [])"
  by (rule codec.read_chunks_encodings [where hs = "[h]"]) (use assms in auto)

lemma read_nothing:
  assumes "concat cs = []"
  shows "read_chunks decode codec_rank new_codec [] cs = ([], None, new_codec, [])"
  by (rule codec.read_chunks_encodings [where hs = "[]"]) (use assms in auto)

lemma decode_signed:
  assumes "signs C skey pkey" "parses_id C i k" "length k = 32"
  shows "decode_id_pk C (sign_bytes C (write_id_pk C i k) skey) pkey = Some (i, k)"
  using assms by (simp add: decode_id_pk_def signs_def parses_id_def get_pk32_def)

lemma set_key_simps [simp]: "st_key (set_key k F) = Some (k, 0, 0)" "st_written (set_key k F) = st_written F"
  by (simp_all add: set_key_def)

lemma next_message_plain: "st_key F = None \<Longrightarrow> next_message C (Some (Inr bs)) F = (Some (Inr bs), F)"
  by (simp add: next_message_def)

lemma server_handshake_eq:
  assumes "key_pair (config W) = (skey, pkey)" "length skey = 64" "length pkey = 32" "c_id (config W) = i" "i \<noteq> []"
  shows "server_handshake C E True b took reply F W =
     (case send_in_time C took (SignedId (sign_bytes C (write_id_pk C i (fst b)) skey)) F of
        (Inl e, F) \<Rightarrow> (Inl e, F, W)
      | (Inr _, F) \<Rightarrow>
          (case reply of
             None \<Rightarrow> (Inl TimeOut, F, W)
           | Some res \<Rightarrow>
               (case next_message C res F of
                  (None, F) \<Rightarrow> (Inl (HandshakeFailed ''Failed to receive public key''), F, W)
                | (Some (Inl e), F) \<Rightarrow> (Inl (StreamFailure e), F, W)
                | (Some (Inr bs), F) \<Rightarrow> server_answer C E (snd b) (parse_message C bs) F W)))"
  using assms by (auto simp: server_handshake_def get_key_pair_def Config.get_id_def Let_def)

lemma server_hello_written:
  assumes "server_handshake C E True b (Some t) reply new_stream W = (r, F, W')" "t \<le> CONNECT_TIMEOUT"
    and "key_pair (config W) = (skey, pkey)" "length skey = 64" "length pkey = 32" "c_id (config W) = i" "i \<noteq> []"
    and "frame_of (write_message C (SignedId (sign_bytes C (write_id_pk C i (fst b)) skey))) = Some h"
  shows "st_written F = h"
  using assms(1,2,8)
  by (auto simp: server_handshake_eq [OF assms(3-7)] send_in_time_new send_message_new next_message_def server_answer_def
    split: option.splits sum.splits message.splits if_splits)

lemma server_hello_read:
  assumes "server_handshake C E True b (Some t) reply new_stream W = (r, F, W')" "t \<le> CONNECT_TIMEOUT"
    and "key_pair (config W) = (skey, pkey)" "length skey = 64" "length pkey = 32" "c_id (config W) = i" "i \<noteq> []"
    and "read_chunks decode codec_rank new_codec [] cs = ([h], None, new_codec, [])" "concat cs = st_written F"
  shows "h = write_message C (SignedId (sign_bytes C (write_id_pk C i (fst b)) skey)) \<and> frame_of h = Some (st_written F)"
proof (cases "frame_of (write_message C (SignedId (sign_bytes C (write_id_pk C i (fst b)) skey)))")
  case None
  then have "st_written F = []"
    using assms(1,2) by (auto simp: server_handshake_eq [OF assms(3-7)] send_in_time_new send_message_new)
  then show ?thesis using read_nothing [of cs] assms(8,9) by simp
next
  case (Some w)
  have w: "st_written F = w" using server_hello_written [OF assms(1-7) Some] .
  then show ?thesis using read_one_frame [OF Some, of cs] Some assms(8,9) by simp
qed

lemma client_answer_written:
  assumes "client_answer C i spk ((a, sk1), key) (Some t) (Some (SignedId si)) new_stream = (r, F)" "t \<le> CONNECT_TIMEOUT"
    and "decode_id_pk C si spk = Some (i, b)"
    and "read_chunks decode codec_rank new_codec [] cs = ([m], None, new_codec, [])" "concat cs = st_written F"
  shows "m = write_message C (PublicKey a (pk_seal C key no_nonce b sk1)) \<and> r = Inr () \<and> st_key F = Some (key, 0, 0)"
proof (cases "frame_of (write_message C (PublicKey a (pk_seal C key no_nonce b sk1)))")
  case None
  then have "st_written F = []"
    using assms(1-3) by (auto simp: client_answer_def send_in_time_new send_message_new)
  then show ?thesis using read_nothing [of cs] assms(4,5) by simp
next
  case (Some w)
  then have F: "F = set_key key (new_stream\<lparr>st_written := w\<rparr>)" "r = Inr ()"
    using assms(1-3) by (auto simp: client_answer_def send_in_time_new send_message_new)
  then show ?thesis using read_one_frame [OF Some, of cs] assms(4,5) by simp
qed

subsection \<open>Properties\<close>

text \<open>
  C7: An undisturbed handshake gives both ends the controlling side's key. The rendezvous server
  vouches for the peer's signing key; each end gets what its reader finds in the bytes that the other
  one wrote, however they are cut.
\<close>

theorem handshake_agrees:
  assumes rs: "get_rs_pk C pub = Some rs_pk" "signs C rs_sk rs_pk" "sid = sign_bytes C (write_id_pk C i pkey) rs_sk"
    and "sid \<noteq> []" "signs C skey pkey" "parses_id C i pkey" "parses_id C i (fst sbox)" "seals C cbox sbox"
    and "\<forall>b. parses C (SignedId b)" "\<forall>a b. parses C (PublicKey a b)"
    and len: "length skey = 64" "length pkey = 32" "length (fst sbox) = 32" "length (fst cbox) = 32" "length key = 32"
    and W: "key_pair (config W) = (skey, pkey)" "c_id (config W) = i" "i \<noteq> []"
    and t: "t1 \<le> CONNECT_TIMEOUT" "t2 \<le> CONNECT_TIMEOUT"
    and server: "server_handshake C E True sbox (Some t1) (Some (Some (Inr answer))) new_stream W = (r1, Fs, W')"
    and client: "secure_connection C pub i sid (cbox, key) (Some t2) (Some (Some (Inr hello))) new_stream = (r2, Fc)"
    and to_client: "read_chunks decode codec_rank new_codec [] cs = ([hello], None, new_codec, [])" "concat cs = st_written Fs"
    and to_server: "read_chunks decode codec_rank new_codec [] ds = ([answer], None, new_codec, [])" "concat ds = st_written Fc"
  shows "r1 = Inr () \<and> r2 = Inr () \<and> st_key Fs = Some (key, 0, 0) \<and> st_key Fc = Some (key, 0, 0)"
proof -
  let ?si = "sign_bytes C (write_id_pk C i (fst sbox)) skey" and ?m = "pk_seal C key no_nonce (fst sbox) (snd cbox)"
  have h: "hello = write_message C (SignedId ?si)" "frame_of hello = Some (st_written Fs)"
    using server_hello_read [OF server t(1) W(1) len(1,2) W(2,3) to_client] by blast+
  have "peer_sign_key C pub i sid = Some pkey"
    using rs assms(4,6) len by (simp add: peer_sign_key_def decode_signed)
  moreover have "parse_message C hello = Some (SignedId ?si)" using h assms(9) by (simp add: parses_def)
  ultimately have "client_answer C i pkey ((fst cbox, snd cbox), key) (Some t2) (Some (SignedId ?si)) new_stream = (r2, Fc)"
    using client by (simp add: secure_connection_def next_message_plain)
  from client_answer_written [OF this t(2) _ to_server, of "fst sbox"]
  have a: "answer = write_message C (PublicKey (fst cbox) ?m)" "r2 = Inr ()" "st_key Fc = Some (key, 0, 0)"
    using decode_signed assms(5,7) len by auto
  have "parse_message C answer = Some (PublicKey (fst cbox) ?m)" using a(1) assms(10) by (simp add: parses_def)
  moreover have "pk_open C ?m no_nonce (fst cbox) (snd sbox) = Some key" using assms(8) by (simp add: seals_def)
  ultimately have "server_handshake C E True sbox (Some t1) (Some (Some (Inr answer))) new_stream W =
      (Inr (), set_key key (new_stream\<lparr>st_written := st_written Fs\<rparr>), W)"
    using h len t(1)
    by (simp add: server_handshake_eq [OF W(1) len(1,2) W(2,3)] send_in_time_new send_message_new next_message_plain
      server_answer_def)
  then have "r1 = Inr ()" "Fs = set_key key (new_stream\<lparr>st_written := st_written Fs\<rparr>)" using server by simp_all
  then have "r1 = Inr ()" "st_key Fs = Some (key, 0, 0)" by (simp, metis set_key_simps(1))
  with a show ?thesis by simp
qed


text \<open>
  C25: Whoever sits between the two ends can keep the session in the clear: a reply to the controlling
  side that is no valid signed id, and any message but a public key to the controlled side, let both
  handshakes succeed without a key.
\<close>

theorem handshake_falls_back_to_cleartext:
  assumes "parse_message C bs = Some m" "\<forall>si b. m = SignedId si \<longrightarrow> decode_id_pk C si spk \<noteq> Some (peer, b)"
    and "peer_sign_key C pub peer sid = Some spk"
    and "length (write_message C EmptyMessage) \<le> 0x3FFFFFFF" "length (write_message C (PublicKey [] [])) \<le> 0x3FFFFFFF"
    and "parse_message C bs2 = Some m2" "\<forall>a b. m2 \<noteq> PublicKey a b"
    and "key_pair (config W) = (skey, pkey)" "length skey = 64" "length pkey = 32" "c_id (config W) = i" "i \<noteq> []"
    and "length (write_message C (SignedId (sign_bytes C (write_id_pk C i (fst b)) skey))) \<le> 0x3FFFFFFF"
    and "t \<le> CONNECT_TIMEOUT"
  shows "fst (secure_connection C pub peer sid keys (Some t) (Some (Some (Inr bs))) new_stream) = Inr () \<and>
    \<not> is_secured (snd (secure_connection C pub peer sid keys (Some t) (Some (Some (Inr bs))) new_stream)) \<and>
    fst (server_handshake C E True b (Some t) (Some (Some (Inr bs2))) new_stream W) = Inr () \<and>
    \<not> is_secured (fst (snd (server_handshake C E True b (Some t) (Some (Some (Inr bs2))) new_stream W)))"
proof -
  have fits: "\<exists>h. frame_of d = Some h" if "length d \<le> 0x3FFFFFFF" for d
    using that by (simp add: frame_of_def encode_head_eq)
  have plain: "\<exists>F. send_message C (Some t) m new_stream = (Inr (), F) \<and> st_key F = None"
    if "length (write_message C m) \<le> 0x3FFFFFFF" for m
    using fits [OF that] by (auto simp: send_message_new)
  obtain F where e: "send_message C (Some t) EmptyMessage new_stream = (Inr (), F)" "st_key F = None"
    using plain [OF assms(4)] by blast
  obtain G where p: "send_message C (Some t) (PublicKey [] []) new_stream = (Inr (), G)" "st_key G = None"
    using plain [OF assms(5)] by blast
  obtain H where s: "send_message C (Some t) (SignedId (sign_bytes C (write_id_pk C i (fst b)) skey)) new_stream = (Inr (), H)"
      "st_key H = None"
    using plain [OF assms(13)] by blast
  obtain o1 s1 key where k: "keys = ((o1, s1), key)" by (metis prod.exhaust)
  have "client_answer C peer spk keys (Some t) (Some m) new_stream = (Inr (), F) \<or>
      client_answer C peer spk keys (Some t) (Some m) new_stream = (Inr (), G)"
    using assms(2) e(1) p(1) k by (auto simp: client_answer_def split: message.splits option.splits)
  moreover have "server_handshake C E True b (Some t) (Some (Some (Inr bs2))) new_stream W = (Inr (), H, W)"
    using assms(6,7) s
    by (auto simp: server_handshake_eq [OF assms(8-12)] send_in_time_new [OF assms(14)] next_message_plain server_answer_def
      split: message.splits)
  ultimately show ?thesis
    using assms(1) e(2) p(2) s(2) by (auto simp: secure_connection_def assms(3) next_message_plain is_secured_def)
qed

subsection \<open>Witnesses\<close>

text \<open>Libraries that keep the laws without hiding anything; a public key is the start of its secret key.\<close>

definition sample_write :: "message \<Rightarrow> bytes" where
  "sample_write m =
     (case m of
        SignedId b \<Rightarrow> 1 # b
      | PublicKey a b \<Rightarrow> 2 # replicate (length a) 1 @ 0 # a @ b
      | _ \<Rightarrow> [])"

definition sample_parse :: "bytes \<Rightarrow> message option" where
  "sample_parse bs =
     (case bs of
        [] \<Rightarrow> Some EmptyMessage
      | x # bs \<Rightarrow>
          if x = 1 then Some (SignedId bs)
          else if x = 2 then
            let n = length (takeWhile (\<lambda>y. y = 1) bs); r = drop (Suc n) bs in Some (PublicKey (take n r) (drop n r))
          else None)"

definition sample_crypto :: crypto where
  "sample_crypto = \<lparr>seal_box = seal_box prefix_cipher, open_box = open_box prefix_cipher,
     sign_bytes = (\<lambda>m k. take 32 k @ m),
     verify_bytes = (\<lambda>s k. if take 32 s = k then Some (drop 32 s) else None),
     pk_seal = (\<lambda>m n pk sk. take 32 sk @ pk @ m),
     pk_open = (\<lambda>c n pk sk. if take 64 c = pk @ take 32 sk then Some (drop 64 c) else None),
     base64_decode = (\<lambda>_. Some (replicate 32 5)),
     write_id_pk = (\<lambda>i k. text_bytes i @ k), parse_id_pk = (\<lambda>bs. if take 1 bs = [100] then Some (''d'', drop 1 bs) else None),
     write_message = sample_write, parse_message = sample_parse\<rparr>"

lemma sample_parses: "parses sample_crypto (SignedId b)" "parses sample_crypto (PublicKey a b)"
  by (simp_all add: parses_def sample_crypto_def sample_write_def sample_parse_def Let_def takeWhile_append)

lemma sample_signs: "signs sample_crypto (replicate 64 x) (replicate 32 x)"
  by (simp add: signs_def sample_crypto_def)

lemma sample_seals: "seals sample_crypto (replicate 32 x, replicate 32 x) (replicate 32 y, replicate 32 y)"
  by (simp add: seals_def sample_crypto_def)

lemma sample_parses_id: "parses_id sample_crypto ''d'' k"
  by (simp add: parses_id_def sample_crypto_def text_bytes_def)

definition sample_desk :: settings where
  "sample_desk = default_settings\<lparr>config := (config default_settings)\<lparr>c_id := ''d'',
     key_pair := (replicate 64 7, replicate 32 7)\<rparr>\<rparr>"

lemma sample_desk_simps [simp]: "key_pair (config sample_desk) = (replicate 64 7, replicate 32 7)" "c_id (config sample_desk) = ''d''"
  by (simp_all add: sample_desk_def)


text \<open>The two ends of the witnesses: what the controlled side says, and what the other one answers.\<close>

definition sample_hello :: bytes where
  "sample_hello = sample_write (SignedId (sign_bytes sample_crypto (write_id_pk sample_crypto ''d'' (replicate 32 3)) (replicate 64 7)))"

definition sample_answer :: bytes where
  "sample_answer = sample_write (PublicKey (replicate 32 4)
     (pk_seal sample_crypto (replicate 32 9) no_nonce (replicate 32 3) (replicate 32 4)))"

abbreviation sample_sid :: bytes where
  "sample_sid \<equiv> sign_bytes sample_crypto (write_id_pk sample_crypto ''d'' (replicate 32 7)) (replicate 64 5)"

lemma sample_rs: "get_rs_pk sample_crypto [] = Some (replicate 32 5)"
  by (simp add: get_rs_pk_def sample_crypto_def get_pk32_def)

lemma frame_of_fits: "length d \<le> 0x3FFFFFFF \<Longrightarrow> \<exists>h. frame_of d = Some h"
  by (simp add: frame_of_def encode_head_eq)

lemma write_sample [simp]: "write_message sample_crypto m = sample_write m" "parse_message sample_crypto = sample_parse"
  by (simp_all add: sample_crypto_def)

lemma sample_peer_key: "peer_sign_key sample_crypto [] ''d'' sample_sid = Some (replicate 32 7)"
  using decode_signed [OF sample_signs [of 5] sample_parses_id, of "replicate 32 7"]
  by (simp add: peer_sign_key_def sample_rs) (simp add: sample_crypto_def)

lemma sample_client_run:
  assumes "frame_of sample_answer = Some a" "t \<le> CONNECT_TIMEOUT"
  shows "secure_connection sample_crypto [] ''d'' sample_sid ((replicate 32 4, replicate 32 4), replicate 32 9) (Some t)
      (Some (Some (Inr sample_hello))) new_stream = (Inr (), set_key (replicate 32 9) (new_stream\<lparr>st_written := a\<rparr>))"
proof -
  have dec: "decode_id_pk sample_crypto (sign_bytes sample_crypto (write_id_pk sample_crypto ''d'' (replicate 32 3)) (replicate 64 7))
      (replicate 32 7) = Some (''d'', replicate 32 3)"
    by (rule decode_signed [OF sample_signs sample_parses_id]) simp
  have "sample_parse sample_hello = Some (SignedId
      (sign_bytes sample_crypto (write_id_pk sample_crypto ''d'' (replicate 32 3)) (replicate 64 7)))"
    using sample_parses(1) by (simp add: sample_hello_def parses_def)
  then show ?thesis
    using assms dec
    by (simp add: secure_connection_def sample_peer_key next_message_plain client_answer_def send_in_time_new
      send_message_new sample_answer_def)
qed

lemma sample_sizes: "length sample_hello \<le> 0x3FFFFFFF" "length sample_answer \<le> 0x3FFFFFFF"
  by (simp_all add: sample_hello_def sample_answer_def sample_write_def sample_crypto_def text_bytes_def)

theorem handshake_agrees_witness:
  "\<exists>k. st_key (fst (snd (server_handshake sample_crypto sample_config_env True (replicate 32 3, replicate 32 3) (Some 5)
       (Some (Some (Inr sample_answer))) new_stream sample_desk))) = Some (k, 0, 0) \<and>
     st_key (snd (secure_connection sample_crypto [] ''d'' sample_sid ((replicate 32 4, replicate 32 4), replicate 32 9)
       (Some 5) (Some (Some (Inr sample_hello))) new_stream)) = Some (k, 0, 0)"
proof -
  let ?C = sample_crypto
  let ?s = "server_handshake ?C sample_config_env True (replicate 32 3, replicate 32 3) (Some 5)
    (Some (Some (Inr sample_answer))) new_stream sample_desk"
  let ?c = "secure_connection ?C [] ''d'' sample_sid ((replicate 32 4, replicate 32 4), replicate 32 9)
    (Some 5) (Some (Some (Inr sample_hello))) new_stream"
  obtain r1 Fs W' where s: "?s = (r1, Fs, W')" by (metis prod.exhaust)
  obtain r2 Fc where c: "?c = (r2, Fc)" by (metis prod.exhaust)
  have t: "(5 :: u64) \<le> CONNECT_TIMEOUT" by (simp add: CONNECT_TIMEOUT_def)
  have d: "key_pair (config sample_desk) = (replicate 64 7, replicate 32 7)" "length (replicate 64 (7 :: u8)) = 64"
      "length (replicate 32 (7 :: u8)) = 32" "c_id (config sample_desk) = ''d''" "''d'' \<noteq> []"
    by simp_all
  obtain h a where ha: "frame_of sample_hello = Some h" "frame_of sample_answer = Some a"
    using frame_of_fits sample_sizes by meson
  have h: "st_written Fs = h"
    using server_hello_written [OF s t d] ha by (simp add: sample_hello_def)
  have a: "st_written Fc = a" using sample_client_run [OF ha(2) t] c by auto
  have "sample_sid \<noteq> []" by (simp add: sample_crypto_def)
  have rd: "read_chunks decode codec_rank new_codec [] [h] = ([sample_hello], None, new_codec, [])"
      "read_chunks decode codec_rank new_codec [] [a] = ([sample_answer], None, new_codec, [])"
    by (rule read_one_frame [OF ha(1)], simp) (rule read_one_frame [OF ha(2)], simp)
  have "r1 = Inr () \<and> r2 = Inr () \<and> st_key Fs = Some (replicate 32 9, 0, 0) \<and> st_key Fc = Some (replicate 32 9, 0, 0)"
    by (rule handshake_agrees [OF sample_rs sample_signs refl \<open>sample_sid \<noteq> []\<close> sample_signs sample_parses_id _ sample_seals
        _ _ d(2,3) _ _ _ d(1,4,5) t t s c rd(1) _ rd(2)])
      (simp_all add: sample_parses sample_parses_id h a del: read_chunks.simps)
  then show ?thesis using s c by simp
qed


theorem handshake_falls_back_to_cleartext_witness:
  "\<not> is_secured (snd (secure_connection sample_crypto [] ''d'' sample_sid ((replicate 32 4, replicate 32 4), replicate 32 9)
     (Some 5) (Some (Some (Inr []))) new_stream))"
proof -
  have e: "parse_message sample_crypto [] = Some EmptyMessage" by (simp add: sample_parse_def)
  have "length (write_message sample_crypto (SignedId (sign_bytes sample_crypto
      (write_id_pk sample_crypto ''d'' (fst (replicate 32 3, replicate 32 3))) (replicate 64 7)))) \<le> 0x3FFFFFFF"
    by (simp add: sample_write_def) (simp add: sample_crypto_def text_bytes_def)
  from handshake_falls_back_to_cleartext [OF e _ sample_peer_key _ _ e _ _ _ _ _ _ this, of sample_desk "replicate 32 7" 5
      "((replicate 32 4, replicate 32 4), replicate 32 9)" sample_config_env]
  show ?thesis by (simp add: sample_write_def CONNECT_TIMEOUT_def)
qed

text \<open>With the constants of the repository, asking for the public key panics.\<close>

lemma committed_key_panics: "get_public_key [] [] [] [] = None"
  by (simp add: get_public_key_def)

end
