(* ===== verification/Client.thy ===== *)
theory Client
  imports Handshake
begin

text \<open>
  The controlling side, \<open>src/client.rs\<close>: the settings of a session with one peer
  (\<open>LoginConfigHandler\<close>), the login, and how a connection to a peer is found.

  The state extends the settings of the process by the fields of the handler; what it sends and shows
  is returned. The name of the user, the digest and the JSON of the remembered directories are the
  environment.
\<close>

record client_env = config_env +
  my_username :: string
  digest :: "bytes \<Rightarrow> bytes"
  parse_dirs :: "string \<Rightarrow> string \<rightharpoonup> string"
  print_dirs :: "(string \<rightharpoonup> string) \<Rightarrow> string"

record login_handler = settings +
  lc_id :: string
  lc_is_file_transfer :: bool
  lc_is_port_forward :: bool
  lc_salt :: string
  lc_challenge :: string
  lc_password :: bytes
  lc_remember :: bool
  lc_config :: peer_config
  lc_port_forward :: "string \<times> int"
  lc_version :: int

datatype ui_effect = MsgBox string string string | SendToPeer message

subsection \<open>Settings of a peer\<close>

definition initialize :: "'e config_env_scheme \<Rightarrow> string \<Rightarrow> bool \<Rightarrow> bool \<Rightarrow> login_handler \<Rightarrow> login_handler" where
  "initialize E i is_ft is_pf L =
     (let L = L\<lparr>lc_id := i, lc_is_file_transfer := is_ft, lc_is_port_forward := is_pf\<rparr> in
      case load_peer E i L of (c, L) \<Rightarrow> L\<lparr>lc_remember := pc_password c \<noteq> [], lc_config := c\<rparr>)"

definition load_config :: "'e config_env_scheme \<Rightarrow> login_handler \<Rightarrow> peer_config \<times> login_handler" where
  "load_config E L = load_peer E (lc_id L) L"

definition save_config :: "'e config_env_scheme \<Rightarrow> peer_config \<Rightarrow> login_handler \<Rightarrow> login_handler" where
  "save_config E c L = (store_peer E (lc_id L) c L)\<lparr>lc_config := c\<rparr>"

definition lc_set_option :: "'e config_env_scheme \<Rightarrow> string \<Rightarrow> string \<Rightarrow> login_handler \<Rightarrow> login_handler" where
  "lc_set_option E k v L =
     (case load_config E L of (c, L) \<Rightarrow> save_config E (c\<lparr>pc_options := (pc_options c)(k \<mapsto> v)\<rparr>) L)"

definition save_view_style :: "'e config_env_scheme \<Rightarrow> string \<Rightarrow> login_handler \<Rightarrow> login_handler" where
  "save_view_style E v L = (case load_config E L of (c, L) \<Rightarrow> save_config E (c\<lparr>view_style := v\<rparr>) L)"

definition lc_get_option :: "string \<Rightarrow> login_handler \<Rightarrow> string" where
  "lc_get_option k L = (case pc_options (lc_config L) k of Some v \<Rightarrow> v | None \<Rightarrow> [])"

definition yes_no :: "bool \<Rightarrow> bool_option proto_enum" where
  "yes_no b = Known (if b then Yes else No)"

definition toggle_option :: "'e config_env_scheme \<Rightarrow> string \<Rightarrow> login_handler \<Rightarrow> message option \<times> login_handler" where
  "toggle_option E n L =
     (case load_config E L of (c, L) \<Rightarrow>
      let save = (\<lambda>c o1. (Some (Misc (MOption o1)), save_config E c L)) in
      if n = ''show-remote-cursor'' then
        let b = (\<not> pc_show_remote_cursor c)
        in save (c\<lparr>pc_show_remote_cursor := b\<rparr>) (default_option\<lparr>o_show_remote_cursor := yes_no b\<rparr>)
      else if n = ''disable-audio'' then
        let b = (\<not> pc_disable_audio c)
        in save (c\<lparr>pc_disable_audio := b\<rparr>) (default_option\<lparr>o_disable_audio := yes_no b\<rparr>)
      else if n = ''disable-clipboard'' then
        let b = (\<not> pc_disable_clipboard c)
        in save (c\<lparr>pc_disable_clipboard := b\<rparr>) (default_option\<lparr>o_disable_clipboard := yes_no b\<rparr>)
      else if n = ''lock-after-session-end'' then
        let b = (\<not> pc_lock_after_session_end c)
        in save (c\<lparr>pc_lock_after_session_end := b\<rparr>) (default_option\<lparr>o_lock_after_session_end := yes_no b\<rparr>)
      else if n = ''privacy-mode'' then
        let b = (\<not> pc_privacy_mode c)
        in save (c\<lparr>pc_privacy_mode := b\<rparr>) (default_option\<lparr>o_privacy_mode := yes_no b\<rparr>)
      else if n = ''enable-file-transfer'' then
        let b = (\<not> pc_enable_file_transfer c)
        in save (c\<lparr>pc_enable_file_transfer := b\<rparr>) (default_option\<lparr>o_enable_file_transfer := yes_no b\<rparr>)
      else if n = ''block-input'' then (Some (Misc (MOption (default_option\<lparr>o_block_input := yes_no True\<rparr>))), L)
      else if n = ''unblock-input'' then (Some (Misc (MOption (default_option\<lparr>o_block_input := yes_no False\<rparr>))), L)
      else
        let c = lc_config L;
            c = (if pc_options c n \<noteq> None then c\<lparr>pc_options := (pc_options c)(n := None)\<rparr>
                 else c\<lparr>pc_options := (pc_options c)(n \<mapsto> ''Y'')\<rparr>)
        in (None, store_peer E (lc_id L) c (L\<lparr>lc_config := c\<rparr>)))"

definition get_image_quality_enum :: "string \<Rightarrow> bool \<Rightarrow> image_quality option" where
  "get_image_quality_enum q ignore_default =
     (if q = ''low'' then Some Low
      else if q = ''best'' then Some Best
      else if q = ''balanced'' then (if ignore_default then None else Some Balanced)
      else None)"

definition get_toggle_option :: "string \<Rightarrow> login_handler \<Rightarrow> bool" where
  "get_toggle_option n L =
     (let c = lc_config L in
      if n = ''show-remote-cursor'' then pc_show_remote_cursor c
      else if n = ''lock-after-session-end'' then pc_lock_after_session_end c
      else if n = ''privacy-mode'' then pc_privacy_mode c
      else if n = ''enable-file-transfer'' then pc_enable_file_transfer c
      else if n = ''disable-audio'' then pc_disable_audio c
      else if n = ''disable-clipboard'' then pc_disable_clipboard c
      else lc_get_option n L \<noteq> [])"

text \<open>\<open>bitrate << 8 | quantizer\<close> on 32 bits.\<close>

definition pack_quality :: "int \<Rightarrow> int \<Rightarrow> int" where
  "pack_quality bitrate quantizer = wrap_i32 (push_bit 8 bitrate) OR quantizer"

text \<open>The choice of the quality, and each switch that is on, counts as something to tell.\<close>

definition quality_option :: "'e config_env_scheme \<Rightarrow> bool \<Rightarrow> login_handler \<Rightarrow> option_message option \<times> login_handler" where
  "quality_option E ignore_default L =
     (let q = pc_image_quality (lc_config L) in
      case get_image_quality_enum q ignore_default of
        Some e \<Rightarrow> (Some (default_option\<lparr>image_quality := Known e\<rparr>), L)
      | None \<Rightarrow>
          if q = ''custom'' then
            (case load_config E L of (c, L) \<Rightarrow>
               (case pc_custom_image_quality c of
                  b # z # _ \<Rightarrow> (Some (default_option\<lparr>custom_image_quality := pack_quality b z\<rparr>), L)
                | _ \<Rightarrow> (None, L)))
          else (None, L))"

definition add_switch :: "string \<Rightarrow> (option_message \<Rightarrow> option_message) \<Rightarrow> login_handler \<Rightarrow> option_message option \<Rightarrow> option_message option" where
  "add_switch n f L m =
     (if get_toggle_option n L then Some (f (case m of Some o1 \<Rightarrow> o1 | None \<Rightarrow> default_option)) else m)"

definition get_option_message :: "'e config_env_scheme \<Rightarrow> bool \<Rightarrow> login_handler \<Rightarrow> option_message option \<times> login_handler" where
  "get_option_message E ignore_default L =
     (if lc_is_port_forward L \<or> lc_is_file_transfer L then (None, L)
      else case quality_option E ignore_default L of (m, L) \<Rightarrow>
        let m = add_switch ''show-remote-cursor'' (\<lambda>o1. o1\<lparr>o_show_remote_cursor := yes_no True\<rparr>) L m;
            m = add_switch ''lock-after-session-end'' (\<lambda>o1. o1\<lparr>o_lock_after_session_end := yes_no True\<rparr>) L m;
            m = add_switch ''privacy-mode'' (\<lambda>o1. o1\<lparr>o_privacy_mode := yes_no True\<rparr>) L m;
            m = add_switch ''disable-audio'' (\<lambda>o1. o1\<lparr>o_disable_audio := yes_no True\<rparr>) L m;
            m = add_switch ''enable-file-transfer'' (\<lambda>o1. o1\<lparr>o_enable_file_transfer := yes_no True\<rparr>) L m;
            m = add_switch ''disable-clipboard'' (\<lambda>o1. o1\<lparr>o_disable_clipboard := yes_no True\<rparr>) L m
        in (m, L))"

definition refresh :: message where
  "refresh = Misc (RefreshVideo True)"

definition save_custom_image_quality ::
  "'e config_env_scheme \<Rightarrow> int \<Rightarrow> int \<Rightarrow> login_handler \<Rightarrow> message \<times> login_handler" where
  "save_custom_image_quality E b z L =
     (case load_config E L of (c, L) \<Rightarrow>
       (Misc (MOption (default_option\<lparr>custom_image_quality := pack_quality b z\<rparr>)),
        save_config E (c\<lparr>pc_image_quality := ''custom'', pc_custom_image_quality := [b, z]\<rparr>) L))"

definition save_image_quality :: "'e config_env_scheme \<Rightarrow> string \<Rightarrow> login_handler \<Rightarrow> message option \<times> login_handler" where
  "save_image_quality E v L =
     (case load_config E L of (c, L) \<Rightarrow>
       (map_option (\<lambda>q. Misc (MOption (default_option\<lparr>image_quality := Known q\<rparr>))) (get_image_quality_enum v False),
        save_config E (c\<lparr>pc_image_quality := v\<rparr>) L))"

subsection \<open>Logging in\<close>

definition lc_handle_login_error :: "string \<Rightarrow> login_handler \<Rightarrow> (bool \<times> ui_effect) \<times> login_handler" where
  "lc_handle_login_error err L =
     (if err = ''Wrong Password''
      then ((True, MsgBox ''re-input-password'' err ''Do you want to enter again?''), L\<lparr>lc_password := []\<rparr>)
      else ((False, MsgBox ''error'' ''Login Error'' err), L))"

definition get_username :: "peer_info_msg \<Rightarrow> login_handler \<Rightarrow> string" where
  "get_username p L = (if pi_username p = [] then i_username (pc_info (lc_config L)) else pi_username p)"

definition handle_peer_info :: "'e config_env_scheme \<Rightarrow> string \<Rightarrow> peer_info_msg \<Rightarrow> login_handler \<Rightarrow> login_handler" where
  "handle_peer_info E u p L =
     (let L = (if pi_version p \<noteq> [] then L\<lparr>lc_version := get_version_number (pi_version p)\<rparr> else L) in
      case load_config E L of (c, L) \<Rightarrow>
        let c = c\<lparr>pc_info := \<lparr>i_username = u, i_hostname = pi_hostname p, i_platform = pi_platform p, i_uid = pi_uid p\<rparr>\<rparr>;
            pw = lc_password L; pw0 = pc_password c;
            c = (if lc_remember L then (if pw \<noteq> [] \<and> pw \<noteq> pw0 then c\<lparr>pc_password := pw\<rparr> else c)
                 else (if pw0 \<noteq> [] then c\<lparr>pc_password := []\<rparr> else c))
        in save_config E c L)"

definition get_remote_dir :: "'e client_env_scheme \<Rightarrow> login_handler \<Rightarrow> string" where
  "get_remote_dir E L =
     (case parse_dirs E (lc_get_option ''remote_dir'' L) (i_username (pc_info (lc_config L))) of
        Some d \<Rightarrow> d | None \<Rightarrow> [])"

definition get_all_remote_dir :: "'e client_env_scheme \<Rightarrow> string \<Rightarrow> login_handler \<Rightarrow> string" where
  "get_all_remote_dir E p L =
     (let x = parse_dirs E (lc_get_option ''remote_dir'' L); u = i_username (pc_info (lc_config L)) in
      print_dirs E (if p = [] then x(u := None) else x(u \<mapsto> p)))"

definition create_login_msg :: "'e client_env_scheme \<Rightarrow> bytes \<Rightarrow> login_handler \<Rightarrow> message \<times> login_handler" where
  "create_login_msg E pw L =
     (case Config.get_id E L of (i, L) \<Rightarrow>
      case get_option_message E True L of (o1, L) \<Rightarrow>
        (LoginRequest \<lparr>username = lc_id L, lr_password = pw, my_id = i, my_name = my_username E, lr_option = o1,
           lr_union = (if lc_is_file_transfer L
             then FileTransfer (get_remote_dir E L) (lc_get_option ''remote_show_hidden'' L \<noteq> [])
             else if lc_is_port_forward L then PortForward (fst (lc_port_forward L)) (snd (lc_port_forward L))
             else NoLoginUnion),
           lr_video_ack_required = False, my_uid = get_uid L\<rparr>, L))"

definition client_test_delay :: "int \<Rightarrow> bool \<Rightarrow> ui_effect list" where
  "client_test_delay t from_client = (if \<not> from_client then [SendToPeer (TestDelay t from_client)] else [])"

definition handle_hash :: "'e client_env_scheme \<Rightarrow> string \<Rightarrow> string \<Rightarrow> login_handler \<Rightarrow> ui_effect list \<times> login_handler" where
  "handle_hash E slt ch L =
     (let pw = (if lc_password L = [] then pc_password (lc_config L) else lc_password L) in
      if pw = [] then
        (case create_login_msg E [] L of (m, L) \<Rightarrow>
           ([SendToPeer m, MsgBox ''input-password'' ''Password Required'' []], L\<lparr>lc_salt := slt, lc_challenge := ch\<rparr>))
      else
        (case create_login_msg E (digest E (pw @ text_bytes ch)) L of (m, L) \<Rightarrow>
           ([SendToPeer m], L\<lparr>lc_salt := slt, lc_challenge := ch\<rparr>)))"

definition handle_login_from_ui ::
  "'e client_env_scheme \<Rightarrow> string \<Rightarrow> bool \<Rightarrow> login_handler \<Rightarrow> ui_effect list \<times> login_handler" where
  "handle_login_from_ui E pw remember L =
     (let res = digest E (text_bytes pw @ text_bytes (lc_salt L));
          L = L\<lparr>lc_remember := remember, lc_password := res\<rparr>
      in case create_login_msg E (digest E (res @ text_bytes (lc_challenge L))) L of (m, L) \<Rightarrow> ([SendToPeer m], L))"

definition to_lower :: "string \<Rightarrow> string" where
  "to_lower s = map (\<lambda>c. let n = of_char c :: nat in if 65 \<le> n \<and> n \<le> 90 then char_of (n + 32) else c) s"

definition check_if_retry :: "string \<Rightarrow> string \<Rightarrow> string \<Rightarrow> bool" where
  "check_if_retry msgtype title t \<longleftrightarrow>
     msgtype = ''error'' \<and> title = ''Connection Error'' \<and>
     list_all (\<lambda>w. \<not> contains w (to_lower t))
       [''offline'', ''exist'', ''handshake'', ''failed'', ''resolve'', ''mismatch'', ''manually'', ''not allowed'']"

subsection \<open>Lemmas\<close>

lemma load_stored:
  "map_of (peer_files S) (peer_path i) = Some f \<Longrightarrow> pf_content f = Some c \<Longrightarrow> load_peer E i S = (c, S)"
  by (simp add: load_peer_def)

lemma stored_file:
  "disk_ok E \<Longrightarrow> i \<noteq> ''..'' \<Longrightarrow>
     map_of (peer_files (store_peer E i c S)) (peer_path i) = Some \<lparr>pf_time = clock E, pf_content = Some c\<rparr>"
  by (simp add: store_peer_def update_conv)

text \<open>The part of the state that only the handler's own operations change.\<close>

definition handler :: "login_handler \<Rightarrow> (string \<times> bool \<times> bool) \<times> (string \<times> string) \<times> bytes \<times> bool" where
  "handler L = ((lc_id L, lc_is_file_transfer L, lc_is_port_forward L), (lc_salt L, lc_challenge L), lc_password L, lc_remember L)"

lemma handler_eqD:
  assumes "handler L' = handler L"
  shows "lc_id L' = lc_id L" "lc_is_file_transfer L' = lc_is_file_transfer L" "lc_is_port_forward L' = lc_is_port_forward L"
    "lc_salt L' = lc_salt L" "lc_challenge L' = lc_challenge L" "lc_password L' = lc_password L" "lc_remember L' = lc_remember L"
  using assms by (simp_all add: handler_def)

lemma handler_load: "load_peer E i L = (c, L') \<Longrightarrow> handler L' = handler L"
  by (auto simp: load_peer_def handler_def split: option.splits if_splits)

lemma handler_store [simp]: "handler (store_peer E i c L) = handler L" "handler (save_config E c L) = handler L"
  by (simp_all add: store_peer_def save_config_def handler_def)

lemma handler_get_id: "Config.get_id E L = (i, L') \<Longrightarrow> handler L' = handler L"
  by (auto simp: Config.get_id_def set_id_def store_config_def handler_def Let_def split: if_splits option.splits)

lemma handler_get_option_message:
  assumes "get_option_message E b L = (m, L')"
  shows "handler L' = handler L"
proof -
  obtain m1 L1 where q: "quality_option E b L = (m1, L1)" by force
  then have "L' = L \<or> L' = L1" using assms by (auto simp: get_option_message_def Let_def split: if_splits)
  moreover have "L1 = L \<or> (\<exists>c. load_peer E (lc_id L) L = (c, L1))"
    using q by (auto simp: quality_option_def load_config_def Let_def split: option.splits if_splits prod.splits list.splits)
  ultimately show ?thesis using handler_load by blast
qed

lemma create_login_msg_cases:
  assumes "create_login_msg E pw L = (m, L')"
  shows "handler L' = handler L \<and> (\<exists>lr. m = LoginRequest lr \<and> username lr = lc_id L \<and> lr_password lr = pw \<and>
    (\<not> lc_is_file_transfer L \<and> \<not> lc_is_port_forward L \<longrightarrow> lr_union lr = NoLoginUnion))"
proof -
  obtain i L1 where i: "Config.get_id E L = (i, L1)" by force
  obtain o1 L2 where o: "get_option_message E True L1 = (o1, L2)" by force
  have "handler L2 = handler L" using handler_get_id [OF i] handler_get_option_message [OF o] by simp
  note k = handler_eqD [OF this]
  let ?u = "if lc_is_file_transfer L2 then FileTransfer (get_remote_dir E L2) (lc_get_option ''remote_show_hidden'' L2 \<noteq> [])
    else if lc_is_port_forward L2 then PortForward (fst (lc_port_forward L2)) (snd (lc_port_forward L2)) else NoLoginUnion"
  let ?lr = "\<lparr>username = lc_id L2, lr_password = pw, my_id = i, my_name = my_username E, lr_option = o1, lr_union = ?u,
    lr_video_ack_required = False, my_uid = get_uid L2\<rparr>"
  have "create_login_msg E pw L = (LoginRequest ?lr, L2)" by (simp only: create_login_msg_def i o prod.case)
  then have "m = LoginRequest ?lr" "L' = L2" using assms by (metis fst_conv, metis snd_conv)
  moreover have "username ?lr = lc_id L \<and> lr_password ?lr = pw \<and>
      (\<not> lc_is_file_transfer L \<and> \<not> lc_is_port_forward L \<longrightarrow> lr_union ?lr = NoLoginUnion)" by (simp add: k)
  ultimately show ?thesis using \<open>handler L2 = handler L\<close> by blast
qed

lemma handle_hash_handler:
  assumes "handle_hash E slt ch L = (es, L')"
  shows "handler L' = handler (L\<lparr>lc_salt := slt, lc_challenge := ch\<rparr>)"
proof -
  obtain pw m L1 where c: "create_login_msg E pw L = (m, L1)" "L' = L1\<lparr>lc_salt := slt, lc_challenge := ch\<rparr>"
    using assms by (auto simp: handle_hash_def Let_def split: prod.splits if_splits)
  then show ?thesis using create_login_msg_cases [OF c(1)] by (simp add: handler_def)
qed

text \<open>The other direction of \<open>check_password_authorizes\<close>.\<close>

lemma check_password_completes:
  assumes "right_password E lr S" "\<not> locked_out E S" "port_forward_socket S = None"
  shows "authorized (snd (check_password E lr S))"
proof -
  obtain pw S0 where g: "get_password E S = (pw, S0)" by force
  have same: "hash_salt S0 = hash_salt S" "hash_challenge S0 = hash_challenge S" "failure_of S0 = failure_of S"
      "port_forward_socket S0 = None"
    using g assms(3) by (auto simp: get_password_def get_auto_password_def set_password_def store_config_def failure_of_def
      Let_def split: if_splits)
  obtain m n tot where f: "failure_of S0 = (m, n, tot)" using prod_cases3 by blast
  have logon: "authorized (send_logon_response E X)" if "port_forward_socket X = None" for X
    using that by (simp add: send_logon_response_def authorized_after_response)
  have "password_digest E pw (hash_salt S0) (hash_challenge S0) = lr_password lr" "\<not> tot > 30" "\<not> (login_minute E = m \<and> n > 6)"
    using assms(1,2) g f same by (auto simp: right_password_def locked_out_def)
  then show ?thesis
    using g f same
    by (cases "login_minute E = m") (simp_all add: check_password_def Let_def authorized_logged logon)
qed


text \<open>What decides about a login besides the credentials.\<close>

definition gate :: "session \<Rightarrow> config \<times> string option" where
  "gate S = (config S, port_forward_socket S)"

lemma gate_does [simp]: "gate (does e S) = gate S" "gate (set_subscription n b S) = gate S" "gate (send_to_cm d S) = gate S"
  by (simp_all add: gate_def does_def set_subscription_def send_to_cm_def)

lemma gate_update_option [simp]: "gate (update_option o1 S) = gate S"
proof -
  have w: "gate (when_set q f S) = gate S" if "\<And>b. gate (f b S) = gate S" for q f S
    using that by (simp add: when_set_def split: option.split)
  have s: "gate (on_lock_option b S) = gate S" "gate (on_cursor_option b S) = gate S" "gate (on_audio_option b S) = gate S"
      "gate (on_file_option b S) = gate S" "gate (on_clipboard_option b S) = gate S" "gate (on_privacy_option b S) = gate S"
      "gate (on_block_option b S) = gate S" for b S
    by (simp_all add: on_lock_option_def on_cursor_option_def on_audio_option_def on_file_option_def
      on_clipboard_option_def on_privacy_option_def on_block_option_def Let_def) (simp_all add: gate_def)
  have "gate (on_image_quality q S) = gate S" "gate (on_custom_quality n S) = gate S" for q n S
    by (simp_all add: on_image_quality_def on_custom_quality_def split: proto_enum.split) (simp_all add: gate_def)
  then show ?thesis by (simp add: update_option_def Let_def w s)
qed

lemma gate_login_options [simp]: "gate (login_options lr S) = gate S"
  by (cases "lr_option lr") (simp_all add: login_options_def gate_def [of "_\<lparr>video_ack_required := _\<rparr>"], simp_all flip: gate_def)

lemma gate_eqD: "gate S' = gate S \<Longrightarrow> config S' = config S \<and> port_forward_socket S' = port_forward_socket S"
  by (simp add: gate_def)

lemma credentials_got_id: "credentials (snd (Config.get_id E S)) = credentials S"
  by (metis credentials_get_id prod.collapse)

text \<open>A request with the right password logs a desktop session in.\<close>

lemma desktop_login_completes:
  assumes "lr_union lr = NoLoginUnion" "is_ip (username lr) \<or> username lr = c_id (config S)" "c_id (config S) \<noteq> []"
    and "lr_password lr \<noteq> []" "right_password E lr S" "\<not> locked_out E S" "port_forward_socket S = None"
  shows "authorized (snd (on_login E lr S))"
proof -
  let ?S = "login_options lr S"
  have g: "config ?S = config S" "port_forward_socket ?S = None" using gate_eqD [OF gate_login_options] assms(7) by simp_all
  have "authorized (snd (check_password E lr ?S))"
    by (rule check_password_completes)
      (use assms(5,6) g(2) credentials_eq [OF credentials_login_options] in blast)+
  moreover have "Config.get_id E ?S = (c_id (config S), ?S)" using assms(3) g(1) by (simp add: Config.get_id_def Let_def)
  ultimately have "authorized (snd (check_login E lr ?S))"
    using assms(2,4) by (auto simp: check_login_def)
  then show ?thesis using assms(1) by (auto simp: on_login_eq [OF refl])
qed

text \<open>What accepting the peer writes when the password is to be remembered.\<close>

lemma info_stored:
  assumes "L2 = handle_peer_info E u p L1" "lc_remember L1" "lc_password L1 = pw" "disk_ok E" "pw \<noteq> []" "lc_id L1 \<noteq> ''..''"
  shows "\<exists>c. pc_password c = pw \<and>
    map_of (peer_files L2) (peer_path (lc_id L1)) = Some \<lparr>pf_time = clock E, pf_content = Some c\<rparr>"
proof -
  let ?L = "if pi_version p \<noteq> [] then L1\<lparr>lc_version := get_version_number (pi_version p)\<rparr> else L1"
  obtain c L3 where l: "load_peer E (lc_id ?L) ?L = (c, L3)" by force
  have k: "lc_id ?L = lc_id L1" "lc_remember ?L" "lc_password ?L = pw" using assms by simp_all
  obtain c1 where "L2 = save_config E c1 L3" "pc_password c1 = pw"
    using assms(1,5) l k handler_eqD [OF handler_load [OF l]]
    by (auto simp: handle_peer_info_def load_config_def Let_def)
  then show ?thesis
    using stored_file [OF assms(4,6)] handler_eqD(1) [OF handler_load [OF l]] k
    by (auto simp: save_config_def)
qed

subsection \<open>Properties\<close>



definition sample_client :: client_env where
  "sample_client = \<lparr>disk_ok = True, mac_address = None, gen_keypair = ([1], [2]), clock = 7, my_username = ''u'',
     digest = Cons 1, parse_dirs = (\<lambda>_. Map.empty), print_dirs = (\<lambda>_. [])\<rparr>"

definition sample_login :: login_handler where
  "sample_login = settings.extend default_settings \<lparr>lc_id = ''me'', lc_is_file_transfer = False,
     lc_is_port_forward = False, lc_salt = [], lc_challenge = [], lc_password = [], lc_remember = False,
     lc_config = default_peer_config, lc_port_forward = ([], 0), lc_version = 0\<rparr>"

lemma sample_login_simps [simp]:
  "lc_id sample_login = ''me''" "\<not> lc_is_file_transfer sample_login" "\<not> lc_is_port_forward sample_login"
  "lc_password sample_login = []" "lc_config sample_login = default_peer_config"
  by (simp_all add: sample_login_def settings.defs)

abbreviation sha_env :: conn_env where
  "sha_env \<equiv> sample_conn_env\<lparr>sha256 := Cons 1\<rparr>"

lemma sample_not_locked: "\<not> locked_out sha_env sample_session"
  by (simp add: locked_out_def failure_of_def)


text \<open>
  C10: A password that was remembered logs in later by itself: when the session was set up with it and
  the settings of the peer were written, a new handler of the peer answers the next challenge with the
  right digest, as long as password and salt there have not changed.
\<close>

theorem remembered_password_logs_in:
  assumes input: "handle_login_from_ui E (fst (get_password Es S)) True L = (es, L1)"
    and info: "L2 = handle_peer_info E u p L1"
    and again: "handle_hash E (lc_salt L) (hash_challenge S) (initialize E (lc_id L) False False (L2\<lparr>lc_password := []\<rparr>)) = (es3, L3)"
    and dig: "digest E = sha256 Es" "\<forall>x. sha256 Es x \<noteq> []" and "hash_salt S = lc_salt L"
    and disk: "disk_ok E" "lc_id L \<noteq> ''..''"
  shows "\<exists>lr. es3 = [SendToPeer (LoginRequest lr)] \<and> username lr = lc_id L \<and> right_password Es lr S"
proof -
  let ?pw = "fst (get_password Es S)"
  let ?res = "digest E (text_bytes ?pw @ text_bytes (lc_salt L))"
  have res: "?res \<noteq> []" using dig by simp
  let ?L = "L\<lparr>lc_remember := True, lc_password := ?res\<rparr>"
  obtain m1 where c: "create_login_msg E (digest E (?res @ text_bytes (lc_challenge L))) ?L = (m1, L1)"
    using input by (auto simp: handle_login_from_ui_def Let_def split: prod.splits)
  then have k: "lc_id L1 = lc_id L" "lc_password L1 = ?res" "lc_remember L1"
    using create_login_msg_cases [OF c] by (simp_all add: handler_def)
  obtain c0 where "pc_password c0 = ?res" "map_of (peer_files L2) (peer_path (lc_id L)) = Some \<lparr>pf_time = clock E, pf_content = Some c0\<rparr>"
    using info_stored [OF info k(3) _ disk(1), of ?res] k res disk(2) by auto
  then have "load_peer E (lc_id L) (L2\<lparr>lc_password := [], lc_id := lc_id L, lc_is_file_transfer := False, lc_is_port_forward := False\<rparr>)
      = (c0, L2\<lparr>lc_password := [], lc_id := lc_id L, lc_is_file_transfer := False, lc_is_port_forward := False\<rparr>)"
    by (simp add: load_peer_def)
  then obtain L4 where i: "initialize E (lc_id L) False False (L2\<lparr>lc_password := []\<rparr>) = L4" "lc_id L4 = lc_id L"
      "lc_password L4 = []" "pc_password (lc_config L4) = ?res"
    using \<open>pc_password c0 = ?res\<close> by (simp add: initialize_def Let_def)
  obtain m2 L5 where m2: "create_login_msg E (digest E (?res @ text_bytes (hash_challenge S))) L4 = (m2, L5)" by force
  then have "es3 = [SendToPeer m2]" using again i res by (simp add: handle_hash_def Let_def)
  with create_login_msg_cases [OF m2] i(2) show ?thesis
    using dig(1) assms(6) by (auto simp: right_password_def password_digest_def)
qed

theorem remembered_password_logs_in_witness:
  "\<exists>lr. fst (handle_hash sample_client [] (hash_challenge (sample_session\<lparr>hash_salt := []\<rparr>))
       (initialize sample_client ''me'' False False
         ((handle_peer_info sample_client ''u'' (peer_info_of sample_conn_env ''u'' [] False)
            (snd (handle_login_from_ui sample_client (fst (get_password sha_env (sample_session\<lparr>hash_salt := []\<rparr>))) True sample_login)))
          \<lparr>lc_password := []\<rparr>))) = [SendToPeer (LoginRequest lr)]"
proof -
  let ?S = "sample_session\<lparr>hash_salt := []\<rparr>"
  obtain es L1 where i: "handle_login_from_ui sample_client (fst (get_password sha_env ?S)) True sample_login = (es, L1)" by force
  have s: "lc_salt sample_login = []" by (simp add: sample_login_def settings.defs)
  let ?L2 = "handle_peer_info sample_client ''u'' (peer_info_of sample_conn_env ''u'' [] False) L1"
  obtain es3 L3 where h: "handle_hash sample_client (lc_salt sample_login) (hash_challenge ?S)
      (initialize sample_client (lc_id sample_login) False False (?L2\<lparr>lc_password := []\<rparr>)) = (es3, L3)" by force
  have "\<exists>lr. es3 = [SendToPeer (LoginRequest lr)] \<and> username lr = lc_id sample_login \<and> right_password sha_env lr ?S"
    by (rule remembered_password_logs_in [OF i refl h]) (simp_all add: s sample_client_def)
  then show ?thesis using h i s by auto
qed

definition SWITCHES :: "string list" where
  "SWITCHES = [''show-remote-cursor'', ''lock-after-session-end'', ''privacy-mode'', ''enable-file-transfer'',
     ''disable-audio'', ''disable-clipboard'']"

definition remote_switch :: "string \<Rightarrow> session \<Rightarrow> bool" where
  "remote_switch n S =
     (if n = ''show-remote-cursor'' then show_remote_cursor S
      else if n = ''lock-after-session-end'' then lock_after_session_end S
      else if n = ''privacy-mode'' then privacy_mode S
      else if n = ''enable-file-transfer'' then enable_file_transfer S
      else if n = ''disable-audio'' then disable_audio S
      else disable_clipboard S)"

lemmas option_defs = update_option_def when_set_def on_image_quality_def on_custom_quality_def on_lock_option_def
  on_cursor_option_def on_audio_option_def on_file_option_def on_clipboard_option_def on_privacy_option_def
  on_block_option_def set_subscription_def does_def send_to_cm_def

lemma save_config_config [simp]: "lc_config (save_config E c L) = c"
  by (simp add: save_config_def)

lemma on_option_message:
  assumes "authorized S"
  shows "on_message E (Misc (MOption o1)) S = (Done True, update_option o1 (touch E S))"
  using assms by (simp add: on_message_def)

lemma switched:
  "show_remote_cursor (update_option (default_option\<lparr>o_show_remote_cursor := yes_no b\<rparr>) S) = b"
  "lock_after_session_end (update_option (default_option\<lparr>o_lock_after_session_end := yes_no b\<rparr>) S) = b"
  "keyboard S \<Longrightarrow> privacy_mode (update_option (default_option\<lparr>o_privacy_mode := yes_no b\<rparr>) S) = b"
  "enable_file_transfer (update_option (default_option\<lparr>o_enable_file_transfer := yes_no b\<rparr>) S) = b"
  "disable_audio (update_option (default_option\<lparr>o_disable_audio := yes_no b\<rparr>) S) = b"
  "disable_clipboard (update_option (default_option\<lparr>o_disable_clipboard := yes_no b\<rparr>) S) = b"
  by (simp_all add: option_defs default_option_def yes_no_def Let_def)

lemma toggled:
  assumes "load_config E L = (c, L0)" "toggle_option E n L = (Some m, L')"
  shows "n = ''show-remote-cursor'' \<Longrightarrow> m = Misc (MOption (default_option\<lparr>o_show_remote_cursor := yes_no (\<not> pc_show_remote_cursor c)\<rparr>))
      \<and> lc_config L' = c\<lparr>pc_show_remote_cursor := \<not> pc_show_remote_cursor c\<rparr>"
    "n = ''lock-after-session-end'' \<Longrightarrow> m = Misc (MOption (default_option\<lparr>o_lock_after_session_end := yes_no (\<not> pc_lock_after_session_end c)\<rparr>))
      \<and> lc_config L' = c\<lparr>pc_lock_after_session_end := \<not> pc_lock_after_session_end c\<rparr>"
    "n = ''privacy-mode'' \<Longrightarrow> m = Misc (MOption (default_option\<lparr>o_privacy_mode := yes_no (\<not> pc_privacy_mode c)\<rparr>))
      \<and> lc_config L' = c\<lparr>pc_privacy_mode := \<not> pc_privacy_mode c\<rparr>"
    "n = ''enable-file-transfer'' \<Longrightarrow> m = Misc (MOption (default_option\<lparr>o_enable_file_transfer := yes_no (\<not> pc_enable_file_transfer c)\<rparr>))
      \<and> lc_config L' = c\<lparr>pc_enable_file_transfer := \<not> pc_enable_file_transfer c\<rparr>"
    "n = ''disable-audio'' \<Longrightarrow> m = Misc (MOption (default_option\<lparr>o_disable_audio := yes_no (\<not> pc_disable_audio c)\<rparr>))
      \<and> lc_config L' = c\<lparr>pc_disable_audio := \<not> pc_disable_audio c\<rparr>"
    "n = ''disable-clipboard'' \<Longrightarrow> m = Misc (MOption (default_option\<lparr>o_disable_clipboard := yes_no (\<not> pc_disable_clipboard c)\<rparr>))
      \<and> lc_config L' = c\<lparr>pc_disable_clipboard := \<not> pc_disable_clipboard c\<rparr>"
  using assms(2) by (auto simp: toggle_option_def assms(1) Let_def)



text \<open>Handlers that leave the quality alone and only add to what was done.\<close>

definition quality_kept :: "session \<Rightarrow> session \<Rightarrow> bool" where
  "quality_kept S S' \<longleftrightarrow> quality S' = quality S \<and> (\<exists>es. out S' = out S @ es)"

lemma quality_kept_trans: "quality_kept S1 S2 \<Longrightarrow> quality_kept S2 S3 \<Longrightarrow> quality_kept S1 S3"
  by (auto simp: quality_kept_def)

lemma quality_kept_when_set: "(\<And>b S. quality_kept S (f b S)) \<Longrightarrow> quality_kept S (when_set q f S)"
  by (auto simp: when_set_def quality_kept_def split: option.split)

lemma quality_kept_options:
  "quality_kept S (on_lock_option b S)" "quality_kept S (on_cursor_option b S)" "quality_kept S (on_audio_option b S)"
  "quality_kept S (on_file_option b S)" "quality_kept S (on_clipboard_option b S)" "quality_kept S (on_privacy_option b S)"
  "quality_kept S (on_block_option b S)"
  by (simp_all add: quality_kept_def option_defs Let_def)

lemma quality_kept_update:
  assumes "S1 = on_custom_quality (custom_image_quality o1) (on_image_quality (image_quality o1) S)"
  shows "quality_kept S1 (update_option o1 S)"
  unfolding update_option_def Let_def assms [symmetric]
  by (intro quality_kept_trans [OF quality_kept_when_set quality_kept_when_set] quality_kept_trans [OF _ quality_kept_when_set]
      quality_kept_options quality_kept_when_set)

lemma toggle_message:
  assumes "n \<in> set SWITCHES" "toggle_option E n L = (Some m, L')"
  shows "\<exists>o1. m = Misc (MOption o1) \<and> image_quality o1 = Known QualityNotSet \<and> custom_image_quality o1 = 0"
proof -
  obtain c L0 where l: "load_config E L = (c, L0)" by force
  have "n = ''show-remote-cursor'' \<or> n = ''lock-after-session-end'' \<or> n = ''privacy-mode'' \<or>
      n = ''enable-file-transfer'' \<or> n = ''disable-audio'' \<or> n = ''disable-clipboard''"
    using assms(1) by (simp add: SWITCHES_def)
  then show ?thesis
    by (elim disjE) (use toggled [OF l assms(2)] in \<open>simp add: default_option_def\<close>)+
qed

text \<open>
  Every message that changes one option also says that the quality of the picture is not set, which
  the controlled side takes for a quality of zero.
\<close>

theorem toggle_resets_quality:
  assumes "n \<in> set SWITCHES" "toggle_option E n L = (Some m, L')" "authorized S"
  shows "quality (snd (on_message Es m S)) = 0 \<and>
    VideoQuality (conn_id S) (Some 0) \<in> set (out (snd (on_message Es m S)))"
proof -
  obtain o1 where o: "m = Misc (MOption o1)" "image_quality o1 = Known QualityNotSet" "custom_image_quality o1 = 0"
    using toggle_message [OF assms(1,2)] by blast
  let ?S = "does (VideoQuality (conn_id S) (Some 0)) ((touch Es S)\<lparr>quality := 0\<rparr>)"
  have "?S = on_custom_quality (custom_image_quality o1) (on_image_quality (image_quality o1) (touch Es S))"
    using o by (simp add: on_custom_quality_def on_image_quality_def touch_def)
  from quality_kept_update [OF this] show ?thesis
    using o(1) by (auto simp: quality_kept_def does_def on_option_message [OF assms(3)])
qed

theorem toggle_resets_quality_witness:
  "quality (snd (on_message sample_conn_env
     (the (fst (toggle_option sample_client ''disable-audio'' sample_login))) (sample_session\<lparr>authorized := True\<rparr>))) = 0"
proof -
  obtain m L' where t: "toggle_option sample_client ''disable-audio'' sample_login = (Some m, L')"
    by (cases "toggle_option sample_client ''disable-audio'' sample_login")
      (auto simp: toggle_option_def Let_def split: prod.splits)
  have "''disable-audio'' \<in> set SWITCHES" by (simp add: SWITCHES_def)
  from toggle_resets_quality [OF this t, of "sample_session\<lparr>authorized := True\<rparr>" sample_conn_env] show ?thesis
    by (simp add: t)
qed

end
