(* ===== verification/Client_Connect.thy ===== *)
theory Client_Connect
  imports Client
begin

text \<open>
  How the controlling side finds its peer, \<open>Client\<close> of \<open>src/client.rs\<close>: by address, by a hole that the
  rendezvous server punches, or through a relay. The environment answers what the network does: the
  result of each connection attempt (an error text or a stream) and what comes back from the
  rendezvous server for the \<open>i\<close>th request. \<open>asked\<close> collects the requests.
\<close>

datatype server_answer = Silent | Garbled | Answer rendezvous_message

record net_env = config_env +
  cr :: crypto
  public_key :: string
  hs_keys :: "(bytes \<times> bytes) \<times> bytes"
  hs_took :: "u64 option"
  hs_reply :: reply
  error_text :: "handshake_error \<Rightarrow> string"
  my_nat :: int
  my_nat_again :: int
  machine_uid :: "string option"
  pk_as_text :: "string option"
  dial_address :: "string \<Rightarrow> string + framed_stream"
  dial_rendezvous :: "nat \<Rightarrow> string + framed_stream"
  dial_peer :: "socket_addr \<Rightarrow> u64 \<Rightarrow> string + framed_stream"
  dial_relay :: "string \<Rightarrow> string + framed_stream"
  request_sent :: "rendezvous_message \<Rightarrow> string + unit"
  punch_answer :: "nat \<Rightarrow> server_answer"
  relay_answer :: "nat \<Rightarrow> server_answer"
  punch_time :: u64
  new_uuid :: "nat \<Rightarrow> string"

record connecting = settings +
  asked :: "rendezvous_message list"

definition RELAY_PORT :: nat where "RELAY_PORT = 21117"

definition MIN_TIMEOUT :: u64 where "MIN_TIMEOUT = 1000"

definition check_port :: "string \<Rightarrow> nat \<Rightarrow> string" where
  "check_port host p = (if \<not> contains '':'' host then host @ '':'' @ show_nat p else host)"

definition request :: "'e net_env_scheme \<Rightarrow> rendezvous_message \<Rightarrow> connecting \<Rightarrow> (string + unit) \<times> connecting" where
  "request E m S = (request_sent E m, S\<lparr>asked := asked S @ [m]\<rparr>)"

subsection \<open>What the rendezvous server answers\<close>

text \<open>Accessors of the \<open>oneof\<close> of the response: the default where another member is set.\<close>

fun response_nat :: "punch_union \<Rightarrow> nat_type" where
  "response_nat (NatType (Known t)) = t"
| "response_nat _ = UNKNOWN_NAT"

fun response_local :: "punch_union \<Rightarrow> bool" where
  "response_local (IsLocal b) = b"
| "response_local _ = False"

fun relay_pk :: "relay_union \<Rightarrow> bytes" where
  "relay_pk (RelayPk k) = k"
| "relay_pk _ = []"

definition failure_text :: "punch_hole_response \<Rightarrow> string" where
  "failure_text ph =
     (if pr_other_failure ph \<noteq> [] then pr_other_failure ph
      else case pr_failure ph of
        Known OFFLINE \<Rightarrow> ''Remote desktop is offline''
      | Known LICENSE_MISMATCH \<Rightarrow> ''Key mismatch''
      | Known LICENSE_OVERUSE \<Rightarrow> ''Key overuse''
      | _ \<Rightarrow> ''ID does not exist'')"

datatype punched = Hole punch_hole_response socket_addr | Relayed relay_response | NoHole

fun punch_attempts ::
  "'e net_env_scheme \<Rightarrow> rendezvous_message \<Rightarrow> nat list \<Rightarrow> connecting \<Rightarrow> punched outcome \<times> connecting" where
  "punch_attempts E m [] S = (Done NoHole, S)"
| "punch_attempts E m (i # is) S =
     (case request E m S of
        (Inl e, S) \<Rightarrow> (Failed e, S)
      | (Inr _, S) \<Rightarrow>
          (case punch_answer E i of
             Answer (PunchHoleResponse ph) \<Rightarrow>
               if pr_socket_addr ph = [] then (Failed (failure_text ph), S)
               else (case mangle_decode (pr_socket_addr ph) of
                  Some a \<Rightarrow> (Done (Hole ph a), S)
                | None \<Rightarrow> (Panicked, S))
           | Answer (RelayResponse rr) \<Rightarrow> (Done (Relayed rr), S)
           | _ \<Rightarrow> punch_attempts E m is S))"

subsection \<open>Relays\<close>

definition client_relay_request :: "'e net_env_scheme \<Rightarrow> string \<Rightarrow> string \<Rightarrow> conn_type \<Rightarrow> rendezvous_message" where
  "client_relay_request E peer u ct =
     RequestRelay (default_request_relay\<lparr>rf_licence_key := public_key E, rf_id := peer, rf_uuid := u, rf_conn_type := Known ct\<rparr>)"

definition create_relay ::
  "'e net_env_scheme \<Rightarrow> string \<Rightarrow> string \<Rightarrow> string \<Rightarrow> conn_type \<Rightarrow> connecting \<Rightarrow> (string + framed_stream) \<times> connecting" where
  "create_relay E peer u relay_server ct S =
     (case dial_relay E (check_port relay_server RELAY_PORT) of
        Inl _ \<Rightarrow> (Inl ''Failed to connect to relay server'', S)
      | Inr F \<Rightarrow>
          (case request E (client_relay_request E peer u ct) S of
             (Inl e, S) \<Rightarrow> (Inl e, S)
           | (Inr _, S) \<Rightarrow> (Inr F, S)))"

text \<open>Three requests, each over a connection of its own and with a uuid of its own.\<close>

fun relay_attempts ::
  "'e net_env_scheme \<Rightarrow> string \<Rightarrow> string \<Rightarrow> bool \<Rightarrow> nat list \<Rightarrow> connecting \<Rightarrow> (string + string option) \<times> connecting" where
  "relay_attempts E peer relay_server secure [] S = (Inr None, S)"
| "relay_attempts E peer relay_server secure (i # is) S =
     (case dial_rendezvous E i of
        Inl _ \<Rightarrow> (Inl ''Failed to connect to rendezvous server'', S)
      | Inr _ \<Rightarrow>
          (case request E (RequestRelay (default_request_relay\<lparr>rf_id := peer, rf_uuid := new_uuid E i,
              rf_relay_server := relay_server, rf_secure := secure\<rparr>)) S of
             (Inl e, S) \<Rightarrow> (Inl e, S)
           | (Inr _, S) \<Rightarrow>
               (case relay_answer E i of
                  Answer (RelayResponse rs) \<Rightarrow>
                    (if rr_refuse_reason rs \<noteq> [] then Inl (rr_refuse_reason rs) else Inr (Some (new_uuid E i)), S)
                | _ \<Rightarrow> relay_attempts E peer relay_server secure is S)))"

definition request_relay ::
  "'e net_env_scheme \<Rightarrow> string \<Rightarrow> string \<Rightarrow> bool \<Rightarrow> conn_type \<Rightarrow> connecting \<Rightarrow> (string + framed_stream) \<times> connecting" where
  "request_relay E peer relay_server secure ct S =
     (case relay_attempts E peer relay_server secure [1, 2, 3] S of
        (Inl e, S) \<Rightarrow> (Inl e, S)
      | (Inr None, S) \<Rightarrow> (Inl ''Timeout'', S)
      | (Inr (Some u), S) \<Rightarrow> create_relay E peer u relay_server ct S)"

subsection \<open>Connecting\<close>

definition direct_timeout :: "bool \<Rightarrow> nat_type \<Rightarrow> string \<Rightarrow> int \<Rightarrow> int \<Rightarrow> int \<Rightarrow> u64 \<Rightarrow> u64" where
  "direct_timeout is_local peer_nat relay_server nat_mine nat_again failures punch =
     (if is_local \<or> peer_nat = SYMMETRIC then MIN_TIMEOUT
      else
        let t = (if relay_server = [] then CONNECT_TIMEOUT
          else
            let t = (if peer_nat = ASYMMETRIC then
                let mine = (if nat_mine = 0 then nat_again else nat_mine) in
                if mine = 1 then (if failures > 0 then punch * 6 else CONNECT_TIMEOUT)
                else if mine = 2 then MIN_TIMEOUT else 0
              else 0)
            in if t = 0 then punch * (if failures > 0 then 3 else 6) else t)
        in if t < MIN_TIMEOUT then MIN_TIMEOUT else t)"

text \<open>The peer's file remembers whether the last direct attempt failed.\<close>

definition note_direct :: "'e config_env_scheme \<Rightarrow> string \<Rightarrow> string \<Rightarrow> int \<Rightarrow> bool \<Rightarrow> 's settings_scheme \<Rightarrow> 's settings_scheme" where
  "note_direct E peer relay_server failures direct S =
     (if relay_server \<noteq> [] \<and> (failures = 0) \<noteq> direct then
        (case load_peer E peer S of (c, S) \<Rightarrow> store_peer E peer (c\<lparr>direct_failures := if direct then 0 else 1\<rparr>) S)
      else S)"

definition secured :: "'e net_env_scheme \<Rightarrow> string \<Rightarrow> bytes \<Rightarrow> framed_stream \<Rightarrow> string + framed_stream" where
  "secured E peer sid F =
     (case secure_connection (cr E) (public_key E) peer sid (hs_keys E) (hs_took E) (hs_reply E) F of
        (Inl e, F) \<Rightarrow> Inl (error_text E e)
      | (Inr _, F) \<Rightarrow> Inr F)"

definition connect_direct ::
  "'e net_env_scheme \<Rightarrow> socket_addr \<Rightarrow> string \<Rightarrow> punch_hole_response \<Rightarrow> conn_type \<Rightarrow> connecting
     \<Rightarrow> (string + framed_stream \<times> bool) \<times> connecting" where
  "connect_direct E addr peer ph ct S =
     (case load_peer E peer S of (c, S) \<Rightarrow>
      let relay_server = pr_relay_server ph;
          t = direct_timeout (response_local (pr_union ph)) (response_nat (pr_union ph)) relay_server (my_nat E)
            (my_nat_again E) (direct_failures c) (punch_time E);
          r = dial_peer E addr t;
          direct = (case r of Inr _ \<Rightarrow> True | Inl _ \<Rightarrow> False);
          res = (case r of
              Inr F \<Rightarrow> (Inr F, S)
            | Inl _ \<Rightarrow>
                if relay_server \<noteq> [] then
                  (case request_relay E peer relay_server (pr_pk ph \<noteq> []) ct S of
                     (Inl e, S) \<Rightarrow> (Inl (''Failed to connect via relay server: '' @ e), S)
                   | (Inr F, S) \<Rightarrow> (Inr F, S))
                else (Inl ''Failed to make direct connection to remote desktop'', S))
      in (case res of
           (Inl e, S) \<Rightarrow> (Inl e, S)
         | (Inr F, S) \<Rightarrow>
             let S = note_direct E peer relay_server (direct_failures c) direct S in
             (map_sum id (\<lambda>F. (F, direct)) (secured E peer (pr_pk ph) F), S)))"

definition punch_request :: "'e net_env_scheme \<Rightarrow> string \<Rightarrow> conn_type \<Rightarrow> string \<Rightarrow> string \<Rightarrow> rendezvous_message" where
  "punch_request E peer ct from_id from_uuid =
     PunchHoleRequest \<lparr>ph_id = peer,
       ph_nat_type = Known (if my_nat E = 1 then ASYMMETRIC else if my_nat E = 2 then SYMMETRIC else UNKNOWN_NAT),
       ph_licence_key = public_key E, ph_conn_type = Known ct, ph_token = [], ph_from_id = from_id, ph_from_uuid = from_uuid\<rparr>"

definition of_sum :: "(string + 'a) \<times> 's \<Rightarrow> 'a outcome \<times> 's" where
  "of_sum r = (case r of (Inl e, S) \<Rightarrow> (Failed e, S) | (Inr x, S) \<Rightarrow> (Done x, S))"

text \<open>Which identity the request carries; without a machine id it is the public key, when that is a text.\<close>

definition from_uuid :: "'e net_env_scheme \<Rightarrow> string + string" where
  "from_uuid E =
     (case machine_uid E of
        Some u \<Rightarrow> Inr u
      | None \<Rightarrow> (case pk_as_text E of Some u \<Rightarrow> Inr u | None \<Rightarrow> Inl ''invalid utf-8 sequence''))"

definition try_start :: "'e net_env_scheme \<Rightarrow> string \<Rightarrow> conn_type \<Rightarrow> connecting \<Rightarrow> (framed_stream \<times> bool) outcome \<times> connecting" where
  "try_start E peer ct S =
     (if is_ip peer then
        (case dial_address E (check_port peer (RELAY_PORT + 1)) of
           Inl e \<Rightarrow> (Failed e, S)
         | Inr F \<Rightarrow> (Done (F, True), S))
      else case dial_rendezvous E 0 of
        Inl e \<Rightarrow> (Failed e, S)
      | Inr _ \<Rightarrow>
          (case get_key_pair E S of (kp, S) \<Rightarrow>
           (case from_uuid E of
              Inl e \<Rightarrow> (Failed e, S)
            | Inr u \<Rightarrow>
                (case Config.get_id E S of (i, S) \<Rightarrow>
                 (case punch_attempts E (punch_request E peer ct i u) [1, 2, 3] S of
                    (Failed e, S) \<Rightarrow> (Failed e, S)
                  | (Panicked, S) \<Rightarrow> (Panicked, S)
                  | (Done (Relayed rr), S) \<Rightarrow>
                      (case create_relay E peer (rr_uuid rr) (rr_relay_server rr) ct S of
                         (Inl e, S) \<Rightarrow> (Failed e, S)
                       | (Inr F, S) \<Rightarrow> of_sum (map_sum id (\<lambda>F. (F, False)) (secured E peer (relay_pk (rr_union rr)) F), S))
                  | (Done (Hole ph a), S) \<Rightarrow>
                      if port a = 0 then (Failed ''Failed to connect via rendezvous server'', S)
                      else of_sum (connect_direct E a peer ph ct S)
                  | (Done NoHole, S) \<Rightarrow> (Failed ''Failed to connect via rendezvous server'', S))))))"

definition client_start :: "'e net_env_scheme \<Rightarrow> string \<Rightarrow> conn_type \<Rightarrow> connecting \<Rightarrow> (framed_stream \<times> bool) outcome \<times> connecting" where
  "client_start E peer ct S =
     (case try_start E peer ct S of
        (Failed e, S) \<Rightarrow> (Failed (if starts_with ''Failed'' e then e @ '': Please try later'' else e), S)
      | r \<Rightarrow> r)"

subsection \<open>Lemmas\<close>

lemma asked_settings [simp]: "asked (store_peer E i c S) = asked S" "asked (note_direct E p r n d S) = asked S"
proof -
  show s: "asked (store_peer E i c S) = asked S" for i c S by (simp add: store_peer_def)
  obtain c0 S0 where l: "load_peer E p S = (c0, S0)" by force
  then have "asked S0 = asked S" by (auto simp: load_peer_def split: option.splits if_splits)
  with l show "asked (note_direct E p r n d S) = asked S" by (simp add: note_direct_def s)
qed

lemma asked_load: "load_peer E i S = (c, S') \<Longrightarrow> asked S' = asked S"
  by (auto simp: load_peer_def split: option.splits if_splits)

lemma asked_get_id: "Config.get_id E S = (i, S') \<Longrightarrow> asked S' = asked S"
  by (auto simp: Config.get_id_def set_id_def store_config_def Let_def split: if_splits option.splits)

lemma asked_key_pair: "get_key_pair E S = (k, S') \<Longrightarrow> asked S' = asked S"
  by (auto simp: get_key_pair_def store_config_def Let_def split: if_splits prod.splits)

lemma request_asked: "request E m S = (r, S') \<Longrightarrow> asked S' = asked S @ [m]"
  by (auto simp: request_def)

lemma punch_attempts_asked:
  "punch_attempts E m is S = (r, S') \<Longrightarrow> \<exists>n \<le> length is. asked S' = asked S @ replicate n m"
proof (induction "is" arbitrary: S)
  case Nil
  then show ?case by simp
next
  case (Cons i "is")
  obtain r1 S1 where q: "request E m S = (r1, S1)" by force
  then have a: "asked S1 = asked S @ [m]" by (rule request_asked)
  have "S' = S1 \<or> punch_attempts E m is S1 = (r, S')"
    using Cons.prems q by (auto split: sum.splits server_answer.splits rendezvous_message.splits if_splits option.splits)
  then show ?case
  proof
    assume "S' = S1"
    with a show ?thesis by (intro exI [of _ 1]) simp
  next
    assume "punch_attempts E m is S1 = (r, S')"
    from Cons.IH [OF this] obtain n where "n \<le> length is" "asked S' = asked S1 @ replicate n m" by blast
    with a show ?thesis by (intro exI [of _ "Suc n"]) simp
  qed
qed

lemma relay_attempts_asked:
  "relay_attempts E peer rs sec is S = (r, S') \<Longrightarrow> length (asked S') \<le> length (asked S) + length is"
proof (induction "is" arbitrary: S)
  case Nil
  then show ?case by simp
next
  case (Cons i "is")
  obtain r1 S1 where q: "request E (RequestRelay (default_request_relay\<lparr>rf_id := peer, rf_uuid := new_uuid E i,
      rf_relay_server := rs, rf_secure := sec\<rparr>)) S = (r1, S1)" by force
  then have "S' = S \<or> S' = S1 \<or> relay_attempts E peer rs sec is S1 = (r, S')"
    using Cons.prems
    by (auto split: sum.splits server_answer.splits rendezvous_message.splits if_splits)
  with request_asked [OF q(1)] Cons.IH [of S1] show ?case by auto
qed

lemma create_relay_asked:
  "create_relay E peer u rs ct S = (r, S') \<Longrightarrow> length (asked S') \<le> Suc (length (asked S))"
  by (auto simp: create_relay_def request_def split: sum.splits prod.splits)

lemma request_relay_asked:
  assumes "request_relay E peer rs sec ct S = (r, S')"
  shows "length (asked S') \<le> length (asked S) + 4"
proof -
  obtain r1 S1 where a: "relay_attempts E peer rs sec [1, 2, 3] S = (r1, S1)" by force
  have "length (asked S1) \<le> length (asked S) + 3" using relay_attempts_asked [OF a] by simp
  moreover have "length (asked S') \<le> Suc (length (asked S1))"
    using assms a create_relay_asked by (fastforce simp: request_relay_def split: sum.splits option.splits)
  ultimately show ?thesis by simp
qed

lemma connect_direct_asked:
  assumes "connect_direct E addr peer ph ct S = (r, S')"
  shows "length (asked S') \<le> length (asked S) + 4"
proof -
  obtain c S0 where l: "load_peer E peer S = (c, S0)" by force
  obtain r1 S1 where q: "request_relay E peer (pr_relay_server ph) (pr_pk ph \<noteq> []) ct S0 = (r1, S1)" by force
  have "asked S' = asked S0 \<or> asked S' = asked S1"
    using assms l q by (auto simp: connect_direct_def Let_def split: sum.splits if_splits prod.splits)
  then show ?thesis using request_relay_asked [OF q] asked_load [OF l] by auto
qed

lemma try_start_asked:
  assumes "try_start E peer ct S = (r, S')"
  shows "length (asked S') \<le> length (asked S) + 7"
proof -
  obtain kp S1 where k: "get_key_pair E S = (kp, S1)" by (metis prod.exhaust)
  obtain i S2 where i: "Config.get_id E S1 = (i, S2)" by force
  have a2: "asked S1 = asked S" "asked S2 = asked S" using asked_key_pair [OF k] asked_get_id [OF i] by simp_all
  show ?thesis
  proof (cases "S' = S \<or> S' = S1")
    case True
    with a2 show ?thesis by auto
  next
    case False
    then obtain u where u: "from_uuid E = Inr u"
      using assms k by (auto simp: try_start_def split: sum.splits if_splits)
    obtain r3 S3 where p: "punch_attempts E (punch_request E peer ct i u) [1, 2, 3] S2 = (r3, S3)" by force
    have a3: "length (asked S3) \<le> length (asked S) + 3" using punch_attempts_asked [OF p] a2 by auto
    have run: "(case r3 of
        Failed e \<Rightarrow> (Failed e, S3)
      | Panicked \<Rightarrow> (Panicked, S3)
      | Done (Relayed rr) \<Rightarrow>
          (case create_relay E peer (rr_uuid rr) (rr_relay_server rr) ct S3 of
             (Inl e, S) \<Rightarrow> (Failed e, S)
           | (Inr F, S) \<Rightarrow> of_sum (map_sum id (\<lambda>F. (F, False)) (secured E peer (relay_pk (rr_union rr)) F), S))
      | Done (Hole ph a) \<Rightarrow>
          if port a = 0 then (Failed ''Failed to connect via rendezvous server'', S3)
          else of_sum (connect_direct E a peer ph ct S3)
      | Done NoHole \<Rightarrow> (Failed ''Failed to connect via rendezvous server'', S3)) = (r, S')"
      using assms k i u p False by (auto simp: try_start_def split: sum.splits if_splits outcome.splits punched.splits)
    show ?thesis
    proof (cases r3)
      case (Done pn)
      show ?thesis
      proof (cases pn)
        case (Hole ph a)
        obtain r4 S4 where c: "connect_direct E a peer ph ct S3 = (r4, S4)" by force
        have "S' = S3 \<or> S' = S4" using run Done Hole c by (auto simp: of_sum_def split: sum.splits if_splits)
        with connect_direct_asked [OF c] a3 show ?thesis by auto
      next
        case (Relayed rr)
        obtain r4 S4 where c: "create_relay E peer (rr_uuid rr) (rr_relay_server rr) ct S3 = (r4, S4)" by force
        have "S' = S4" using run Done Relayed c by (auto simp: of_sum_def split: sum.splits)
        with create_relay_asked [OF c] a3 show ?thesis by auto
      qed (use run Done a3 in auto)
    qed (use run a3 in auto)
  qed
qed

lemma map_sum_direct: "map_sum id (\<lambda>F. (F, d)) x = Inr (F', e) \<Longrightarrow> e = d"
  by (cases x) auto

text \<open>Files of peers on the way.\<close>

lemma load_of_file:
  "map_of (peer_files S) (peer_path i) = Some f \<Longrightarrow>
     load_peer E i S = ((case pf_content f of Some c \<Rightarrow> c | None \<Rightarrow> default_peer_config), S)"
  by (simp add: load_peer_def)

lemma loaded_file:
  assumes "load_peer E i S = (c, S')" "disk_ok E" "i \<noteq> ''..''"
  shows "\<exists>f. map_of (peer_files S') (peer_path i) = Some f \<and>
    c = (case pf_content f of Some c \<Rightarrow> c | None \<Rightarrow> default_peer_config)"
  using assms by (auto simp: load_peer_def update_conv split: option.splits)

lemma request_files: "request E m S = (r, S') \<Longrightarrow> peer_files S' = peer_files S"
  by (auto simp: request_def)

lemma relay_attempts_files: "relay_attempts E peer rs sec is S = (r, S') \<Longrightarrow> peer_files S' = peer_files S"
proof (induction "is" arbitrary: S)
  case Nil
  then show ?case by simp
next
  case (Cons i "is")
  obtain r1 S1 where q: "request E (RequestRelay (default_request_relay\<lparr>rf_id := peer, rf_uuid := new_uuid E i,
      rf_relay_server := rs, rf_secure := sec\<rparr>)) S = (r1, S1)" by force
  then have "S' = S \<or> S' = S1 \<or> relay_attempts E peer rs sec is S1 = (r, S')"
    using Cons.prems
    by (auto split: sum.splits server_answer.splits rendezvous_message.splits if_splits)
  with request_files [OF q] Cons.IH [of S1] show ?case by auto
qed

lemma request_relay_files:
  assumes "request_relay E peer rs sec ct S = (r, S')"
  shows "peer_files S' = peer_files S"
proof -
  obtain r1 S1 where a: "relay_attempts E peer rs sec [1, 2, 3] S = (r1, S1)" by force
  have "peer_files S' = peer_files S1"
    using assms a by (auto simp: request_relay_def create_relay_def request_def split: sum.splits option.splits)
  with relay_attempts_files [OF a] show ?thesis by simp
qed

subsection \<open>Properties\<close>

text \<open>
  C23: Looking for a peer ends after at most seven requests, whatever the rendezvous server answers: three
  for a hole, three for a relay and one to the relay.
\<close>

theorem client_requests_bounded:
  "length (asked (snd (client_start E peer ct S))) \<le> length (asked S) + 7"
proof -
  obtain r S' where t: "try_start E peer ct S = (r, S')" by force
  then have "snd (client_start E peer ct S) = S'" by (cases r) (simp_all add: client_start_def)
  with try_start_asked [OF t] show ?thesis by simp
qed

text \<open>
  A direct attempt gets at least a second, and exactly that when it cannot be expected to work: in
  the same network and against a symmetric NAT; without a relay to fall back on it gets all the time.
\<close>

theorem direct_timeout_bounds:
  "MIN_TIMEOUT \<le> direct_timeout loc pn rs n1 n2 f t \<and>
   ((loc \<or> pn = SYMMETRIC) \<longrightarrow> direct_timeout loc pn rs n1 n2 f t = MIN_TIMEOUT) \<and>
   (\<not> loc \<and> pn \<noteq> SYMMETRIC \<and> rs = [] \<longrightarrow> direct_timeout loc pn rs n1 n2 f t = CONNECT_TIMEOUT)"
  by (simp add: direct_timeout_def Let_def CONNECT_TIMEOUT_def MIN_TIMEOUT_def not_less)

theorem direct_timeout_bounds_witness: "direct_timeout True ASYMMETRIC ''r'' 1 1 0 50 = MIN_TIMEOUT"
  using direct_timeout_bounds [of True ASYMMETRIC "''r''" 1 1 0 50] by simp

text \<open>
  A connection that came about through a hole leaves in the peer's file whether it was direct, when
  there was a relay to choose: the next attempt knows.
\<close>

theorem direct_failures_remembered:
  assumes "connect_direct E addr peer ph ct S = (Inr (F, direct), S')" "pr_relay_server ph \<noteq> []"
    and "disk_ok E" "peer \<noteq> ''..''" "direct_failures (fst (load_peer E peer S)) \<in> {0, 1}"
  shows "direct_failures (fst (load_peer E peer S')) = (if direct then 0 else 1)"
proof -
  obtain c S0 where l: "load_peer E peer S = (c, S0)" by force
  obtain f where f: "map_of (peer_files S0) (peer_path peer) = Some f"
      "c = (case pf_content f of Some c \<Rightarrow> c | None \<Rightarrow> default_peer_config)"
    using loaded_file [OF l assms(3,4)] by blast
  obtain r1 S1 where q: "request_relay E peer (pr_relay_server ph) (pr_pk ph \<noteq> []) ct S0 = (r1, S1)" by force
  obtain S2 where s: "S2 = S0 \<or> S2 = S1" "S' = note_direct E peer (pr_relay_server ph) (direct_failures c) direct S2"
    using assms(1,2) l q
    by (auto simp: connect_direct_def Let_def split: sum.splits if_splits dest!: map_sum_direct)
  then have "map_of (peer_files S2) (peer_path peer) = Some f" using f(1) request_relay_files [OF q] by auto
  then have l2: "load_peer E peer S2 = (c, S2)" using load_of_file f(2) by metis
  have "direct_failures c \<in> {0, 1}" using assms(5) l by simp
  then show ?thesis
    using s(2) l2 assms(2) by (auto simp: note_direct_def load_of_file [OF stored_file [OF assms(3,4)]])
qed

definition sample_net :: net_env where
  "sample_net = \<lparr>disk_ok = True, mac_address = None, gen_keypair = ([1], [2]), clock = 7, cr = sample_crypto, public_key = [],
     hs_keys = (([], []), []), hs_took = Some 1, hs_reply = None, error_text = (\<lambda>_. ''e''), my_nat = 1, my_nat_again = 1,
     machine_uid = Some ''m'', pk_as_text = None, dial_address = (\<lambda>_. Inr new_stream),
     dial_rendezvous = (\<lambda>_. Inr new_stream), dial_peer = (\<lambda>_ _. Inl ''refused''), dial_relay = (\<lambda>_. Inr new_stream),
     request_sent = (\<lambda>_. Inr ()), punch_answer = (\<lambda>_. Silent),
     relay_answer = (\<lambda>_. Answer (RelayResponse default_relay_response)), punch_time = 50, new_uuid = (\<lambda>_. ''u'')\<rparr>"

definition sample_connecting :: connecting where
  "sample_connecting = settings.extend default_settings \<lparr>asked = []\<rparr>"

theorem direct_failures_remembered_witness:
  "direct_failures (fst (load_peer sample_net ''me'' (snd (connect_direct sample_net any_addr ''me''
     (default_punch_hole_response\<lparr>pr_relay_server := ''r''\<rparr>) DEFAULT_CONN sample_connecting)))) = 1"
proof -
  let ?ph = "default_punch_hole_response\<lparr>pr_relay_server := ''r''\<rparr>"
  obtain r S' where c: "connect_direct sample_net any_addr ''me'' ?ph DEFAULT_CONN sample_connecting = (r, S')" by force
  have k: "peer_sign_key C pub peer [] = None" for C pub peer by (simp add: peer_sign_key_def)
  have "frame_of [] = Some [0]" by (simp add: frame_of_def encode_head_eq head_size_def head_word_def)
  then have s: "secure_connection sample_crypto [] ''me'' [] ks (Some 1) None new_stream = (Inr (), new_stream\<lparr>st_written := [0]\<rparr>)" for ks
    by (simp add: secure_connection_def k send_message_new sample_write_def)
  have "\<exists>F. r = Inr (F, False)"
    using c by (auto simp: connect_direct_def sample_net_def default_punch_hole_response_def request_relay_def request_def
      create_relay_def default_relay_response_def secured_def s Let_def split: prod.splits)
  then obtain F where "r = Inr (F, False)" ..
  moreover have "direct_failures (fst (load_peer sample_net ''me'' sample_connecting)) = 0"
    by (simp add: load_peer_def sample_connecting_def settings.defs default_settings_def Let_def default_peer_config_def)
  ultimately show ?thesis
    using direct_failures_remembered [OF c [unfolded \<open>r = Inr (F, False)\<close>]] c
    by (simp add: default_punch_hole_response_def sample_net_def)
qed

text \<open>
  What the rendezvous server refuses for good is not tried again by the user interface (the id
  does not exist, the peer is offline, the key does not match), only an overused key is.
\<close>

theorem refusals_are_final:
  assumes "pr_other_failure ph = []"
  shows "check_if_retry ''error'' ''Connection Error'' (failure_text ph) \<longleftrightarrow> pr_failure ph = Known LICENSE_OVERUSE"
  using assms by (auto simp: failure_text_def check_if_retry_def to_lower_def starts_with_def
    split: proto_enum.split punch_failure.split)

theorem refusals_are_final_witness:
  "\<not> check_if_retry ''error'' ''Connection Error'' (failure_text default_punch_hole_response)"
  using refusals_are_final [of default_punch_hole_response] by (simp add: default_punch_hole_response_def)

end
