(* ===== verification/Mediator.thy ===== *)
theory Mediator
  imports Client_Connect Rendezvous_Server
begin

text \<open>
  The controlled side's client of a rendezvous server, \<open>src/rendezvous_mediator.rs\<close>: one loop for each
  server keeps the machine registered and starts a task for everybody who wants to connect. A mediator
  is the settings of the process, the fields of \<open>RendezvousMediator\<close>, the variables of the loop, what
  went to the server's UDP socket and the tasks it started. Times are microseconds. Every operation
  that may fail is called under \<open>allow_err!\<close>, which only logs.
\<close>

definition REG_INTERVAL :: int where "REG_INTERVAL = 12000"

definition RESPONSE_TIMEOUT :: int where "RESPONSE_TIMEOUT = 3000"

definition MAX_FAILS1 :: int where "MAX_FAILS1 = 3"

definition MAX_FAILS2 :: int where "MAX_FAILS2 = 6"

definition DNS_INTERVAL :: int where "DNS_INTERVAL = 60000"

record med_env = config_env +
  now_us :: nat
  udp_ok :: bool
  machine_id :: "bytes option"
  dns_ok :: bool
  rebind_ok :: bool
  client_version :: string
  licence :: string
  server_connects :: bool
  server_sends :: bool
  relay_connects :: bool
  relay_sends :: bool
  own_addr :: "Net_Addr.socket_addr"
  own_clock :: u32
  fresh_uuid :: string

datatype med_task = TaskPunchHole bytes string "nat_type proto_enum" | TaskRelay request_relay | TaskIntranet bytes string

record mediator = settings +
  host :: string
  host_prefix :: string
  last_id_pk_registry :: string
  solving :: string
  should_exit :: bool
  fails :: int
  last_resp :: "nat option"
  last_sent :: "nat option"
  last_dns :: nat
  last_timer :: "nat option"
  old_latency :: int
  ema_latency :: int
  udp_sent :: "rendezvous_message list"
  med_tasks :: "med_task list"

definition host_prefix_of :: "string \<Rightarrow> string" where
  "host_prefix_of h =
     (case split_on (CHR ''.'') h of
        x # _ \<Rightarrow> (if parse_i32 x \<noteq> None then h else x)
      | [] \<Rightarrow> h)"

text \<open>The mediator of a host; \<open>S\<close> are the settings, \<open>slv\<close> the process-wide mark of a mismatch.\<close>

definition new_mediator :: "'e med_env_scheme \<Rightarrow> string \<Rightarrow> string \<Rightarrow> settings \<Rightarrow> mediator" where
  "new_mediator E h slv S = settings.extend S \<lparr>host = h, host_prefix = host_prefix_of h, last_id_pk_registry = [],
     solving = slv, should_exit = False, fails = 0, last_resp = None, last_sent = None, last_dns = now_us E,
     last_timer = None, old_latency = 0, ema_latency = 0, udp_sent = [], med_tasks = []\<rparr>"

subsection \<open>Registration\<close>

definition udp_send :: "'e med_env_scheme \<Rightarrow> rendezvous_message \<Rightarrow> mediator \<Rightarrow> mediator" where
  "udp_send E m M = (if udp_ok E then M\<lparr>udp_sent := udp_sent M @ [m]\<rparr> else M)"

definition med_register_pk :: "'e med_env_scheme \<Rightarrow> mediator \<Rightarrow> mediator" where
  "med_register_pk E M =
     (case get_key_pair E M of ((_, k), M) \<Rightarrow>
      case Config.get_id E M of (i, M) \<Rightarrow>
        udp_send E (RegisterPk \<lparr>rk_id = i, rk_uuid = (case machine_id E of Some u \<Rightarrow> u | None \<Rightarrow> k), rk_pk = k, rk_old_id = []\<rparr>)
          (M\<lparr>last_id_pk_registry := i\<rparr>))"

definition handle_uuid_mismatch :: "'e med_env_scheme \<Rightarrow> mediator \<Rightarrow> mediator" where
  "handle_uuid_mismatch E M =
     (case Config.get_id E M of (i, M) \<Rightarrow>
        if last_id_pk_registry M \<noteq> i then M
        else if solving M = [] \<or> solving M = host M
        then med_register_pk E ((update_id E (set_key_confirmed E False M))\<lparr>solving := host M\<rparr>)
        else M)"

definition med_register_peer :: "'e med_env_scheme \<Rightarrow> mediator \<Rightarrow> mediator" where
  "med_register_peer E M =
     (if solving M \<noteq> [] then M
      else if \<not> get_key_confirmed M \<or> \<not> get_host_key_confirmed (host_prefix M) M then med_register_pk E M
      else case Config.get_id E M of (i, M) \<Rightarrow>
        udp_send E (RegisterPeer \<lparr>rp_id = i, rp_serial = get_serial M\<rparr>) M)"

subsection \<open>The loop\<close>

text \<open>What every answer to a registration does; the latency is smoothed.\<close>

definition med_update_latency :: "'e med_env_scheme \<Rightarrow> mediator \<Rightarrow> mediator" where
  "med_update_latency E M =
     (let M = M\<lparr>last_resp := Some (now_us E), fails := 0\<rparr>;
          latency = (case last_sent M of Some t \<Rightarrow> int (now_us E - t) | None \<Rightarrow> 0)
      in if latency < 0 \<or> latency > 1000000 then M
         else
           let ema = (if ema_latency M = 0 then latency else latency div 30 + ema_latency M * 29 div 30);
               n = max 3000 (ema div 5);
               M = M\<lparr>ema_latency := ema\<rparr>
           in if \<bar>ema - old_latency M\<bar> > n \<or> old_latency M \<le> 0
              then (Config.update_latency E (host M) ema M)\<lparr>old_latency := ema\<rparr> else M)"

definition on_configure :: "'e med_env_scheme \<Rightarrow> config_update \<Rightarrow> mediator \<Rightarrow> mediator" where
  "on_configure E cu M =
     (let v0 = get_rendezvous_servers M;
          M = set_option E ''rendezvous-servers'' (join_with '','' (cu_rendezvous_servers cu)) M;
          M = set_serial E (cu_serial cu) M
      in if v0 \<noteq> get_rendezvous_servers M then M\<lparr>should_exit := True\<rparr> else M)"

definition on_packet :: "'e med_env_scheme \<Rightarrow> rendezvous_message \<Rightarrow> mediator \<Rightarrow> mediator" where
  "on_packet E m M =
     (case m of
        RegisterPeerResponse request_pk \<Rightarrow>
          (let M = med_update_latency E M in if request_pk then med_register_pk E M else M)
      | RegisterPkResponse r \<Rightarrow>
          (let M = med_update_latency E M in
           case r of
             OK \<Rightarrow> (set_host_key_confirmed E (host_prefix M) True (set_key_confirmed E True M))\<lparr>solving := []\<rparr>
           | UUID_MISMATCH \<Rightarrow> handle_uuid_mismatch E M
           | _ \<Rightarrow> M)
      | PunchHole a r t \<Rightarrow> M\<lparr>med_tasks := med_tasks M @ [TaskPunchHole a r t]\<rparr>
      | RequestRelay rr \<Rightarrow> M\<lparr>med_tasks := med_tasks M @ [TaskRelay rr]\<rparr>
      | FetchLocalAddr a r \<Rightarrow> M\<lparr>med_tasks := med_tasks M @ [TaskIntranet a r]\<rparr>
      | ConfigureUpdate cu \<Rightarrow> on_configure E cu M
      | _ \<Rightarrow> M)"

datatype med_event = Packet "rendezvous_message option" | SocketFailure | Tick

datatype med_result = Goes_On | Leaves | Fails

text \<open>The time-out of the code, in milliseconds, and what the timer does then.\<close>

definition elapsed_ms :: "'e med_env_scheme \<Rightarrow> nat option \<Rightarrow> int" where
  "elapsed_ms E t = (case t of Some t \<Rightarrow> int ((now_us E - t) div 1000) | None \<Rightarrow> REG_INTERVAL)"

definition timed_out :: "'e med_env_scheme \<Rightarrow> mediator \<Rightarrow> bool" where
  "timed_out E M \<longleftrightarrow> elapsed_ms E (last_sent M) - elapsed_ms E (last_resp M) > RESPONSE_TIMEOUT"

definition on_timeout :: "'e med_env_scheme \<Rightarrow> mediator \<Rightarrow> med_result \<times> mediator" where
  "on_timeout E M =
     (let M = M\<lparr>fails := fails M + 1\<rparr> in
      if fails M > MAX_FAILS2 then
        let M = (Config.update_latency E (host M) (- 1) M)\<lparr>old_latency := 0\<rparr> in
        if int ((now_us E - last_dns M) div 1000) > DNS_INTERVAL then
          (if dns_ok E \<and> rebind_ok E then (Goes_On, M\<lparr>last_dns := now_us E\<rparr>) else (Fails, M))
        else (Goes_On, M)
      else if fails M > MAX_FAILS1 then (Goes_On, (Config.update_latency E (host M) 0 M)\<lparr>old_latency := 0\<rparr>)
      else (Goes_On, M))"

definition on_tick :: "'e med_env_scheme \<Rightarrow> mediator \<Rightarrow> med_result \<times> mediator" where
  "on_tick E M =
     (if should_exit M then (Leaves, M)
      else if (case last_timer M of Some t \<Rightarrow> now_us E - t < 1000000 | None \<Rightarrow> False) then (Goes_On, M)
      else
        let M = M\<lparr>last_timer := Some (now_us E)\<rparr>; timeout = timed_out E M in
        if timeout \<or> elapsed_ms E (last_resp M) \<ge> REG_INTERVAL then
          let M = (med_register_peer E M)\<lparr>last_sent := Some (now_us E)\<rparr>
          in if timeout then on_timeout E M else (Goes_On, M)
        else (Goes_On, M))"

definition med_step :: "'e med_env_scheme \<Rightarrow> med_event \<Rightarrow> mediator \<Rightarrow> med_result \<times> mediator" where
  "med_step E ev M =
     (case ev of
        Packet (Some m) \<Rightarrow> (Goes_On, on_packet E m M)
      | Packet None \<Rightarrow> (Goes_On, M)
      | SocketFailure \<Rightarrow> (Fails, M)
      | Tick \<Rightarrow> on_tick E M)"

subsection \<open>The tasks\<close>

text \<open>
  What a task does, in order: messages over its own connections to the rendezvous server and to a
  relay, the short attempt that opens the hole, and the session it hands its connection to. A failure
  is only logged, and a panic ends the task alone.
\<close>

datatype med_action =
    ToServer rendezvous_message
  | OpenHole "Net_Addr.socket_addr"
  | ToRelay string rendezvous_message
  | Session "Net_Addr.socket_addr" bool

definition nat_of_number :: "int \<Rightarrow> nat_type option" where
  "nat_of_number n =
     (if n = 0 then Some UNKNOWN_NAT else if n = 1 then Some ASYMMETRIC else if n = 2 then Some SYMMETRIC else None)"

definition is_symmetric :: "nat_type proto_enum \<Rightarrow> 's settings_scheme \<Rightarrow> bool" where
  "is_symmetric t S \<longleftrightarrow> t = Known SYMMETRIC \<or> get_nat_type S = 2"

text \<open>The port after the server's; \<open>u16\<close> arithmetic wraps in the release build.\<close>

definition med_relay_server :: "string \<Rightarrow> string \<Rightarrow> 's settings_scheme \<Rightarrow> string" where
  "med_relay_server h provided S =
     (let r = get_option ''relay-server'' S;
          r = (if r = [] then provided else r)
      in if r \<noteq> [] then r
         else if CHR '':'' \<in> set h then
           (case split_on (CHR '':'') h of
              [a, b] \<Rightarrow> a @ '':'' @ show_nat (unat ((case parse_u16 b of Some n \<Rightarrow> word_of_int n | None \<Rightarrow> 0) + 1 :: u16))
            | _ \<Rightarrow> r)
         else h)"

definition create_relay_connection ::
  "'e med_env_scheme \<Rightarrow> string \<Rightarrow> string \<Rightarrow> Net_Addr.socket_addr \<Rightarrow> bool \<Rightarrow> med_action list" where
  "create_relay_connection E relay_server u peer secure =
     (if \<not> relay_connects E then []
      else let m = RequestRelay (default_request_relay\<lparr>rf_licence_key := licence E, rf_uuid := u\<rparr>) in
        if \<not> relay_sends E then [] else [ToRelay (check_port relay_server RELAY_PORT) m, Session peer secure])"

definition med_create_relay ::
  "'e med_env_scheme \<Rightarrow> bytes \<Rightarrow> string \<Rightarrow> string \<Rightarrow> bool \<Rightarrow> bool \<Rightarrow> 's settings_scheme
     \<Rightarrow> unit outcome \<times> med_action list \<times> 's settings_scheme" where
  "med_create_relay E addr relay_server u secure initiate S =
     (case mangle_decode addr of
        None \<Rightarrow> (Panicked, [], S)
      | Some peer \<Rightarrow>
          if \<not> server_connects E then (Failed ''connect'', [], S)
          else
            (case (if initiate then Config.get_id E S else ([], S)) of (i, S) \<Rightarrow>
             let rr = default_relay_response\<lparr>rr_socket_addr := addr, rr_version := client_version E\<rparr>;
                 rr = (if initiate then rr\<lparr>rr_uuid := u, rr_relay_server := relay_server, rr_union := RelayId i\<rparr> else rr)
             in if \<not> server_sends E then (Failed ''send'', [], S)
                else (Done (), ToServer (RelayResponse rr) # create_relay_connection E relay_server u peer secure, S)))"

definition handle_request_relay ::
  "'e med_env_scheme \<Rightarrow> request_relay \<Rightarrow> 's settings_scheme \<Rightarrow> unit outcome \<times> med_action list \<times> 's settings_scheme" where
  "handle_request_relay E rr S =
     med_create_relay E (rf_socket_addr rr) (rf_relay_server rr) (rf_uuid rr) (rf_secure rr) False S"

text \<open>The mangled addresses carry a time, the environment's \<open>own_clock\<close>.\<close>

definition handle_intranet ::
  "'e med_env_scheme \<Rightarrow> string \<Rightarrow> bytes \<Rightarrow> string \<Rightarrow> 's settings_scheme
     \<Rightarrow> unit outcome \<times> med_action list \<times> 's settings_scheme" where
  "handle_intranet E h addr relay S =
     (case mangle_decode addr of
        None \<Rightarrow> (Panicked, [], S)
      | Some peer \<Rightarrow>
          if \<not> server_connects E then (Failed ''connect'', [], S)
          else
            let relay_server = med_relay_server h relay S in
            (case Config.get_id E S of (i, S) \<Rightarrow>
             (case (mangle_encode (own_clock E) peer, mangle_encode (own_clock E) (own_addr E)) of
                (Some a, Some b) \<Rightarrow>
                  if \<not> server_sends E then (Failed ''send'', [], S)
                  else (Done (), [ToServer (LocalAddr \<lparr>la_socket_addr = a, la_local_addr = b, la_relay_server = relay_server,
                         la_id = i, la_version = client_version E\<rparr>), Session peer True], S)
              | _ \<Rightarrow> (Panicked, [], S))))"

definition handle_punch_hole ::
  "'e med_env_scheme \<Rightarrow> string \<Rightarrow> bytes \<Rightarrow> string \<Rightarrow> nat_type proto_enum \<Rightarrow> 's settings_scheme
     \<Rightarrow> unit outcome \<times> med_action list \<times> 's settings_scheme" where
  "handle_punch_hole E h addr relay t S =
     (let relay_server = med_relay_server h relay S in
      if is_symmetric t S then med_create_relay E addr relay_server (fresh_uuid E) True True S
      else
        (case mangle_decode addr of
           None \<Rightarrow> (Panicked, [], S)
         | Some peer \<Rightarrow>
             if \<not> server_connects E then (Failed ''connect'', [], S)
             else
               let n = (case nat_of_number (get_nat_type S) of Some n \<Rightarrow> n | None \<Rightarrow> UNKNOWN_NAT) in
               (case Config.get_id E S of (i, S) \<Rightarrow>
                if \<not> server_sends E then (Failed ''send'', [OpenHole peer], S)
                else (Done (), [OpenHole peer, ToServer (PunchHoleSent \<lparr>phs_socket_addr = addr, phs_id = i,
                       phs_relay_server = relay_server, phs_nat_type = Known n, phs_version = client_version E\<rparr>),
                     Session peer True], S))))"

definition run_task ::
  "'e med_env_scheme \<Rightarrow> string \<Rightarrow> med_task \<Rightarrow> 's settings_scheme \<Rightarrow> unit outcome \<times> med_action list \<times> 's settings_scheme" where
  "run_task E h t S =
     (case t of
        TaskPunchHole a r n \<Rightarrow> handle_punch_hole E h a r n S
      | TaskRelay rr \<Rightarrow> handle_request_relay E rr S
      | TaskIntranet a r \<Rightarrow> handle_intranet E h a r S)"

subsection \<open>The other listeners\<close>

text \<open>One round of \<open>start_all\<close>: a mediator for each server, until one of them leaves.\<close>

definition start_round :: "'e med_env_scheme \<Rightarrow> string \<Rightarrow> settings \<Rightarrow> settings \<times> mediator list" where
  "start_round E slv S =
     (let S = reset_online S in
      (S, if get_option ''stop-service'' S = [] then map (\<lambda>h. new_mediator E h slv S) (get_rendezvous_servers S) else []))"

definition get_direct_port :: "'s settings_scheme \<Rightarrow> int" where
  "get_direct_port S =
     (let p = (case parse_i32 (get_option ''direct-access-port'' S) of Some n \<Rightarrow> n | None \<Rightarrow> 0)
      in if p \<le> 0 then int RENDEZVOUS_PORT + 2 else p)"

text \<open>
  The listener for connections by address: \<open>Refused\<close> waits for another port. One turn of its loop
  gives the peer it accepted; \<open>offer\<close> is who comes within a second.
\<close>

datatype direct_state = Idle | Listening int | Refused int

definition direct_turn ::
  "(int \<Rightarrow> bool) \<Rightarrow> Net_Addr.socket_addr option \<Rightarrow> 's settings_scheme \<Rightarrow> direct_state
     \<Rightarrow> direct_state \<times> (Net_Addr.socket_addr \<times> bool) option" where
  "direct_turn bindable offer S d =
     (let disabled = (get_option ''direct-server'' S = []); p = get_direct_port S in
      case d of
        Refused q \<Rightarrow> (if q = p then d else Idle, None)
      | Idle \<Rightarrow>
          if disabled then (Idle, None)
          else if bindable p then (Listening p, map_option (\<lambda>a. (a, False)) offer)
          else (Refused p, None)
      | Listening q \<Rightarrow>
          if disabled \<or> q \<noteq> p then (Idle, None) else (d, map_option (\<lambda>a. (a, False)) offer))"

record machine_info =
  mi_mac :: string
  mi_hostname :: string
  mi_username :: string
  mi_platform :: string

definition lan_answer ::
  "'e config_env_scheme \<Rightarrow> machine_info \<Rightarrow> rendezvous_message option \<Rightarrow> 's settings_scheme
     \<Rightarrow> rendezvous_message option \<times> 's settings_scheme" where
  "lan_answer E mi m S =
     (case m of
        Some (PeerDiscovery p) \<Rightarrow>
          if pd_cmd p = ''ping'' then
            (case Config.get_id E S of (i, S) \<Rightarrow>
              (Some (PeerDiscovery \<lparr>pd_cmd = ''pong'', pd_mac = mi_mac mi, pd_id = i, pd_username = mi_username mi,
                 pd_hostname = mi_hostname mi, pd_platform = mi_platform mi, pd_misc = []\<rparr>), S))
          else (None, S)
      | _ \<Rightarrow> (None, S))"

text \<open>What the search of the local network lists, out of the packets that came in time.\<close>

definition discovered :: "string \<Rightarrow> rendezvous_message option list \<Rightarrow> (string \<times> string \<times> string \<times> string) list" where
  "discovered mac ms =
     concat (map (\<lambda>m. case m of
       Some (PeerDiscovery p) \<Rightarrow>
         if pd_cmd p = ''pong'' \<and> pd_mac p \<noteq> mac then [(pd_id p, pd_username p, pd_hostname p, pd_platform p)] else []
     | _ \<Rightarrow> []) ms)"


subsection \<open>A silent server\<close>

fun med_run :: "('e med_env_scheme \<times> med_event) list \<Rightarrow> mediator \<Rightarrow> med_result \<times> mediator" where
  "med_run [] M = (Goes_On, M)"
| "med_run ((E, ev) # evs) M =
     (case med_step E ev M of
        (Goes_On, M) \<Rightarrow> med_run evs M
      | r \<Rightarrow> r)"

lemma register_pk_frame [simp]:
  "online (med_register_pk E M) = online M" "fails (med_register_pk E M) = fails M"
  "last_resp (med_register_pk E M) = last_resp M" "last_sent (med_register_pk E M) = last_sent M"
  "should_exit (med_register_pk E M) = should_exit M" "host (med_register_pk E M) = host M"
  "last_timer (med_register_pk E M) = last_timer M" "host_prefix (med_register_pk E M) = host_prefix M"
  "solving (med_register_pk E M) = solving M"
  by (auto simp: med_register_pk_def udp_send_def get_key_pair_def Config.get_id_def set_id_def store_config_def Let_def
      split: prod.splits option.splits)

lemma register_peer_frame [simp]:
  "online (med_register_peer E M) = online M" "fails (med_register_peer E M) = fails M"
  "last_resp (med_register_peer E M) = last_resp M" "last_sent (med_register_peer E M) = last_sent M"
  "should_exit (med_register_peer E M) = should_exit M" "host (med_register_peer E M) = host M"
  "last_timer (med_register_peer E M) = last_timer M" "solving (med_register_peer E M) = solving M"
  by (auto simp: med_register_peer_def udp_send_def Config.get_id_def set_id_def store_config_def Let_def
      split: prod.splits option.splits)

text \<open>What holds of the counters at time \<open>t\<close> once the server has answered.\<close>

definition counters_ok :: "nat \<Rightarrow> mediator \<Rightarrow> bool" where
  "counters_ok t M \<longleftrightarrow>
     (case (last_resp M, last_sent M) of
        (Some r, Some s) \<Rightarrow> r \<le> t \<and> s \<le> t \<and> (fails M = 0 \<or> fails M = 1 \<and> r \<le> s)
      | _ \<Rightarrow> False)"

lemma late_answer:
  assumes "timed_out E M" "last_resp M = Some r" "last_sent M = Some s"
  shows "s < r"
proof (rule ccontr)
  assume "\<not> s < r"
  then have "(now_us E - s) div 1000 \<le> (now_us E - r) div 1000" by (intro div_le_mono) simp
  with assms show False by (simp add: timed_out_def elapsed_ms_def RESPONSE_TIMEOUT_def)
qed

lemma silent_tick:
  assumes "counters_ok t M" "t \<le> now_us E" "\<not> should_exit M"
  shows "\<exists>M'. on_tick E M = (Goes_On, M') \<and> counters_ok (now_us E) M' \<and> \<not> should_exit M' \<and> online M' = online M"
proof -
  obtain r s where rs: "last_resp M = Some r" "last_sent M = Some s" "r \<le> t" "s \<le> t"
    "fails M = 0 \<or> fails M = 1 \<and> r \<le> s"
    using assms(1) by (auto simp: counters_ok_def split: option.splits)
  let ?M = "M\<lparr>last_timer := Some (now_us E)\<rparr>"
  have t: "timed_out E ?M = timed_out E M" by (simp add: timed_out_def)
  have f: "timed_out E M \<Longrightarrow> fails M = 0" using late_answer [OF _ rs(1,2)] rs(5) by auto
  show ?thesis
  proof (cases "timed_out E M")
    case True
    with f have "fails M = 0" by blast
    with True t rs assms show ?thesis
      by (simp add: on_tick_def Let_def on_timeout_def MAX_FAILS1_def MAX_FAILS2_def counters_ok_def split: option.splits)
  next
    case False
    with t rs assms show ?thesis
      by (auto simp: on_tick_def Let_def counters_ok_def split: option.splits)
  qed
qed

lemma silent_run:
  assumes "counters_ok t M" "sorted (t # map now_us Es)" "\<not> should_exit M"
  shows "\<exists>M'. med_run (map (\<lambda>E. (E, Tick)) Es) M = (Goes_On, M') \<and> online M' = online M \<and> fails M' \<le> 1"
  using assms
proof (induction Es arbitrary: t M)
  case Nil
  then show ?case by (auto simp: counters_ok_def split: option.splits)
next
  case (Cons E Es)
  then obtain M1 where "on_tick E M = (Goes_On, M1)" "counters_ok (now_us E) M1" "\<not> should_exit M1" "online M1 = online M"
    using silent_tick [of t M E] by auto
  with Cons.IH [of "now_us E" M1] Cons.prems(2) show ?case by (simp add: med_step_def)
qed

text \<open>
  C36: A server that falls silent is never noticed. Once a registration has been answered, however
  many timer ticks follow without another packet, the mediator goes on, counts at most one failure
  and leaves the server's latency in the settings as it was: the two limits of failures, after which
  the server would be marked as slow or unreachable and its name resolved again, are not reached.
\<close>

theorem silence_goes_unnoticed:
  assumes "last_resp M = Some r" "last_sent M = Some s" "fails M = 0" "\<not> should_exit M"
    and "sorted (max r s # map now_us Es)"
  shows "\<exists>M'. med_run (map (\<lambda>E. (E, Tick)) Es) M = (Goes_On, M') \<and> online M' = online M \<and> fails M' \<le> 1"
proof -
  have "counters_ok (max r s) M" using assms(1-3) by (simp add: counters_ok_def)
  from silent_run [OF this assms(5,4)] show ?thesis .
qed

definition sample_med_env :: med_env where
  "sample_med_env = config_env.extend sample_config_env \<lparr>now_us = 20000000, udp_ok = True, machine_id = Some [7, 7],
     dns_ok = True, rebind_ok = True, client_version = ''1.1.8'', licence = [], server_connects = True,
     server_sends = True, relay_connects = True, relay_sends = True, own_addr = SocketV4 10 0 0 2 4000, own_clock = 5,
     fresh_uuid = ''u-1''\<rparr>"

definition sample_med :: mediator where
  "sample_med = new_mediator sample_med_env ''rs.example.org'' []
     (default_settings\<lparr>config := default_config\<lparr>c_id := ''123456789'', key_pair := ([1], [2])\<rparr>\<rparr>)"

theorem silence_goes_unnoticed_witness:
  "\<exists>M'. med_run [(sample_med_env, Tick), (sample_med_env\<lparr>now_us := 40000000\<rparr>, Tick)]
     (sample_med\<lparr>last_resp := Some 5, last_sent := Some 4\<rparr>) = (Goes_On, M') \<and> online M' = [] \<and> fails M' \<le> 1"
proof -
  have "fails (sample_med\<lparr>last_resp := Some 5, last_sent := Some 4\<rparr>) = 0"
    "\<not> should_exit (sample_med\<lparr>last_resp := Some 5, last_sent := Some 4\<rparr>)"
    "online (sample_med\<lparr>last_resp := Some 5, last_sent := Some 4\<rparr>) = []"
    by (simp_all add: sample_med_def new_mediator_def settings.defs default_settings_def Let_def)
  with silence_goes_unnoticed [of "sample_med\<lparr>last_resp := Some 5, last_sent := Some 4\<rparr>" 5 4
      "[sample_med_env, sample_med_env\<lparr>now_us := 40000000\<rparr>]"]
  show ?thesis by (simp add: sample_med_env_def config_env.defs)
qed


subsection \<open>The mediator and the server together\<close>

text \<open>
  One timer tick of a mediator at the address \<open>addr\<close>, and the datagrams it leads to: what the mediator
  sends is handled by the server in order, what the server sends back to \<open>addr\<close> is handled by the
  mediator, for at most \<open>n\<close> exchanges.
\<close>

definition serve ::
  "'a hbbs_env_scheme \<Rightarrow> string \<Rightarrow> Net_Addr.socket_addr \<Rightarrow> rendezvous_message \<Rightarrow> server \<times> shared
     \<Rightarrow> rendezvous_message list \<times> server \<times> shared" where
  "serve Es key addr m sw =
     (case sw of (s, w) \<Rightarrow>
      case handle_udp Es (Some m) addr key s w of
        (_, s', w') \<Rightarrow> (map snd (filter (\<lambda>(a, _). a = addr) (drop (length (udp_out w)) (udp_out w'))), s', w'))"

fun serve_all ::
  "'a hbbs_env_scheme \<Rightarrow> string \<Rightarrow> Net_Addr.socket_addr \<Rightarrow> rendezvous_message list \<Rightarrow> server \<times> shared
     \<Rightarrow> rendezvous_message list \<times> server \<times> shared" where
  "serve_all Es key addr [] sw = ([], sw)"
| "serve_all Es key addr (m # ms) sw =
     (case serve Es key addr m sw of
        (as, sw) \<Rightarrow> (case serve_all Es key addr ms sw of (bs, sw) \<Rightarrow> (as @ bs, sw)))"

fun converse ::
  "nat \<Rightarrow> 'e med_env_scheme \<Rightarrow> 'a hbbs_env_scheme \<Rightarrow> string \<Rightarrow> Net_Addr.socket_addr \<Rightarrow> rendezvous_message list
     \<Rightarrow> mediator \<times> server \<times> shared \<Rightarrow> mediator \<times> server \<times> shared" where
  "converse 0 E Es key addr sent x = x"
| "converse (Suc n) E Es key addr sent (M, sw) =
     (if sent = [] then (M, sw)
      else case serve_all Es key addr sent sw of
        (answers, sw) \<Rightarrow>
          let M' = fold (on_packet E) answers M
          in converse n E Es key addr (drop (length (udp_sent M)) (udp_sent M')) (M', sw))"

definition med_round ::
  "nat \<Rightarrow> 'e med_env_scheme \<Rightarrow> 'a hbbs_env_scheme \<Rightarrow> string \<Rightarrow> Net_Addr.socket_addr
     \<Rightarrow> mediator \<times> server \<times> shared \<Rightarrow> mediator \<times> server \<times> shared" where
  "med_round n E Es key addr x =
     (case x of (M, sw) \<Rightarrow>
      let M' = snd (on_tick E M)
      in converse n E Es key addr (drop (length (udp_sent M)) (udp_sent M')) (M', sw))"

subsubsection \<open>The server's side\<close>

definition unknown_id :: "string \<Rightarrow> peer_map \<Rightarrow> bool" where
  "unknown_id i m \<longleftrightarrow> peers m i = None \<and> i \<notin> row_id ` set (db m)"

lemma get_or_unknown:
  assumes "unknown_id i m"
  shows "get_or E i m = (default_peer (now E), m\<lparr>peers := (peers m)(i \<mapsto> default_peer (now E))\<rparr>)"
proof -
  have "find (\<lambda>r. row_id r = i) (db m) = None" "peers m i = None"
    using assms by (auto simp: unknown_id_def find_None_iff)
  then have "get E i m = (None, m)" by (auto simp: get_def get_peer_def)
  with assms show ?thesis by (simp add: get_or_def unknown_id_def Let_def)
qed

definition at_server :: "string \<Rightarrow> Net_Addr.socket_addr \<Rightarrow> bytes \<Rightarrow> bytes \<Rightarrow> nat \<Rightarrow> shared \<Rightarrow> bool" where
  "at_server i addr u k t w \<longleftrightarrow>
     (\<exists>q. peers (pm w) i = Some q \<and> Peer_Map.socket_addr q = addr \<and> uuid q = u \<and> pk q = k \<and> last_reg_time q = t)"

lemma update_pk_at:
  "\<exists>q. peers (snd (update_pk Es i p addr u k a m)) i = Some q \<and> Peer_Map.socket_addr q = addr \<and> uuid q = u \<and> pk q = k
     \<and> last_reg_time q = now Es"
  by (auto simp: update_pk_def Let_def write_peer_def split: prod.splits sum.splits)

lemma server_registers:
  assumes "unknown_id (rk_id rk) (pm w)" "rk_uuid rk \<noteq> []" "rk_pk rk \<noteq> []" "length (rk_id rk) \<ge> 6"
    and "fst (check_ip_blocker Es (ip_to_string (ip addr)) (rk_id rk) w)"
    and "send_ok Es (RegisterPkResponse OK) addr"
  shows "\<exists>w'. serve Es key addr (RegisterPk rk) (s, w) = ([RegisterPkResponse OK], s, w') \<and>
    at_server (rk_id rk) addr (rk_uuid rk) (rk_pk rk) (now Es) w'"
proof -
  let ?i = "rk_id rk"
  obtain w1 where c: "check_ip_blocker Es (ip_to_string (ip addr)) ?i w = (True, w1)"
    using assms(5) by (metis prod.collapse)
  have w1: "pm w1 = pm w" "udp_out w1 = udp_out w"
    using c by (auto simp: check_ip_blocker_def Let_def split: option.splits if_splits)
  have g: "get_or Es ?i (pm w1) = (default_peer (now Es), (pm w)\<lparr>peers := (peers (pm w))(?i \<mapsto> default_peer (now Es))\<rparr>)"
    using get_or_unknown [OF assms(1)] w1 by simp
  obtain w2 where w2: "handle_register_pk Es addr rk w = send_rk_res Es addr OK w2" "udp_out w2 = udp_out w"
    "at_server ?i addr (rk_uuid rk) (rk_pk rk) (now Es) w2"
    using assms(2-4) c g w1 update_pk_at [of Es ?i]
    by (fastforce simp: handle_register_pk_def peer_change_def at_server_def Let_def)
  then show ?thesis using assms(6)
    by (auto simp: serve_def handle_udp_def send_rk_res_def socket_send_def at_server_def)
qed

lemma server_renews:
  assumes "at_server i addr u k t w" "k \<noteq> []" "i \<noteq> []" "port addr \<noteq> 0"
    and "serial (inner s) \<le> n" "send_ok Es (RegisterPeerResponse False) addr"
  shows "\<exists>w'. serve Es key addr (RegisterPeer \<lparr>rp_id = i, rp_serial = n\<rparr>) (s, w) = ([RegisterPeerResponse False], s, w') \<and>
    at_server i addr u k (now Es) w'"
  using assms
  by (auto simp: at_server_def serve_def handle_udp_def handle_register_peer_def update_addr_def get_in_memory_def
      socket_send_def write_peer_def Let_def)


subsubsection \<open>The mediator's side\<close>

lemma converse_nothing [simp]: "converse n E Es key addr [] x = x"
  by (cases n; cases x) simp_all

lemma converse_one:
  assumes "serve Es key addr m (s, w) = ([a], s, w')" "udp_sent (on_packet E a M) = udp_sent M" "0 < n"
  shows "converse n E Es key addr [m] (M, s, w) = (on_packet E a M, s, w')"
  using assms by (cases n) (simp_all add: Let_def)

lemma update_latency_frame [simp]:
  "config (Config.update_latency E h l M) = config M"
  "config2.serial (config2 (Config.update_latency E h l M)) = config2.serial (config2 M)"
  "udp_sent (Config.update_latency E h l M) = udp_sent M" "solving (Config.update_latency E h l M) = solving M"
  "should_exit (Config.update_latency E h l M) = should_exit M" "host_prefix (Config.update_latency E h l M) = host_prefix M"
  "last_resp (Config.update_latency E h l M) = last_resp M" "last_sent (Config.update_latency E h l M) = last_sent M"
  "fails (Config.update_latency E h l M) = fails M" "last_timer (Config.update_latency E h l M) = last_timer M"
  for M :: mediator
  by (simp_all add: Config.update_latency_def store_config2_def Let_def)

lemma answered [simp]:
  "config (med_update_latency E M) = config M"
  "config2.serial (config2 (med_update_latency E M)) = config2.serial (config2 M)"
  "udp_sent (med_update_latency E M) = udp_sent M" "solving (med_update_latency E M) = solving M"
  "should_exit (med_update_latency E M) = should_exit M" "host_prefix (med_update_latency E M) = host_prefix M"
  "last_resp (med_update_latency E M) = Some (now_us E)" "last_sent (med_update_latency E M) = last_sent M"
  "fails (med_update_latency E M) = 0" "last_timer (med_update_latency E M) = last_timer M"
  by (simp_all add: med_update_latency_def Let_def)

definition confirmed :: "string \<Rightarrow> mediator \<Rightarrow> bool" where
  "confirmed i M \<longleftrightarrow> c_id (config M) = i \<and> get_key_confirmed M \<and> get_host_key_confirmed (host_prefix M) M \<and>
     solving M = [] \<and> \<not> should_exit M"

text \<open>At time \<open>t\<close>, both sides know of the registration, and the last one is not old.\<close>

fun registered :: "string \<Rightarrow> Net_Addr.socket_addr \<Rightarrow> bytes \<Rightarrow> bytes \<Rightarrow> nat \<Rightarrow> mediator \<times> server \<times> shared \<Rightarrow> bool" where
  "registered i addr u k t (M, s, w) \<longleftrightarrow>
     confirmed i M \<and> serial (inner s) \<le> get_serial M \<and> counters_ok t M \<and>
     (\<exists>lt \<le> t. last_timer M = Some lt) \<and>
     (\<exists>r q. last_resp M = Some r \<and> t - r < 12000000 \<and> r div 1000 \<le> q \<and> at_server i addr u k q w)"

lemma confirmed_register_peer:
  assumes "confirmed i M" "i \<noteq> []" "udp_ok E"
  shows "med_register_peer E M = M\<lparr>udp_sent := udp_sent M @ [RegisterPeer \<lparr>rp_id = i, rp_serial = get_serial M\<rparr>]\<rparr>"
  using assms by (simp add: confirmed_def med_register_peer_def Config.get_id_def udp_send_def get_serial_def Let_def)

text \<open>A tick, when the server has answered before.\<close>

lemma tick_cases:
  assumes "counters_ok t M" "t \<le> now_us E" "\<not> should_exit M" "last_timer M = Some lt" "lt \<le> t" "t + 1000000 \<le> now_us E"
    and "last_resp M = Some r"
  obtains (quiet) "(now_us E - r) div 1000 < 12000" "snd (on_tick E M) = M\<lparr>last_timer := Some (now_us E)\<rparr>"
  | (sends) f where "f \<le> 1" "snd (on_tick E M) =
      (med_register_peer E (M\<lparr>last_timer := Some (now_us E)\<rparr>))\<lparr>last_sent := Some (now_us E), fails := f\<rparr>"
proof -
  let ?M = "M\<lparr>last_timer := Some (now_us E)\<rparr>"
  obtain s where rs: "last_sent M = Some s" "r \<le> t" "s \<le> t" "fails M = 0 \<or> fails M = 1 \<and> r \<le> s"
    using assms(1,7) by (auto simp: counters_ok_def split: option.splits)
  have t: "timed_out E ?M = timed_out E M" by (simp add: timed_out_def)
  have f: "timed_out E M \<Longrightarrow> fails M = 0" using late_answer [OF _ assms(7) rs(1)] rs(4) by auto
  have d: "elapsed_ms E (Some r) \<ge> REG_INTERVAL \<longleftrightarrow> \<not> (now_us E - r) div 1000 < 12000"
    by (simp add: elapsed_ms_def REG_INTERVAL_def not_less)
  show ?thesis
  proof (cases "timed_out E M")
    case True
    with f have "fails M = 0" by blast
    with True t assms have "snd (on_tick E M) =
        (med_register_peer E ?M)\<lparr>last_sent := Some (now_us E), fails := 1\<rparr>"
      by (simp add: on_tick_def Let_def on_timeout_def MAX_FAILS1_def MAX_FAILS2_def)
    with sends show ?thesis by blast
  next
    case False
    have g: "fails (med_register_peer E ?M) = fails M" by simp
    show ?thesis
    proof (cases "(now_us E - r) div 1000 < 12000")
      case True
      with False t d assms have "snd (on_tick E M) = ?M" by (simp add: on_tick_def Let_def)
      with True quiet show ?thesis by blast
    next
      case due: False
      with False t d assms have "snd (on_tick E M) = (med_register_peer E ?M)\<lparr>last_sent := Some (now_us E)\<rparr>"
        by (simp add: on_tick_def Let_def)
      also have "\<dots> = (med_register_peer E ?M)\<lparr>last_sent := Some (now_us E), fails := fails M\<rparr>"
        using g by (cases "med_register_peer E ?M") simp
      finally show ?thesis using sends [of "fails M"] rs(4) by auto
    qed
  qed
qed


lemma renewal:
  assumes r: "registered i addr u k t (M, s, w)" and i: "i \<noteq> []" "k \<noteq> []" "port addr \<noteq> 0"
    and e: "udp_ok E" "send_ok Es (RegisterPeerResponse False) addr" "now Es = now_us E div 1000" "0 < n"
    and t: "t + 1000000 \<le> now_us E"
  shows "registered i addr u k (now_us E) (med_round n E Es key addr (M, s, w))"
proof -
  obtain lt r q where c: "confirmed i M" "serial (inner s) \<le> get_serial M" "counters_ok t M" "lt \<le> t"
    "last_timer M = Some lt" "last_resp M = Some r" "t - r < 12000000" "r div 1000 \<le> q" "at_server i addr u k q w"
    using r by auto
  have tm: "t \<le> now_us E" "\<not> should_exit M" using t c(1) by (simp_all add: confirmed_def)
  show ?thesis
  proof (cases rule: tick_cases [OF c(3) tm c(5,4) t c(6), case_names quiet sends])
    case quiet
    then have "registered i addr u k (now_us E) (M\<lparr>last_timer := Some (now_us E)\<rparr>, s, w)"
      using c tm by (auto simp: confirmed_def counters_ok_def get_key_confirmed_def get_host_key_confirmed_def
          get_serial_def at_server_def split: option.splits)
    with quiet show ?thesis by (simp add: med_round_def Let_def)
  next
    case (sends f)
    let ?M = "M\<lparr>last_timer := Some (now_us E)\<rparr>"
    let ?m = "RegisterPeer \<lparr>rp_id = i, rp_serial = get_serial M\<rparr>"
    have "confirmed i ?M" using c(1) by (simp add: confirmed_def get_key_confirmed_def get_host_key_confirmed_def)
    from confirmed_register_peer [OF this i(1) e(1)] sends
    have m: "snd (on_tick E M) = ?M\<lparr>udp_sent := udp_sent M @ [?m], last_sent := Some (now_us E), fails := f\<rparr>" (is "_ = ?M2")
      by (simp add: get_serial_def)
    obtain w' where w': "serve Es key addr ?m (s, w) = ([RegisterPeerResponse False], s, w')"
      "at_server i addr u k (now Es) w'"
      using server_renews [OF c(9) i(2,1,3) c(2) e(2)] by blast
    have p: "on_packet E (RegisterPeerResponse False) ?M2 = med_update_latency E ?M2" by (simp add: on_packet_def Let_def)
    have "med_round n E Es key addr (M, s, w) = (med_update_latency E ?M2, s, w')"
      using converse_one [OF w'(1), of E ?M2 n] p e(4) m by (simp add: med_round_def)
    moreover have "confirmed i (med_update_latency E ?M2)"
      using c(1) by (simp add: confirmed_def get_key_confirmed_def get_host_key_confirmed_def)
    moreover have "get_serial (med_update_latency E ?M2) = get_serial M" by (simp add: get_serial_def)
    ultimately show ?thesis using c(2) w'(2) e(3) by (auto simp: counters_ok_def)
  qed
qed

subsubsection \<open>The first registration\<close>

lemma first_tick:
  assumes "should_exit M = False" "last_timer M = None" "last_resp M = None" "last_sent M = None" "solving M = []"
    and "\<not> get_key_confirmed M" "udp_ok E" "c_id (config M) = i" "i \<noteq> []" "key_pair (config M) = (sk', k)" "sk' \<noteq> []"
  shows "snd (on_tick E M) = M\<lparr>last_timer := Some (now_us E), last_id_pk_registry := i,
      udp_sent := udp_sent M @ [RegisterPk \<lparr>rk_id = i, rk_uuid = (case machine_id E of Some u \<Rightarrow> u | None \<Rightarrow> k), rk_pk = k,
        rk_old_id = []\<rparr>], last_sent := Some (now_us E)\<rparr>"
  using assms
  by (simp add: on_tick_def Let_def timed_out_def elapsed_ms_def RESPONSE_TIMEOUT_def REG_INTERVAL_def med_register_peer_def
      get_key_confirmed_def med_register_pk_def get_key_pair_def Config.get_id_def udp_send_def)

lemma confirmation:
  assumes "c_id (config M) = i" "\<not> should_exit M"
  shows "confirmed i (on_packet E (RegisterPkResponse OK) M)"
    "udp_sent (on_packet E (RegisterPkResponse OK) M) = udp_sent M"
    "get_serial (on_packet E (RegisterPkResponse OK) M) = get_serial M"
    "last_resp (on_packet E (RegisterPkResponse OK) M) = Some (now_us E)"
    "last_sent (on_packet E (RegisterPkResponse OK) M) = last_sent M"
    "last_timer (on_packet E (RegisterPkResponse OK) M) = last_timer M"
    "fails (on_packet E (RegisterPkResponse OK) M) = 0"
  using assms
  by (auto simp: on_packet_def Let_def confirmed_def set_key_confirmed_def set_host_key_confirmed_def
      get_host_key_confirmed_def get_key_confirmed_def store_config_def get_serial_def)


lemma first_round:
  fixes M :: mediator
  assumes "should_exit M = False" "last_timer M = None" "last_resp M = None" "last_sent M = None" "solving M = []"
      "fails M = 0" "\<not> get_key_confirmed M"
    and k: "c_id (config M) = i" "length i \<ge> 6" "key_pair (config M) = (sk', k)" "sk' \<noteq> []" "k \<noteq> []"
      "(case machine_id E of Some u \<Rightarrow> u | None \<Rightarrow> k) = u" "u \<noteq> []"
    and e: "udp_ok E" "send_ok Es (RegisterPkResponse OK) addr" "now Es = now_us E div 1000" "0 < n"
    and w: "unknown_id i (pm w)" "fst (check_ip_blocker Es (ip_to_string (ip addr)) i w)" "serial (inner s) \<le> get_serial M"
  shows "registered i addr u k (now_us E) (med_round n E Es key addr (M, s, w))"
proof -
  let ?rk = "\<lparr>rk_id = i, rk_uuid = u, rk_pk = k, rk_old_id = []\<rparr>"
  let ?M = "M\<lparr>last_timer := Some (now_us E), last_id_pk_registry := i, udp_sent := udp_sent M @ [RegisterPk ?rk],
    last_sent := Some (now_us E)\<rparr>"
  have i: "i \<noteq> []" using k(2) by auto
  have m: "snd (on_tick E M) = ?M"
    using first_tick [OF assms(1-5,7) e(1) k(1) i k(3,4)] k(6) by simp
  obtain w' where w': "serve Es key addr (RegisterPk ?rk) (s, w) = ([RegisterPkResponse OK], s, w')"
    "at_server i addr u k (now Es) w'"
    using server_registers [of ?rk w Es addr key s] w(1,2) k e(2) by auto
  have c: "c_id (config ?M) = i" "\<not> should_exit ?M" using k(1) assms(1) by simp_all
  let ?M' = "on_packet E (RegisterPkResponse OK) ?M"
  have "med_round n E Es key addr (M, s, w) = (?M', s, w')"
    using converse_one [OF w'(1), of E ?M n] confirmation(2) [OF c, of E] e(4) m by (simp add: med_round_def)
  moreover have "get_serial ?M = get_serial M" by (simp add: get_serial_def)
  ultimately show ?thesis using confirmation [OF c, of E] w'(2) w(3) e(3) by (auto simp: counters_ok_def)
qed

text \<open>The environments of further ticks; the clocks of the two sides agree.\<close>

fun med_rounds ::
  "nat \<Rightarrow> ('e med_env_scheme \<times> 'a hbbs_env_scheme) list \<Rightarrow> string \<Rightarrow> Net_Addr.socket_addr
     \<Rightarrow> mediator \<times> server \<times> shared \<Rightarrow> mediator \<times> server \<times> shared" where
  "med_rounds n [] key addr x = x"
| "med_rounds n ((E, Es) # es) key addr x = med_rounds n es key addr (med_round n E Es key addr x)"

fun steady :: "Net_Addr.socket_addr \<Rightarrow> nat \<Rightarrow> ('e med_env_scheme \<times> 'a hbbs_env_scheme) list \<Rightarrow> bool" where
  "steady addr t [] = True"
| "steady addr t ((E, Es) # es) =
     (t + 1000000 \<le> now_us E \<and> now_us E \<le> t + 17000000 \<and> udp_ok E \<and>
      send_ok Es (RegisterPeerResponse False) addr \<and> now Es = now_us E div 1000 \<and> steady addr (now_us E) es)"

definition last_time :: "nat \<Rightarrow> ('e med_env_scheme \<times> 'a hbbs_env_scheme) list \<Rightarrow> nat" where
  "last_time t es = (if es = [] then t else now_us (fst (last es)))"

lemma registered_rounds:
  assumes "registered i addr u k t x" "i \<noteq> []" "k \<noteq> []" "port addr \<noteq> 0" "0 < n" "steady addr t es"
  shows "registered i addr u k (last_time t es) (med_rounds n es key addr x)"
  using assms
proof (induction es arbitrary: t x)
  case Nil
  then show ?case by (simp add: last_time_def)
next
  case (Cons e es)
  obtain E Es where e: "e = (E, Es)" by force
  obtain M s w where x: "x = (M, s, w)" by (metis prod.exhaust)
  have "registered i addr u k (now_us E) (med_round n E Es key addr x)"
    using renewal [of i addr u k t M s w E Es n key] Cons.prems e x by simp
  from Cons.IH [OF this Cons.prems(2-5)] Cons.prems(6) e show ?case by (cases "es = []") (simp_all add: last_time_def)
qed

lemma registered_online:
  assumes "registered i addr u k t (M, s, w)" "1000 * now X \<le> t + 17000000"
  shows "\<exists>q. peers (pm w) i = Some q \<and> Peer_Map.socket_addr q = addr \<and> pk q = k \<and>
    elapsed_millis_i32 X (last_reg_time q) < REG_TIMEOUT"
proof -
  obtain r tq q where q: "t - r < 12000000" "r div 1000 \<le> tq" "peers (pm w) i = Some q" "Peer_Map.socket_addr q = addr"
    "pk q = k" "last_reg_time q = tq"
    using assms(1) by (auto simp: at_server_def)
  have "now X - tq < 30000" using q(1,2) assms(2) by linarith
  then have "elapsed_millis_i32 X (last_reg_time q) < REG_TIMEOUT"
    by (simp add: elapsed_millis_i32_def REG_TIMEOUT_def q(6) wrap_i32_id)
  with q show ?thesis by blast
qed

text \<open>
  C12: Registering with the rendezvous server. A machine whose id the server does not know becomes
  registered at the first timer tick of its mediator, and as long as further ticks come between one
  and 17 seconds apart it stays online for the server: at every moment until 17 seconds after the
  last tick, the server has its address and key, and counts it as online. The code renews a
  registration after 12 seconds and lets it expire after 30.
\<close>

theorem registration_stays_online:
  fixes M :: mediator
  assumes "should_exit M = False" "last_timer M = None" "last_resp M = None" "last_sent M = None" "solving M = []"
      "fails M = 0" "\<not> get_key_confirmed M"
    and "c_id (config M) = i" "length i \<ge> 6" "key_pair (config M) = (sk', k)" "sk' \<noteq> []" "k \<noteq> []"
      "(case machine_id E of Some u \<Rightarrow> u | None \<Rightarrow> k) = u" "u \<noteq> []"
    and "udp_ok E" "send_ok Es (RegisterPkResponse OK) addr" "now Es = now_us E div 1000" "0 < n"
    and "unknown_id i (pm w)" "fst (check_ip_blocker Es (ip_to_string (ip addr)) i w)" "serial (inner s) \<le> get_serial M"
    and "port addr \<noteq> 0" "steady addr (now_us E) es" "1000 * now X \<le> last_time (now_us E) es + 17000000"
    and "med_rounds n ((E, Es) # es) key addr (M, s, w) = (M', s', w')"
  shows "confirmed i M' \<and> (\<exists>q. peers (pm w') i = Some q \<and> Peer_Map.socket_addr q = addr \<and> pk q = k \<and>
    elapsed_millis_i32 X (last_reg_time q) < REG_TIMEOUT)"
proof -
  have "registered i addr u k (now_us E) (med_round n E Es key addr (M, s, w))" by (rule first_round [OF assms(1-21)])
  from registered_rounds [OF this _ assms(12,22,18,23), of key] assms(9,25)
  have "registered i addr u k (last_time (now_us E) es) (M', s', w')" by (cases "i = []") simp_all
  with registered_online [OF this assms(24)] show ?thesis by auto
qed

definition sample_med_hbbs :: hbbs_env where
  "sample_med_hbbs = sample_hbbs\<lparr>now := 20000\<rparr>"

theorem registration_stays_online_witness:
  "\<exists>M' s' w' q. med_rounds 2 [(sample_med_env, sample_med_hbbs),
       (sample_med_env\<lparr>now_us := 33000000\<rparr>, sample_med_hbbs\<lparr>now := 33000\<rparr>)] [] (SocketV4 1 2 3 4 5)
       (sample_med, sample_server, sample_shared) = (M', s', w') \<and>
     peers (pm w') ''123456789'' = Some q \<and> Peer_Map.socket_addr q = SocketV4 1 2 3 4 5 \<and> pk q = [2] \<and>
     elapsed_millis_i32 (sample_med_hbbs\<lparr>now := 49000\<rparr>) (last_reg_time q) < REG_TIMEOUT"
proof -
  let ?es = "[(sample_med_env\<lparr>now_us := 33000000\<rparr>, sample_med_hbbs\<lparr>now := 33000\<rparr>)]"
  obtain M' s' w' where r: "med_rounds 2 ((sample_med_env, sample_med_hbbs) # ?es) [] (SocketV4 1 2 3 4 5)
      (sample_med, sample_server, sample_shared) = (M', s', w')" by (metis prod.exhaust)
  have m: "should_exit sample_med = False" "last_timer sample_med = None" "last_resp sample_med = None"
    "last_sent sample_med = None" "solving sample_med = []" "fails sample_med = 0" "\<not> get_key_confirmed sample_med"
    "c_id (config sample_med) = ''123456789''" "length ''123456789'' \<ge> 6" "key_pair (config sample_med) = ([1], [2])"
    by (simp_all add: sample_med_def new_mediator_def settings.defs default_settings_def default_config_def Let_def
        get_key_confirmed_def)
  have k: "[1] \<noteq> ([] :: bytes)" "[2] \<noteq> ([] :: bytes)" "(case machine_id sample_med_env of Some u \<Rightarrow> u | None \<Rightarrow> [2]) = [7, 7]"
    "[7, 7] \<noteq> ([] :: bytes)" "udp_ok sample_med_env" "send_ok sample_med_hbbs (RegisterPkResponse OK) (SocketV4 1 2 3 4 5)"
    "now sample_med_hbbs = now_us sample_med_env div 1000" "0 < (2 :: nat)"
    by (simp_all add: sample_med_env_def config_env.defs sample_med_hbbs_def sample_hbbs_def)
  have w: "unknown_id ''123456789'' (pm sample_shared)"
    "fst (check_ip_blocker sample_med_hbbs (ip_to_string (ip (SocketV4 1 2 3 4 5))) ''123456789'' sample_shared)"
    "serial (inner sample_server) \<le> get_serial sample_med" "port (SocketV4 1 2 3 4 5) \<noteq> 0"
    by (simp_all add: unknown_id_def sample_shared_def check_ip_blocker_def sample_server_def get_serial_def SERIAL_def)
  have t: "steady (SocketV4 1 2 3 4 5) (now_us sample_med_env) ?es"
    "1000 * now (sample_med_hbbs\<lparr>now := 49000\<rparr>) \<le> last_time (now_us sample_med_env) ?es + 17000000"
    by (simp_all add: sample_med_env_def config_env.defs sample_med_hbbs_def sample_hbbs_def last_time_def)
  from registration_stays_online [OF m k w t r] r show ?thesis by blast
qed


subsection \<open>A hole is punched\<close>

lemma mangle_nonempty:
  assumes "mangle_decode bs = Some addr" "port addr \<noteq> 0"
  shows "bs \<noteq> []"
proof
  assume "bs = []"
  moreover have "(of_le_bytes (replicate 16 0) :: u128) = 0"
    using of_le_bytes_append_zeros [of "[]" 16, where 'a = 128] by simp
  ultimately have "addr = unmangle_number 0" using assms(1) by (simp add: mangle_decode_def)
  with assms(2) show False by (simp add: unmangle_number_def Let_def)
qed

lemma task_of_punch_hole:
  fixes M :: mediator
  assumes "mangle_decode m = Some addr" "\<not> is_symmetric t M" "c_id (config M) = i" "i \<noteq> []"
    and "server_connects E" "server_sends E"
  shows "\<exists>phs. run_task E (host M) (last (med_tasks (on_packet E (PunchHole m relay t) M))) M =
      (Done (), [OpenHole addr, ToServer (PunchHoleSent phs), Session addr True], M) \<and>
    phs_socket_addr phs = m \<and> phs_id phs = i \<and> phs_relay_server phs = med_relay_server (host M) relay M \<and>
    phs_version phs = client_version E"
  using assms
  by (simp add: on_packet_def run_task_def handle_punch_hole_def Config.get_id_def Let_def)

lemma signed_key:
  assumes "Rendezvous_Server.sk (inner s) = Some kk" "v \<noteq> []" "peers (pm w) i = Some p"
  shows "fst (get_pk E s v i w) = sign E (id_pk_bytes E i (pk p)) kk"
  using assms by (simp add: get_pk_def get_def)

text \<open>
  C13: Punching a hole, through all three programs. A asks the server over TCP for the peer B, which is
  online, not in A's network, and neither of them behind a symmetric NAT; the server sends B's
  mediator a message, whose task opens a hole to A's address, reports to the server over a new
  connection and waits there for A with encryption on. The report of that task makes the server
  answer A's waiting connection with the address B reported from and B's relay server, which is what
  A's \<open>start\<close> reads out of it; with a key of the server, the answer carries B's registered key signed
  for B's id.
\<close>

theorem punch_hole_end_to_end:
  fixes MB :: mediator
  assumes "key = [] \<or> ph_licence_key ph = key" "peers (pm w) (ph_id ph) = Some p"
    "elapsed_millis_i32 E (last_reg_time p) < REG_TIMEOUT" "\<not> always_use_relay w" "mask (inner s) = None"
    "addr_a = SocketV4 a b c d n" "addr_b = SocketV4 a' b' c' d' n'" "n' \<noteq> 0"
    "\<not> same_intranet ws (Peer_Map.socket_addr p) addr_a"
    and "\<not> is_symmetric (ph_nat_type ph) MB" "c_id (config MB) = ph_id ph" "ph_id ph \<noteq> []" "server_connects EB"
    "server_sends EB" "client_version EB \<noteq> []"
    and "handle_tcp E s (Some (PunchHoleRequest ph)) (Some k) addr_a key ws w = (res1, k1, w1)"
  shows "\<exists>m relay phs. tx w1 = tx w @ [Msg (PunchHole m relay (ph_nat_type ph)) (Peer_Map.socket_addr p)] \<and>
    run_task EB (host MB) (last (med_tasks (on_packet EB (PunchHole m relay (ph_nat_type ph)) MB))) MB =
      (Done (), [OpenHole addr_a, ToServer (PunchHoleSent phs), Session addr_a True], MB) \<and>
    (\<forall>kb ws' res2 k2 w2. handle_tcp E' s (Some (PunchHoleSent phs)) kb addr_b key ws' w1 = (res2, k2, w2) \<longrightarrow>
      (\<exists>r. tcp_out w2 = tcp_out w1 @ [(k, PunchHoleResponse r)] \<and> tcp_punch w2 addr_a = None \<and>
        pr_relay_server r = med_relay_server (host MB) relay MB \<and>
        (\<forall>kk. Rendezvous_Server.sk (inner s) = Some kk \<longrightarrow> pr_pk r = sign E' (id_pk_bytes E' (ph_id ph) (pk p)) kk) \<and>
        (\<forall>(EA :: net_env) S i is. request_sent EA (PunchHoleRequest ph) = Inr () \<longrightarrow>
          punch_answer EA i = Answer (PunchHoleResponse r) \<longrightarrow>
          fst (punch_attempts EA (PunchHoleRequest ph) (i # is) S) = Done (Hole r addr_b))))"
proof -
  obtain m relay where m: "tx w1 = tx w @ [Msg (PunchHole m relay (ph_nat_type ph)) (Peer_Map.socket_addr p)]"
    "pm w1 = pm w" "mangle_decode m = Some addr_a"
    and reply: "\<And>phs kb ws' res2 k2 w2. phs_socket_addr phs = m \<Longrightarrow>
       handle_tcp E' s (Some (PunchHoleSent phs)) kb addr_b key ws' w1 = (res2, k2, w2) \<Longrightarrow>
       \<exists>r. tcp_out w2 = tcp_out w1 @ [(k, PunchHoleResponse r)] \<and>
          mangle_decode (pr_socket_addr r) = Some addr_b \<and> pr_relay_server r = phs_relay_server phs \<and>
          pr_pk r = fst (get_pk E' s (phs_version phs) (phs_id phs) w1) \<and> tcp_punch w2 addr_a = None"
    using punch_hole_answer [OF assms(1-7,9,16), of E'] by blast
  obtain phs where phs: "run_task EB (host MB) (last (med_tasks (on_packet EB (PunchHole m relay (ph_nat_type ph)) MB))) MB =
      (Done (), [OpenHole addr_a, ToServer (PunchHoleSent phs), Session addr_a True], MB)"
    "phs_socket_addr phs = m" "phs_id phs = ph_id ph" "phs_relay_server phs = med_relay_server (host MB) relay MB"
    "phs_version phs = client_version EB"
    using task_of_punch_hole [OF m(3) assms(10,11,12,13,14)] by blast
  have pb: "peers (pm w1) (ph_id ph) = Some p" using m(2) assms(2) by simp
  have sent: "\<exists>r. tcp_out w2 = tcp_out w1 @ [(k, PunchHoleResponse r)] \<and> tcp_punch w2 addr_a = None \<and>
        pr_relay_server r = med_relay_server (host MB) relay MB \<and>
        (\<forall>kk. Rendezvous_Server.sk (inner s) = Some kk \<longrightarrow> pr_pk r = sign E' (id_pk_bytes E' (ph_id ph) (pk p)) kk) \<and>
        (\<forall>(EA :: net_env) S i is. request_sent EA (PunchHoleRequest ph) = Inr () \<longrightarrow>
          punch_answer EA i = Answer (PunchHoleResponse r) \<longrightarrow>
          fst (punch_attempts EA (PunchHoleRequest ph) (i # is) S) = Done (Hole r addr_b))"
    if h: "handle_tcp E' s (Some (PunchHoleSent phs)) kb addr_b key ws' w1 = (res2, k2, w2)" for kb ws' res2 k2 w2
  proof -
    obtain r where r: "tcp_out w2 = tcp_out w1 @ [(k, PunchHoleResponse r)]" "mangle_decode (pr_socket_addr r) = Some addr_b"
      "pr_relay_server r = phs_relay_server phs" "pr_pk r = fst (get_pk E' s (phs_version phs) (phs_id phs) w1)"
      "tcp_punch w2 addr_a = None"
      using reply [OF phs(2) h] by blast
    have "pr_socket_addr r \<noteq> []" using mangle_nonempty [OF r(2)] assms(7,8) by simp
    then have "fst (punch_attempts EA (PunchHoleRequest ph) (i # is) S) = Done (Hole r addr_b)"
      if "request_sent EA (PunchHoleRequest ph) = Inr ()" "punch_answer EA i = Answer (PunchHoleResponse r)"
      for EA :: net_env and S i "is"
      using that r(2) by (simp add: request_def)
    moreover have "pr_pk r = sign E' (id_pk_bytes E' (ph_id ph) (pk p)) kk" if "Rendezvous_Server.sk (inner s) = Some kk" for kk
      using signed_key [OF that _ pb] assms(15) r(4) phs(3,5) by simp
    ultimately show ?thesis using r phs(4) by auto
  qed
  with m(1) phs(1) show ?thesis by blast
qed


theorem punch_hole_end_to_end_witness:
  "\<exists>m relay w1. handle_tcp sample_hbbs sample_server (Some (PunchHoleRequest sample_request)) (Some (TcpStream 0))
       (SocketV4 1 2 3 4 5) [] False sample_shared = (Done True, None, w1) \<and>
     tx w1 = [Msg (PunchHole m relay (Known ASYMMETRIC)) (SocketV4 9 9 9 9 50)]"
proof -
  let ?B = "new_mediator sample_med_env ''rs.example.org'' [] (default_settings\<lparr>config := default_config\<lparr>c_id := ''desk01''\<rparr>\<rparr>)"
  obtain r k w1 where h: "handle_tcp sample_hbbs sample_server (Some (PunchHoleRequest sample_request))
      (Some (TcpStream 0)) (SocketV4 1 2 3 4 5) [] False sample_shared = (r, k, w1)"
    by (metis prod.collapse)
  have e: "elapsed_millis_i32 sample_hbbs (last_reg_time sample_peer) < REG_TIMEOUT"
    by (simp add: elapsed_millis_i32_def sample_hbbs_def sample_peer_def REG_TIMEOUT_def wrap_i32_def)
  have p: "peers (pm sample_shared) (ph_id sample_request) = Some sample_peer" "\<not> always_use_relay sample_shared"
    "mask (inner sample_server) = None" "tx sample_shared = []" "ph_nat_type sample_request = Known ASYMMETRIC"
    "Peer_Map.socket_addr sample_peer = SocketV4 9 9 9 9 50"
    by (simp_all add: sample_shared_def sample_request_def sample_server_def sample_peer_def)
  have n: "\<not> same_intranet False (Peer_Map.socket_addr sample_peer) (SocketV4 1 2 3 4 5)"
    by (simp add: same_intranet_def sample_peer_def)
  have b: "\<not> is_symmetric (ph_nat_type sample_request) ?B" "c_id (config ?B) = ph_id sample_request" "ph_id sample_request \<noteq> []"
    "server_connects sample_med_env" "server_sends sample_med_env" "client_version sample_med_env \<noteq> []"
    by (simp_all add: is_symmetric_def sample_request_def get_nat_type_def new_mediator_def settings.defs default_settings_def
        default_config2_def Let_def sample_med_env_def config_env.defs)
  have z: "(50 :: u16) \<noteq> 0" by simp
  have "r = Done True" "k = None"
    using h handle_punch_of_online [OF disjI1 [OF refl], of sample_shared sample_request sample_peer sample_hbbs
        sample_server "SocketV4 1 2 3 4 5" _ False] e p
    by (auto simp: handle_tcp_def handle_tcp_punch_hole_request_def handle_punch_hole_request_def
        park_sink_def get_def is_lan_def Let_def split: prod.splits outcome.splits option.splits if_splits)
  moreover have "\<exists>m relay. tx w1 = tx sample_shared @ [Msg (PunchHole m relay (ph_nat_type sample_request)) (Peer_Map.socket_addr sample_peer)]"
    using punch_hole_end_to_end [where key = "[]" and addr_a = "SocketV4 1 2 3 4 5" and addr_b = "SocketV4 9 9 9 9 50"
        and E' = sample_hbbs, OF disjI1 [OF refl] p(1) e p(2,3) refl refl z n b h] by blast
  ultimately show ?thesis using h p(4-6) by auto
qed


subsection \<open>An id that another machine has\<close>

lemma new_id_after_mismatch:
  fixes M :: mediator
  assumes "last_id_pk_registry M = i" "c_id (config M) = i" "i \<noteq> []" "solving M = [] \<or> solving M = host M"
    and "key_pair (config M) = (sk', k)" "sk' \<noteq> []" "udp_ok E"
    and new: "j = show_nat (1000000000 + rng M 0 mod 1000000000)" "j \<noteq> []"
    and h: "handle_uuid_mismatch E M = M'"
  shows "c_id (config M') = j" "\<not> get_key_confirmed M'" "solving M' = host M" "host M' = host M"
    "udp_sent M' = udp_sent M @ [RegisterPk \<lparr>rk_id = j, rk_uuid = (case machine_id E of Some u \<Rightarrow> u | None \<Rightarrow> k), rk_pk = k,
       rk_old_id = []\<rparr>]"
  using assms(1-7,9) unfolding h [symmetric] new(1)
  by (auto simp: handle_uuid_mismatch_def Config.get_id_def update_id_def set_id_def store_config_def set_key_confirmed_def
      get_key_confirmed_def med_register_pk_def get_key_pair_def udp_send_def Let_def)

definition leaves_mismatch :: "med_event \<Rightarrow> bool" where
  "leaves_mismatch ev \<longleftrightarrow>
     (case ev of
        Packet (Some (RegisterPkResponse r)) \<Rightarrow> r = OK \<or> r = UUID_MISMATCH
      | Packet (Some (RegisterPeerResponse _)) \<Rightarrow> True
      | _ \<Rightarrow> False)"

lemma on_configure_frame [simp]: "udp_sent (on_configure E cu M) = udp_sent M" "solving (on_configure E cu M) = solving M"
  by (simp_all add: on_configure_def set_option_def set_serial_def store_config2_def Let_def)

lemma stuck_tick:
  assumes "solving M \<noteq> []"
  shows "udp_sent (snd (on_tick E M)) = udp_sent M \<and> solving (snd (on_tick E M)) = solving M"
  using assms by (simp add: on_tick_def on_timeout_def med_register_peer_def Let_def)

lemma stuck_step:
  assumes "solving M \<noteq> []" "\<not> leaves_mismatch ev" "med_step E ev M = (r, M')"
  shows "udp_sent M' = udp_sent M \<and> solving M' = solving M"
proof (cases ev)
  case (Packet m)
  with assms show ?thesis
    by (auto simp: med_step_def on_packet_def leaves_mismatch_def Let_def
        split: option.splits rendezvous_message.splits register_pk_result.splits)
next
  case SocketFailure
  with assms(3) show ?thesis by (simp add: med_step_def)
next
  case Tick
  with stuck_tick [OF assms(1), of E] assms(3) show ?thesis by (simp add: med_step_def)
qed

lemma stuck_run:
  assumes "solving M \<noteq> []" "list_all (\<lambda>e. \<not> leaves_mismatch (snd e)) evs"
  shows "udp_sent (snd (med_run evs M)) = udp_sent M \<and> solving (snd (med_run evs M)) = solving M"
  using assms
proof (induction evs arbitrary: M)
  case Nil
  then show ?case by simp
next
  case (Cons e evs)
  obtain E ev where e: "e = (E, ev)" by force
  obtain r M1 where s: "med_step E ev M = (r, M1)" by force
  have "udp_sent M1 = udp_sent M \<and> solving M1 = solving M"
    using stuck_step [OF Cons.prems(1) _ s] Cons.prems(2) e by simp
  with Cons e s show ?case by (cases r) simp_all
qed



subsection \<open>The listener for direct connections\<close>

text \<open>
  Connections by address are accepted only while the option is on and on the port that is set then.
\<close>

lemma direct_needs_option:
  assumes "direct_turn bindable offer S d = (d', Some x)"
  shows "get_option ''direct-server'' S \<noteq> [] \<and> d' = Listening (get_direct_port S) \<and> \<not> snd x"
  using assms by (auto simp: direct_turn_def Let_def split: direct_state.splits if_splits)

lemma discovered_iff:
  "(i, u, h, pl) \<in> set (discovered mac ms) \<longleftrightarrow>
     (\<exists>p. Some (PeerDiscovery p) \<in> set ms \<and> pd_cmd p = ''pong'' \<and> pd_mac p \<noteq> mac \<and>
       pd_id p = i \<and> pd_username p = u \<and> pd_hostname p = h \<and> pd_platform p = pl)"
proof (induction ms)
  case Nil
  then show ?case by (simp add: discovered_def)
next
  case (Cons m ms)
  have "discovered mac (m # ms) = discovered mac [m] @ discovered mac ms" by (simp add: discovered_def)
  moreover have "(i, u, h, pl) \<in> set (discovered mac [m]) \<longleftrightarrow> (\<exists>p. m = Some (PeerDiscovery p) \<and> pd_cmd p = ''pong'' \<and>
      pd_mac p \<noteq> mac \<and> pd_id p = i \<and> pd_username p = u \<and> pd_hostname p = h \<and> pd_platform p = pl)"
    by (cases m; cases "the m") (auto simp: discovered_def)
  ultimately show ?case using Cons.IH by auto
qed

end
