(* ===== verification/Cm.thy ===== *)
theory Cm
  imports Connection
begin

text \<open>
  The connection manager, \<open>src/ui/cm.rs\<close>: the process of the logged-on user beside the service. It
  shows the sessions, passes on what the user decides about them, and does the file operations of
  the peers. Every session has a stream of the local channel (\<open>cm_stream\<close>, a task of its own with its
  write jobs); they share the process (\<open>cm_world\<close>). Streams are numbered, and a number stands for the
  sending half of the queue into a stream. The user interface is the list of what it is told.
\<close>

record cm_env = config_env +
  cm_fs :: fs_env
  home_dir :: string
  cm_tree :: "string \<Rightarrow> node option"
  remove_file_error :: "string \<Rightarrow> string option"
  create_dir_error :: "string \<Rightarrow> string option"
  remove_dir_error :: "string \<Rightarrow> bool \<Rightarrow> string option"
  reply_sent :: "message \<Rightarrow> bool"
  cliprdr_ok :: bool

record cm_client =
  cl_id :: int
  cl_authorized :: bool
  cl_disconnected :: bool
  cl_is_file_transfer :: bool
  cl_port_forward :: string
  cl_name :: string
  cl_peer_id :: string
  cl_keyboard :: bool
  cl_clipboard :: bool
  cl_audio :: bool
  cl_file :: bool
  cl_tx :: nat

datatype cm_call = NewMessage int string | AddConnection cm_client | RemoveConnection int

datatype clipboard_file_data = Clip int clipbaord_file | Enable int bool

datatype dir_operation = CreateDirectory string | RemoveDirectory string bool

record cm_world = settings +
  cm_clients :: "int \<rightharpoonup> cm_client"
  cm_click_time :: int
  cm_senders :: "(int \<times> nat) list"
  cm_calls :: "cm_call list"
  mails :: "(nat \<times> ipc_data) list"
  tx_clip_file :: "clipboard_file_data list"
  cm_disk :: disk
  dir_operations :: "dir_operation list"
  cm_exited :: bool

record cm_stream =
  stream_no :: nat
  stream_conn :: int
  write_jobs :: "transfer_job list"
  replies :: "message list"
  stream_open :: bool

definition new_cm_stream :: "nat \<Rightarrow> cm_stream" where
  "new_cm_stream n = \<lparr>stream_no = n, stream_conn = 0, write_jobs = [], replies = [], stream_open = True\<rparr>"

subsection \<open>Sessions\<close>

definition ui_call :: "cm_call \<Rightarrow> cm_world \<Rightarrow> cm_world" where
  "ui_call c W = W\<lparr>cm_calls := cm_calls W @ [c]\<rparr>"

text \<open>Disconnected entries of the same peer give way; the file permission is what was stored for the peer.\<close>

definition cm_add_connection :: "cm_client \<Rightarrow> cm_world \<Rightarrow> cm_world" where
  "cm_add_connection c W =
     (let kept = (\<lambda>i. case cm_clients W i of
            Some c' \<Rightarrow> if cl_disconnected c' \<and> cl_peer_id c' = cl_peer_id c then None else Some c' | None \<Rightarrow> None);
          W = ui_call (AddConnection c) (W\<lparr>cm_clients := kept(cl_id c \<mapsto> c)\<rparr>)
      in W\<lparr>cm_senders := AList.update (cl_id c) (cl_tx c) (cm_senders W)\<rparr>)"

text \<open>The process ends with the last session, before the user interface is told.\<close>

definition cm_remove_connection :: "int \<Rightarrow> cm_world \<Rightarrow> cm_world" where
  "cm_remove_connection i W =
     (let W = W\<lparr>cm_clients := (cm_clients W)(i := None), cm_senders := AList.delete i (cm_senders W)\<rparr>
      in if cm_senders W = [] then W\<lparr>cm_exited := True\<rparr> else ui_call (RemoveConnection i) W)"

definition to_session :: "int \<Rightarrow> ipc_data \<Rightarrow> cm_world \<Rightarrow> cm_world" where
  "to_session i d W =
     (case map_of (cm_senders W) i of Some n \<Rightarrow> W\<lparr>mails := mails W @ [(n, d)]\<rparr> | None \<Rightarrow> W)"

definition cm_switch_permission :: "int \<Rightarrow> string \<Rightarrow> bool \<Rightarrow> cm_world \<Rightarrow> cm_world" where
  "cm_switch_permission i n b = to_session i (ISwitchPermission n b)"

definition cm_close :: "int \<Rightarrow> cm_world \<Rightarrow> cm_world" where
  "cm_close i = to_session i IClose"

definition cm_send_msg :: "int \<Rightarrow> string \<Rightarrow> cm_world \<Rightarrow> cm_world" where
  "cm_send_msg i t = to_session i (IChatMessage t)"

definition cm_authorize :: "int \<Rightarrow> cm_world \<Rightarrow> cm_world" where
  "cm_authorize i = to_session i IAuthorize"

definition check_click_time :: "int \<Rightarrow> cm_world \<Rightarrow> cm_world" where
  "check_click_time i W =
     (case cm_clients W i of Some c \<Rightarrow> W\<lparr>mails := mails W @ [(cl_tx c, IClickTime 0)]\<rparr> | None \<Rightarrow> W)"

subsection \<open>Files\<close>

definition cm_send :: "'e cm_env_scheme \<Rightarrow> message \<Rightarrow> cm_stream \<Rightarrow> cm_stream" where
  "cm_send E m st = (if reply_sent E m then st\<lparr>replies := replies st @ [m]\<rparr> else st)"

definition cm_read_dir :: "'e cm_env_scheme \<Rightarrow> string \<Rightarrow> bool \<Rightarrow> cm_stream \<Rightarrow> cm_stream" where
  "cm_read_dir E dir hid st =
     (let p = (if dir = [] then home_dir E else dir) in
      case cm_tree E p of
        None \<Rightarrow> st
      | Some nd \<Rightarrow>
          (case read_dir nd hid of None \<Rightarrow> st | Some fs \<Rightarrow> cm_send E (FileResponse (FDir 0 p fs)) st))"

definition handle_result :: "'e cm_env_scheme \<Rightarrow> string option \<Rightarrow> int \<Rightarrow> int \<Rightarrow> cm_stream \<Rightarrow> cm_stream" where
  "handle_result E err i n st = cm_send E (case err of Some e \<Rightarrow> new_error i e n | None \<Rightarrow> new_done i n) st"

definition cm_remove_file :: "'e cm_env_scheme \<Rightarrow> string \<Rightarrow> int \<Rightarrow> int \<Rightarrow> cm_stream \<times> cm_world \<Rightarrow> cm_stream \<times> cm_world" where
  "cm_remove_file E p i n x =
     (case x of (st, W) \<Rightarrow>
      let err = remove_file_error E p in
      (handle_result E err i n st,
       if err = None then W\<lparr>cm_disk := (cm_disk W)\<lparr>contents := (contents (cm_disk W))(p := None)\<rparr>\<rparr> else W))"

definition cm_create_dir :: "'e cm_env_scheme \<Rightarrow> string \<Rightarrow> int \<Rightarrow> cm_stream \<times> cm_world \<Rightarrow> cm_stream \<times> cm_world" where
  "cm_create_dir E p i x =
     (case x of (st, W) \<Rightarrow>
      (handle_result E (create_dir_error E p) i 0 st, W\<lparr>dir_operations := dir_operations W @ [CreateDirectory p]\<rparr>))"

definition cm_remove_dir :: "'e cm_env_scheme \<Rightarrow> string \<Rightarrow> int \<Rightarrow> bool \<Rightarrow> cm_stream \<times> cm_world \<Rightarrow> cm_stream \<times> cm_world" where
  "cm_remove_dir E p i rec x =
     (case x of (st, W) \<Rightarrow>
      (handle_result E (remove_dir_error E p rec) i 0 st,
       W\<lparr>dir_operations := dir_operations W @ [RemoveDirectory p rec]\<rparr>))"

text \<open>The jobs of a list with one of them, found by \<open>get_job\<close>, changed in place.\<close>

definition put_job :: "transfer_job \<Rightarrow> transfer_job list \<Rightarrow> transfer_job list" where
  "put_job j js =
     (let pre = takeWhile (\<lambda>x. job_id x \<noteq> job_id j) js in pre @ j # drop (Suc (length pre)) js)"

definition named_entry :: "string \<times> nat \<Rightarrow> file_entry" where
  "named_entry f = \<lparr>entry_type = Dir, f_name = fst f, is_hidden = False, f_size = 0, modified_time = snd f\<rparr>"

text \<open>A panic ends the task of the stream; \<open>raw\<close> is what the channel brings after a block.\<close>

fun cm_handle_fs ::
  "'e cm_env_scheme \<Rightarrow> fs_request \<Rightarrow> bytes option \<Rightarrow> cm_stream \<times> cm_world \<Rightarrow> cm_stream \<times> cm_world" where
  "cm_handle_fs E (FsReadDir dir hid) raw (st, W) = (cm_read_dir E dir hid st, W)"
| "cm_handle_fs E (FsRemoveDir p i rec) raw x = cm_remove_dir E p i rec x"
| "cm_handle_fs E (FsRemoveFile p i n) raw x = cm_remove_file E p i n x"
| "cm_handle_fs E (FsCreateDir p i) raw x = cm_create_dir E p i x"
| "cm_handle_fs E (FsNewWrite p i fs) raw (st, W) =
     (st\<lparr>write_jobs := write_jobs st @ [new_write i p (map named_entry fs)]\<rparr>, W)"
| "cm_handle_fs E (FsCancelWrite i) raw (st, W) =
     (case get_job i (write_jobs st) of
        Some j \<Rightarrow> (st\<lparr>write_jobs := remove_job i (write_jobs st)\<rparr>, W\<lparr>cm_disk := remove_download_file j (cm_disk W)\<rparr>)
      | None \<Rightarrow> (st, W))"
| "cm_handle_fs E (FsWriteDone i n) raw (st, W) =
     (case get_job i (write_jobs st) of
        Some j \<Rightarrow>
          ((cm_send E (new_done i n) st)\<lparr>write_jobs := remove_job i (write_jobs st)\<rparr>, W\<lparr>cm_disk := modify_time j (cm_disk W)\<rparr>)
      | None \<Rightarrow> (st, W))"
| "cm_handle_fs E (FsWriteBlock i n data z) raw (st, W) =
     (case get_job i (write_jobs st) of
        Some j \<Rightarrow>
          (case write_block (cm_fs E) \<lparr>b_id = i, b_file_num = n, b_data = data, b_compressed = z\<rparr> raw j (cm_disk W) of
             (r, j, d) \<Rightarrow>
               let st = st\<lparr>write_jobs := put_job j (write_jobs st)\<rparr>; W = W\<lparr>cm_disk := d\<rparr> in
               (case r of
                  Done _ \<Rightarrow> (st, W)
                | Failed err \<Rightarrow> (cm_send E (new_error i err n) st, W)
                | Panicked \<Rightarrow> (st\<lparr>stream_open := False\<rparr>, W)))
      | None \<Rightarrow> (st, W))"

definition cm_handle_data ::
  "'e cm_env_scheme \<Rightarrow> ipc_data \<Rightarrow> bytes option \<Rightarrow> cm_stream \<times> cm_world \<Rightarrow> cm_stream \<times> cm_world" where
  "cm_handle_data E d raw x =
     (case x of (st, W) \<Rightarrow>
      case d of
        IChatMessage t \<Rightarrow> (st, ui_call (NewMessage (stream_conn st) t) W)
      | IFS r \<Rightarrow> cm_handle_fs E r raw (st, W)
      | IClipbaordFile c \<Rightarrow> (st, W\<lparr>tx_clip_file := tx_clip_file W @ [Clip (stream_conn st) c]\<rparr>)
      | IClipboardFileEnabled b \<Rightarrow> (st, W\<lparr>tx_clip_file := tx_clip_file W @ [Enable (stream_conn st) b]\<rparr>)
      | _ \<Rightarrow> (st, W))"

subsection \<open>The task of a stream\<close>

definition on_cm_login :: "ipc_login \<Rightarrow> cm_stream \<times> cm_world \<Rightarrow> cm_stream \<times> cm_world" where
  "on_cm_login l x =
     (case x of (st, W) \<Rightarrow>
      let W1 = W\<lparr>tx_clip_file := tx_clip_file W @ [Enable (login_id l) (login_file_transfer_enabled l)]\<rparr>;
          allowed = (login_file l \<and> get_peer_permission (login_peer_id l) ''file'' W \<noteq> ''0'')
      in (st\<lparr>stream_conn := login_id l\<rparr>,
          cm_add_connection \<lparr>cl_id = login_id l, cl_authorized = login_authorized l, cl_disconnected = False,
            cl_is_file_transfer = login_is_file_transfer l, cl_port_forward = login_port_forward l,
            cl_name = login_name l, cl_peer_id = login_peer_id l, cl_keyboard = login_keyboard l,
            cl_clipboard = login_clipboard l, cl_audio = login_audio l, cl_file = allowed, cl_tx = stream_no st\<rparr> W1))"

definition end_stream :: "cm_stream \<times> cm_world \<Rightarrow> cm_stream \<times> cm_world" where
  "end_stream x = (case x of (st, W) \<Rightarrow> (st\<lparr>stream_open := False\<rparr>, cm_remove_connection (stream_conn st) W))"

text \<open>
  What wakes a stream: data of the service (with the raw bytes behind a block), the end of the
  channel, and a mail of the user, which the channel takes or not.
\<close>

datatype cm_event = FromService ipc_data "bytes option" | NothingRead | ChannelClosed | Mail ipc_data bool

definition cm_step :: "'e cm_env_scheme \<Rightarrow> cm_event \<Rightarrow> cm_stream \<times> cm_world \<Rightarrow> cm_stream \<times> cm_world" where
  "cm_step E ev x =
     (case x of (st, W) \<Rightarrow>
      if \<not> stream_open st then (st, W)
      else case ev of
        FromService (ILogin l) _ \<Rightarrow> on_cm_login l (st, W)
      | FromService IClose _ \<Rightarrow> end_stream (st, W\<lparr>tx_clip_file := tx_clip_file W @ [Enable (stream_conn st) False]\<rparr>)
      | FromService (IClickTime t) _ \<Rightarrow> (st, W\<lparr>cm_click_time := t\<rparr>)
      | FromService d raw \<Rightarrow> cm_handle_data E d raw (st, W)
      | NothingRead \<Rightarrow> (st, W)
      | ChannelClosed \<Rightarrow> end_stream (st, W)
      | Mail d sent \<Rightarrow> if sent then (st, W) else end_stream (st, W))"

text \<open>The service's end of the channel sends the bytes of a block separately.\<close>

fun to_channel :: "ipc_data \<Rightarrow> cm_event" where
  "to_channel (IFS (FsWriteBlock i n data z)) = FromService (IFS (FsWriteBlock i n [] z)) (Some data)"
| "to_channel d = FromService d None"

subsection \<open>The thread of the file clipboard\<close>

record clip_thread =
  clip_context :: bool
  clip_running :: bool
  clip_calls :: "clipboard_file_data list"
  emptied :: "int list"

definition clip_thread_step :: "'e cm_env_scheme \<Rightarrow> clipboard_file_data \<Rightarrow> clip_thread \<Rightarrow> clip_thread" where
  "clip_thread_step E m T =
     (if \<not> clip_running T then T
      else case m of
        Clip i c \<Rightarrow> (if clip_context T then T\<lparr>clip_calls := clip_calls T @ [Clip i c]\<rparr> else T)
      | Enable i b \<Rightarrow>
          if b \<and> \<not> clip_context T \<and> \<not> cliprdr_ok E then T\<lparr>clip_running := False\<rparr>
          else
            let T = (if b \<and> \<not> clip_context T then T\<lparr>clip_context := True\<rparr> else T);
                T = T\<lparr>clip_calls := clip_calls T @ [Enable i b]\<rparr>
            in if \<not> b \<and> clip_context T then T\<lparr>emptied := emptied T @ [i]\<rparr> else T)"

definition cmd_inner_send :: "int \<Rightarrow> ipc_data \<Rightarrow> cm_world \<Rightarrow> cm_world" where
  "cmd_inner_send i d W =
     (if i \<noteq> 0 then to_session i d W
      else W\<lparr>mails := mails W @ map (\<lambda>(_, n). (n, d)) (cm_senders W)\<rparr>)"

end
