(* ===== verification/Remote.thy ===== *)
theory Remote
  imports Cm Client_Connect
begin

text \<open>
  The session of the controlling side, \<open>src/ui/remote.rs\<close>: what the user asks for (\<open>Handler\<close>), and the
  loop that talks to the peer (\<open>Remote\<close>). The state is the login handler's, extended by the fields of
  \<open>Remote\<close>, the process-wide flags of what the peer allows, the queue of the loop, the local files, and
  the list of what was sent, shown and handed to the decoders.
\<close>

record remote_env = client_env +
  r_now :: nat
  r_fs :: fs_env
  r_tree :: "string \<Rightarrow> node option"
  r_sends :: "message \<Rightarrow> bool"
  r_remove_error :: "string \<Rightarrow> string option"
  r_create_error :: "string \<Rightarrow> string option"
  own_platform :: string
  cliprdr_created :: bool
  png_ok :: "int \<Rightarrow> int \<Rightarrow> bytes \<Rightarrow> bool"

record remove_job =
  rj_files :: "file_entry list"
  rj_path :: string
  rj_sep :: string
  rj_is_remote :: bool
  no_confirm :: bool
  last_job_status :: nat

record folder =
  fd_id :: int
  fd_count :: "nat option"
  fd_entries :: "(string \<times> file_type \<times> nat \<times> nat) list option"
  fd_total :: nat
  fd_path :: "string option"

datatype ui_data =
    Close
  | Login string bool
  | Message message
  | SendFiles int string string bool bool
  | RemoveDirAll int string bool
  | ConfirmDeleteFiles int int
  | SetNoConfirm int
  | RemoveDir int string
  | RemoveFile int string int bool
  | CreateDir int string bool
  | CancelJob int
  | RemovePortForward int
  | AddPortForward int string int
  | ToggleClipboardFile
  | NewRDP

text \<open>The speed of a job is bytes and milliseconds; a cursor and a frame are what the peer sent.\<close>

datatype ui_call =
    Msg string string string
  | SetConnectionType bool bool
  | CloseSuccess
  | AdaptSize
  | UpdateFolderFiles folder
  | ConfirmDelete int int string
  | JobError int string int
  | JobDone int int
  | JobProgress int int nat int nat
  | SetCursorData cursor_data
  | SetCursorId nat
  | SetCursorPosition int int
  | ChatText string
  | SetPermission string bool
  | SwitchDisplayUi int
  | SetDisplay int int int int
  | UpdatePi string peer_info_msg "int option"

datatype media = FrameOf bytes | AudioOf bytes | FormatOf nat nat | ResetDecoder

datatype remote_effect =
    SentPeer message
  | Show ui_call
  | ToVideo media
  | ToAudio media
  | StartStreaming int int
  | PutClipboard bool bytes
  | ServerClip clipbaord_file


record remote =
  lc :: login_handler
  r_clip :: clip_state
  r_read_jobs :: "transfer_job list"
  r_write_jobs :: "transfer_job list"
  remove_jobs :: "int \<rightharpoonup> remove_job"
  quick_timer :: bool
  last_status :: nat
  last_transferred :: "int \<rightharpoonup> nat"
  first_frame :: bool
  clip_file_context :: bool
  server_keyboard :: bool
  server_clipboard :: bool
  server_file :: bool
  r_disk :: disk
  r_last_recv :: nat
  ui_queue :: "ui_data list"
  r_out :: "remote_effect list"

subsection \<open>Small operations\<close>

definition r_does :: "remote_effect \<Rightarrow> remote \<Rightarrow> remote" where
  "r_does e R = R\<lparr>r_out := r_out R @ [e]\<rparr>"

definition r_send :: "'e remote_env_scheme \<Rightarrow> message \<Rightarrow> remote \<Rightarrow> remote" where
  "r_send E m R = (if r_sends E m then r_does (SentPeer m) R else R)"

definition enqueue :: "ui_data \<Rightarrow> remote \<Rightarrow> remote" where
  "enqueue d R = R\<lparr>ui_queue := ui_queue R @ [d]\<rparr>"

definition msgbox :: "string \<Rightarrow> string \<Rightarrow> string \<Rightarrow> remote \<Rightarrow> remote" where
  "msgbox t title txt' = r_does (Show (Msg t title txt'))"

definition on_error :: "string \<Rightarrow> remote \<Rightarrow> remote" where
  "on_error err = msgbox ''error'' ''Error'' err"

definition perform :: "'e remote_env_scheme \<Rightarrow> ui_effect \<Rightarrow> remote \<Rightarrow> remote" where
  "perform E e R = (case e of MsgBox t title x \<Rightarrow> msgbox t title x R | SendToPeer m \<Rightarrow> r_send E m R)"

definition peer_platform :: "remote \<Rightarrow> string" where
  "peer_platform R = i_platform (pc_info (lc_config (lc R)))"

definition get_path_sep :: "'e remote_env_scheme \<Rightarrow> bool \<Rightarrow> remote \<Rightarrow> string" where
  "get_path_sep E is_remote R =
     (if (if is_remote then peer_platform R else own_platform E) = ''Windows'' then [char_of (92 :: nat)] else ''/'')"

text \<open>What the user interface gets of a listing; the type 0 (a directory) is shown as 1.\<close>

definition make_fd :: "int \<Rightarrow> file_entry list \<Rightarrow> bool \<Rightarrow> folder" where
  "make_fd i entries only_count =
     \<lparr>fd_id = i, fd_count = (if only_count then Some (length entries) else None),
      fd_entries = (if only_count then None
        else Some (map (\<lambda>e. (f_name e, if entry_type e = Dir then DirLink else entry_type e, modified_time e, f_size e)) entries)),
      fd_total = sum_sizes entries, fd_path = None\<rparr>"

subsection \<open>Jobs\<close>

definition new_remove_job :: "'e remote_env_scheme \<Rightarrow> file_entry list \<Rightarrow> string \<Rightarrow> string \<Rightarrow> bool \<Rightarrow> remove_job" where
  "new_remove_job E fs p sep is_remote =
     \<lparr>rj_files = fs, rj_path = p, rj_sep = sep, rj_is_remote = is_remote, no_confirm = False, last_job_status = r_now E\<rparr>"

definition job_message :: "int \<Rightarrow> int \<Rightarrow> string option \<Rightarrow> remote \<Rightarrow> remote" where
  "job_message i n err = r_does (Show (case err of Some e \<Rightarrow> JobError i e n | None \<Rightarrow> JobDone i n))"

text \<open>The next file of a removal is asked for when the last one is done or failed.\<close>

definition handle_job_status :: "'e remote_env_scheme \<Rightarrow> int \<Rightarrow> int \<Rightarrow> string option \<Rightarrow> remote \<Rightarrow> remote" where
  "handle_job_status E i n err R =
     (case remove_jobs R i of
        Some j \<Rightarrow>
          if no_confirm j then
            let k = usize_of_i32 (wrap_i32 (n + 1)) in
            if k < length (rj_files j) then
              let R = enqueue (RemoveFile i (rj_path j @ rj_sep j @ f_name (rj_files j ! k)) (int k) (rj_is_remote j)) R in
              if r_now E - last_job_status j \<ge> 1000
              then job_message i n err (R\<lparr>remove_jobs := (remove_jobs R)(i \<mapsto> j\<lparr>last_job_status := r_now E\<rparr>)\<rparr>)
              else R
            else job_message i n err (R\<lparr>remove_jobs := (remove_jobs R)(i := None)\<rparr>)
          else job_message i n err R
      | None \<Rightarrow> job_message i n err R)"

text \<open>The difference of two \<open>u64\<close> wraps in the release build.\<close>

definition update_job_status :: "nat \<Rightarrow> transfer_job \<Rightarrow> remote \<Rightarrow> remote" where
  "update_job_status elapsed j R =
     (if elapsed = 0 then R
      else
        let before = (case last_transferred R (job_id j) of Some v \<Rightarrow> v | None \<Rightarrow> 0);
            R = R\<lparr>last_transferred := (last_transferred R)(job_id j \<mapsto> transferred j)\<rparr>
        in r_does (Show (JobProgress (job_id j) (wrap_i32 (file_num j - 1))
             (nat ((int (transferred j) - int before) mod 2 ^ 64)) (int elapsed) (finished_size j))) R)"

definition update_jobs_status :: "'e remote_env_scheme \<Rightarrow> remote \<Rightarrow> remote" where
  "update_jobs_status E R =
     (let elapsed = r_now E - last_status R in
      if elapsed \<ge> 1000 then
        (fold (update_job_status elapsed) (r_write_jobs R) (fold (update_job_status elapsed) (r_read_jobs R) R))
          \<lparr>last_status := r_now E\<rparr>
      else R)"

subsection \<open>The clipboard\<close>

definition check_clipboard_file_context :: "'e remote_env_scheme \<Rightarrow> remote \<Rightarrow> remote" where
  "check_clipboard_file_context E R =
     (let enabled = (server_file R \<and> pc_enable_file_transfer (lc_config (lc R))) in
      if enabled = (\<not> clip_file_context R)
      then R\<lparr>clip_file_context := (enabled \<and> cliprdr_created E)\<rparr> else R)"

definition clipboard_allowed :: "remote \<Rightarrow> bool" where
  "clipboard_allowed R \<longleftrightarrow> server_clipboard R \<and> server_keyboard R \<and> \<not> pc_disable_clipboard (lc_config (lc R))"

text \<open>One turn of the thread that watches the local clipboard; it runs for desktop sessions.\<close>

definition clipboard_turn :: "clip_env \<Rightarrow> remote \<Rightarrow> remote" where
  "clipboard_turn Ec R =
     (if \<not> clipboard_allowed R then R
      else case check_clipboard Ec (r_clip R) of
        (Some m, C) \<Rightarrow> enqueue (Message m) (R\<lparr>r_clip := C\<rparr>)
      | (None, C) \<Rightarrow> R\<lparr>r_clip := C\<rparr>)"

subsection \<open>What the user asks for\<close>

definition file_action_of :: "file_action \<Rightarrow> message" where
  "file_action_of a = FileAction a"

definition start_send_files ::
  "'e remote_env_scheme \<Rightarrow> int \<Rightarrow> string \<Rightarrow> string \<Rightarrow> bool \<Rightarrow> bool \<Rightarrow> remote \<Rightarrow> remote" where
  "start_send_files E i p to_path hid is_remote R =
     (if is_remote then
        r_send E (new_send i p hid) (R\<lparr>r_write_jobs := r_write_jobs R @ [new_write i to_path []]\<rparr>)
      else case new_read i p (r_tree E p) hid of
        None \<Rightarrow> handle_job_status E i (- 1) (Some ''read'') R
      | Some j \<Rightarrow>
          let R = r_does (Show (UpdateFolderFiles (make_fd (job_id j) (files j) True))) R;
              R = R\<lparr>r_read_jobs := r_read_jobs R @ [j], quick_timer := True\<rparr>
          in r_send E (new_receive i to_path (files j)) R)"

definition start_remove_dir_all :: "'e remote_env_scheme \<Rightarrow> int \<Rightarrow> string \<Rightarrow> bool \<Rightarrow> remote \<Rightarrow> remote" where
  "start_remove_dir_all E i p is_remote R =
     (let sep = get_path_sep E is_remote R in
      if is_remote then
        (r_send E (FileAction (AllFiles i p True)) R)
          \<lparr>remove_jobs := (remove_jobs R)(i \<mapsto> new_remove_job E [] p sep is_remote)\<rparr>
      else case get_recursive_files (r_tree E p) True of
        None \<Rightarrow> handle_job_status E i (- 1) (Some ''read'') R
      | Some fs \<Rightarrow>
          (r_does (Show (UpdateFolderFiles (make_fd i fs True))) R)
            \<lparr>remove_jobs := (remove_jobs R)(i \<mapsto> new_remove_job E fs p sep is_remote)\<rparr>)"

definition cancel_job :: "'e remote_env_scheme \<Rightarrow> int \<Rightarrow> remote \<Rightarrow> remote" where
  "cancel_job E i R =
     (let R = r_send E (FileAction (FCancel i)) R;
          R = (case get_job i (r_write_jobs R) of
                 Some j \<Rightarrow> R\<lparr>r_disk := remove_download_file j (r_disk R), r_write_jobs := remove_job i (r_write_jobs R)\<rparr>
               | None \<Rightarrow> R)
      in R\<lparr>r_read_jobs := remove_job i (r_read_jobs R), remove_jobs := (remove_jobs R)(i := None)\<rparr>)"

definition local_remove_file :: "'e remote_env_scheme \<Rightarrow> int \<Rightarrow> string \<Rightarrow> int \<Rightarrow> remote \<Rightarrow> remote" where
  "local_remove_file E i p n R =
     (case r_remove_error E p of
        Some err \<Rightarrow> handle_job_status E i n (Some err) R
      | None \<Rightarrow> handle_job_status E i n None (R\<lparr>r_disk := (r_disk R)\<lparr>contents := (contents (r_disk R))(p := None)\<rparr>\<rparr>))"

fun handle_msg_from_ui :: "'e remote_env_scheme \<Rightarrow> ui_data \<Rightarrow> remote \<Rightarrow> bool \<times> remote" where
  "handle_msg_from_ui E Close R = (False, R)"
| "handle_msg_from_ui E (Login pw remember) R =
     (case handle_login_from_ui E pw remember (lc R) of (es, L) \<Rightarrow> (True, fold (perform E) es (R\<lparr>lc := L\<rparr>)))"
| "handle_msg_from_ui E ToggleClipboardFile R = (True, check_clipboard_file_context E R)"
| "handle_msg_from_ui E (Message m) R = (True, r_send E m R)"
| "handle_msg_from_ui E (SendFiles i p to_path hid is_remote) R = (True, start_send_files E i p to_path hid is_remote R)"
| "handle_msg_from_ui E (SetNoConfirm i) R =
     (True, case remove_jobs R i of
        Some j \<Rightarrow> R\<lparr>remove_jobs := (remove_jobs R)(i \<mapsto> j\<lparr>no_confirm := True\<rparr>)\<rparr> | None \<Rightarrow> R)"
| "handle_msg_from_ui E (ConfirmDeleteFiles i n) R =
     (True, case remove_jobs R i of
        Some j \<Rightarrow> (let k = usize_of_i32 n in
          if k < length (rj_files j) then r_does (Show (ConfirmDelete i n (f_name (rj_files j ! k)))) R else R)
      | None \<Rightarrow> R)"
| "handle_msg_from_ui E (RemoveDirAll i p is_remote) R = (True, start_remove_dir_all E i p is_remote R)"
| "handle_msg_from_ui E (CancelJob i) R = (True, cancel_job E i R)"
| "handle_msg_from_ui E (RemoveDir i p) R = (True, r_send E (FileAction (FRemoveDir i p True)) R)"
| "handle_msg_from_ui E (RemoveFile i p n is_remote) R =
     (True, if is_remote then r_send E (FileAction (FRemoveFile i p n)) R else local_remove_file E i p n R)"
| "handle_msg_from_ui E (CreateDir i p is_remote) R =
     (True, if is_remote then r_send E (FileAction (FCreate i p)) R else handle_job_status E i (- 1) (r_create_error E p) R)"
| "handle_msg_from_ui E _ R = (True, R)"


subsection \<open>What the peer sends\<close>

definition put_peer_info :: "'e remote_env_scheme \<Rightarrow> peer_info_msg \<Rightarrow> remote \<Rightarrow> remote" where
  "put_peer_info E p R = R\<lparr>lc := handle_peer_info E (get_username p (lc R)) p (lc R)\<rparr>"

definition ui_peer_info :: "'e remote_env_scheme \<Rightarrow> peer_info_msg \<Rightarrow> remote \<Rightarrow> remote" where
  "ui_peer_info E p R =
     (let u = get_username p (lc R); is_ft = lc_is_file_transfer (lc R); is_pf = lc_is_port_forward (lc R) in
      if is_ft \<and> pi_username p = [] then on_error ''No active console user logged on, please connect and logon first.'' R
      else if \<not> is_ft \<and> \<not> is_pf \<and> pi_displays p = [] then msgbox ''error'' ''Remote Error'' ''No Display'' (put_peer_info E p R)
      else
        let desktop = (\<not> is_ft \<and> \<not> is_pf);
            cur = (let c = usize_of_i32 (pi_current_display p) in if c \<ge> length (pi_displays p) then 0 else c);
            d = pi_displays p ! cur;
            R = (if desktop then r_does (StartStreaming (d_width d) (d_height d))
                   (r_does (Show (SetDisplay (d_x d) (d_y d) (d_width d) (d_height d))) R) else R);
            R = r_does (Show (UpdatePi u p (if desktop then Some (int cur) else None))) (put_peer_info E p R)
        in if is_ft then r_does (Show CloseSuccess) R
           else if \<not> is_pf then msgbox ''success'' ''Successful'' ''Connected, waiting for image...'' R
           else R)"

text \<open>The old text is sent back to the peer after a login, through the queue.\<close>

definition on_login_info :: "'e remote_env_scheme \<Rightarrow> clip_env \<Rightarrow> peer_info_msg \<Rightarrow> remote \<Rightarrow> remote" where
  "on_login_info E Ec p R =
     (let R = check_clipboard_file_context E (ui_peer_info E p R) in
      if \<not> lc_is_file_transfer (lc R) \<and> \<not> lc_is_port_forward (lc R) \<and> clipboard_allowed R \<and> clip_content (r_clip R) \<noteq> []
      then enqueue (Message (create_clipboard_msg Ec (clip_content (r_clip R)))) R else R)"

text \<open>
  The pixels of a cursor are shown as PNG. When they are all 0 the fourth byte is set; with fewer
  than four there is none, and the index panics.
\<close>

definition set_cursor_data :: "'e remote_env_scheme \<Rightarrow> cursor_data \<Rightarrow> remote \<Rightarrow> unit outcome \<times> remote" where
  "set_cursor_data E cd R =
     (let cs = decompress (r_fs E) (colors cd) in
      if list_all (\<lambda>b. b = 0) cs \<and> length cs < 4 then (Panicked, R)
      else
        let cs = (if list_all (\<lambda>b. b = 0) cs then cs[3 := 1] else cs) in
        (Done (), if png_ok E (cd_width cd) (cd_height cd) cs then r_does (Show (SetCursorData (cd\<lparr>colors := cs\<rparr>))) R else R))"

definition on_frame :: "bytes \<Rightarrow> remote \<Rightarrow> remote" where
  "on_frame vf R =
     (let R = (if \<not> first_frame R then r_does (Show AdaptSize) (r_does (Show CloseSuccess) (R\<lparr>first_frame := True\<rparr>)) else R)
      in r_does (ToVideo (FrameOf vf)) R)"

definition put_r_job :: "transfer_job \<Rightarrow> remote \<Rightarrow> remote" where
  "put_r_job j R = R\<lparr>r_write_jobs := put_job j (r_write_jobs R)\<rparr>"

text \<open>The error of writing a block is dropped; a panic ends the process.\<close>

definition on_block :: "'e remote_env_scheme \<Rightarrow> file_transfer_block \<Rightarrow> remote \<Rightarrow> unit outcome \<times> remote" where
  "on_block E b R =
     (case get_job (b_id b) (r_write_jobs R) of
        None \<Rightarrow> (Done (), R)
      | Some j \<Rightarrow>
          (case write_block (r_fs E) b None j (r_disk R) of
             (Panicked, j, d) \<Rightarrow> (Panicked, (put_r_job j R)\<lparr>r_disk := d\<rparr>)
           | (_, j, d) \<Rightarrow> (Done (), update_jobs_status E ((put_r_job j R)\<lparr>r_disk := d\<rparr>))))"

definition on_folder :: "int \<Rightarrow> string \<Rightarrow> file_entry list \<Rightarrow> remote \<Rightarrow> remote" where
  "on_folder i p fs R =
     (let m = make_fd i fs (i > 0);
          m = (if i \<le> 0 then m\<lparr>fd_path := Some p\<rparr> else m);
          R = r_does (Show (UpdateFolderFiles m)) R
      in case get_job i (r_write_jobs R) of
           Some j \<Rightarrow> put_r_job (j\<lparr>files := fs\<rparr>) R
         | None \<Rightarrow>
             (case remove_jobs R i of
                Some j \<Rightarrow> R\<lparr>remove_jobs := (remove_jobs R)(i \<mapsto> j\<lparr>rj_files := fs\<rparr>)\<rparr> | None \<Rightarrow> R))"

definition on_done :: "'e remote_env_scheme \<Rightarrow> int \<Rightarrow> int \<Rightarrow> remote \<Rightarrow> remote" where
  "on_done E i n R =
     (let R = (case get_job i (r_write_jobs R) of
          Some j \<Rightarrow> R\<lparr>r_disk := modify_time j (r_disk R), r_write_jobs := remove_job i (r_write_jobs R)\<rparr>
        | None \<Rightarrow> R)
      in handle_job_status E i n None R)"

fun on_peer_file :: "'e remote_env_scheme \<Rightarrow> file_response \<Rightarrow> remote \<Rightarrow> bool outcome \<times> remote" where
  "on_peer_file E (FDir i p fs) R = (Done True, on_folder i p fs R)"
| "on_peer_file E (FBlock b) R =
     (case on_block E b R of (Panicked, R) \<Rightarrow> (Panicked, R) | (_, R) \<Rightarrow> (Done True, R))"
| "on_peer_file E (FDone i n) R = (Done True, on_done E i n R)"
| "on_peer_file E (FError i err n) R = (Done True, handle_job_status E i n (Some err) R)"
| "on_peer_file E NoFileResponse R = (Done True, R)"

definition on_permission :: "'e remote_env_scheme \<Rightarrow> permission \<Rightarrow> bool \<Rightarrow> remote \<Rightarrow> remote" where
  "on_permission E p b R =
     (case p of
        Keyboard \<Rightarrow> r_does (Show (SetPermission ''keyboard'' b)) (R\<lparr>server_keyboard := b\<rparr>)
      | Clipboard \<Rightarrow> r_does (Show (SetPermission ''clipboard'' b)) (R\<lparr>server_clipboard := b\<rparr>)
      | Audio \<Rightarrow> r_does (Show (SetPermission ''audio'' b)) R
      | File \<Rightarrow>
          (let R = R\<lparr>server_file := b\<rparr> in
           if \<not> b \<and> lc_is_file_transfer (lc R) then R
           else r_does (Show (SetPermission ''file'' b)) (check_clipboard_file_context E R)))"

fun on_peer_misc :: "'e remote_env_scheme \<Rightarrow> misc \<Rightarrow> remote \<Rightarrow> bool \<times> remote" where
  "on_peer_misc E (AudioFormat rate ch) R = (True, r_does (ToAudio (FormatOf rate ch)) R)"
| "on_peer_misc E (ChatMessage t) R = (True, r_does (Show (ChatText t)) R)"
| "on_peer_misc E (PermissionInfo p b) R = (True, on_permission E p b R)"
| "on_peer_misc E (SwitchDisplay d x y w h) R =
     (True,
      let R = r_does (ToVideo ResetDecoder) (r_does (Show (SwitchDisplayUi d)) R) in
      if w > 0 \<and> h > 0 then r_does (Show (SetDisplay x y w h)) (r_does (StartStreaming w h) R) else R)"
| "on_peer_misc E (CloseReason c) R = (False, msgbox ''error'' ''Connection Error'' c R)"
| "on_peer_misc E (OptionResponse err) R = (True, msgbox ''custom-error'' ''Option Error'' err R)"
| "on_peer_misc E _ R = (True, R)"

definition lift_bool :: "bool \<times> 'a \<Rightarrow> bool outcome \<times> 'a" where
  "lift_bool x = (case x of (b, R) \<Rightarrow> (Done b, R))"

definition handle_msg_from_peer ::
  "'e remote_env_scheme \<Rightarrow> clip_env \<Rightarrow> message option \<Rightarrow> remote \<Rightarrow> bool outcome \<times> remote" where
  "handle_msg_from_peer E Ec m R =
     (case m of
        Some (VideoFrame vf) \<Rightarrow> (Done True, on_frame vf R)
      | Some (Hash slt ch) \<Rightarrow>
          (case handle_hash E slt ch (lc R) of (es, L) \<Rightarrow> (Done True, fold (perform E) es (R\<lparr>lc := L\<rparr>)))
      | Some (LoginResponse (LoginError err)) \<Rightarrow>
          (case lc_handle_login_error err (lc R) of ((go_on, e), L) \<Rightarrow> (Done go_on, perform E e (R\<lparr>lc := L\<rparr>)))
      | Some (LoginResponse (LoginPeerInfo p)) \<Rightarrow> (Done True, on_login_info E Ec p R)
      | Some (CursorData cd) \<Rightarrow>
          (case set_cursor_data E cd R of (Panicked, R) \<Rightarrow> (Panicked, R) | (_, R) \<Rightarrow> (Done True, R))
      | Some (CursorId i) \<Rightarrow> (Done True, r_does (Show (SetCursorId i)) R)
      | Some (CursorPosition x y) \<Rightarrow> (Done True, r_does (Show (SetCursorPosition x y)) R)
      | Some (ClipboardMsg z bs) \<Rightarrow>
          (Done True, if \<not> pc_disable_clipboard (lc_config (lc R))
             then (r_does (PutClipboard z bs) R)\<lparr>r_clip := update_clipboard Ec z bs (r_clip R)\<rparr> else R)
      | Some (Cliprdr c) \<Rightarrow>
          (Done True, if \<not> pc_disable_clipboard (lc_config (lc R)) \<and> clip_file_context R
             then (case msg_2_clip c of Some f \<Rightarrow> r_does (ServerClip f) R | None \<Rightarrow> R) else R)
      | Some (FileResponse fr) \<Rightarrow> on_peer_file E fr R
      | Some (Misc mi) \<Rightarrow> lift_bool (on_peer_misc E mi R)
      | Some (TestDelay t from_client) \<Rightarrow> (Done True, fold (perform E) (client_test_delay t from_client) R)
      | Some (AudioFrame a) \<Rightarrow>
          (Done True, if \<not> pc_disable_audio (lc_config (lc R)) then r_does (ToAudio (AudioOf a)) R else R)
      | _ \<Rightarrow> (Done True, R))"

subsection \<open>The loop\<close>

datatype remote_event =
    PeerFrame "message option"
  | PeerError string
  | PeerEnd
  | UiEvent
  | ClipClient clipbaord_file
  | Timer

definition SEC30 :: nat where "SEC30 = 30000"

definition on_timer :: "'e remote_env_scheme \<Rightarrow> remote \<Rightarrow> loop_state \<times> remote" where
  "on_timer E R =
     (if r_now E - r_last_recv R \<ge> SEC30 then (Broken, msgbox ''error'' ''Connection Error'' ''Timeout'' R)
      else if r_read_jobs R \<noteq> [] then
        (case handle_read_jobs (r_fs E) (r_sends E) (r_disk R) (r_read_jobs R) of
           (sent, ms, js) \<Rightarrow>
             let R = fold (\<lambda>m. r_does (SentPeer m)) ms (R\<lparr>r_read_jobs := js\<rparr>) in
             if sent then (Running, update_jobs_status E R)
             else (Broken, msgbox ''error'' ''Connection Error'' ''send'' R))
      else (Running, R\<lparr>quick_timer := False\<rparr>))"

definition of_bool :: "bool \<times> remote \<Rightarrow> loop_state \<times> remote" where
  "of_bool x = (case x of (b, R) \<Rightarrow> (if b then Running else Broken, R))"

definition remote_step :: "'e remote_env_scheme \<Rightarrow> clip_env \<Rightarrow> remote_event \<Rightarrow> remote \<Rightarrow> loop_state \<times> remote" where
  "remote_step E Ec ev R =
     (case ev of
        PeerFrame m \<Rightarrow>
          (case handle_msg_from_peer E Ec m (R\<lparr>r_last_recv := r_now E\<rparr>) of
             (Done b, R) \<Rightarrow> of_bool (b, R) | (_, R) \<Rightarrow> (Crashed, R))
      | PeerError err \<Rightarrow> (Broken, msgbox ''error'' ''Connection Error'' err R)
      | PeerEnd \<Rightarrow> (Broken, msgbox ''error'' ''Connection Error'' ''Reset by the peer'' R)
      | UiEvent \<Rightarrow>
          (case ui_queue R of
             [] \<Rightarrow> (Running, R)
           | d # ds \<Rightarrow> of_bool (handle_msg_from_ui E d (R\<lparr>ui_queue := ds\<rparr>)))
      | ClipClient c \<Rightarrow> (Running, r_send E (clip_2_msg c) R)
      | Timer \<Rightarrow> on_timer E R)"

fun remote_loop :: "('e remote_env_scheme \<times> remote_event) list \<Rightarrow> clip_env \<Rightarrow> remote \<Rightarrow> loop_state \<times> remote" where
  "remote_loop [] Ec R = (Running, R)"
| "remote_loop ((E, ev) # evs) Ec R =
     (case remote_step E Ec ev R of
        (Running, R) \<Rightarrow> remote_loop evs Ec R
      | r \<Rightarrow> r)"

text \<open>The whole of \<open>Remote::io_loop\<close>; \<open>res\<close> is what \<open>Client::start\<close> gave: whether secured and direct.\<close>

definition r_io_loop ::
  "('e remote_env_scheme \<times> remote_event) list \<Rightarrow> clip_env \<Rightarrow> string + bool \<times> bool \<Rightarrow> remote \<Rightarrow> loop_state \<times> remote" where
  "r_io_loop evs Ec res R =
     (case (case res of
          Inr (sec, direct) \<Rightarrow>
            remote_loop evs Ec (r_does (Show (SetConnectionType sec direct))
              (R\<lparr>server_keyboard := True, server_clipboard := True, server_file := True\<rparr>))
        | Inl err \<Rightarrow> (Broken, msgbox ''error'' ''Connection Error'' err R)) of
        (l, R) \<Rightarrow> (l, R\<lparr>server_keyboard := False, server_clipboard := False, server_file := False\<rparr>))"

end
