(* ===== verification/Remote_Session.thy ===== *)
theory Remote_Session
  imports Remote
begin

text \<open>
  The controlling side and the controlled side together: transfers of files in both directions
  through the loops of both ends, the channel and the connection manager; the removal of a folder;
  and what ends or misleads the controlling side.
\<close>

subsection \<open>An upload through all processes\<close>

text \<open>
  What an upload passes through: the loop of the controlling side, the connection of the controlled
  side, the channel to the connection manager, and its stream.
\<close>

definition sent_to_peer :: "remote_effect list \<Rightarrow> message list" where
  "sent_to_peer es = concat (map (\<lambda>e. case e of SentPeer m \<Rightarrow> [m] | _ \<Rightarrow> []) es)"

definition channel_events :: "conn_effect list \<Rightarrow> cm_event list" where
  "channel_events es = concat (map (\<lambda>e. case e of ToCm d \<Rightarrow> [to_channel d] | _ \<Rightarrow> []) es)"

definition deliver ::
  "'c conn_env_scheme \<Rightarrow> 'm cm_env_scheme \<Rightarrow> message \<Rightarrow> session \<times> cm_stream \<times> cm_world \<Rightarrow> session \<times> cm_stream \<times> cm_world" where
  "deliver Es Em m x =
     (case x of (S, c) \<Rightarrow>
      let S' = snd (on_message Es m S)
      in (S', fold (cm_step Em) (channel_events (drop (length (out S)) (out S'))) c))"

definition upload_step ::
  "'e remote_env_scheme \<Rightarrow> clip_env \<Rightarrow> 'c conn_env_scheme \<Rightarrow> 'm cm_env_scheme \<Rightarrow> remote_event
     \<Rightarrow> remote \<times> session \<times> cm_stream \<times> cm_world \<Rightarrow> remote \<times> session \<times> cm_stream \<times> cm_world" where
  "upload_step E Ec Es Em ev x =
     (case x of (R, y) \<Rightarrow>
      let R' = snd (remote_step E Ec ev R)
      in (R', fold (deliver Es Em) (sent_to_peer (drop (length (r_out R)) (r_out R'))) y))"

lemma sent_simps [simp]:
  "sent_to_peer [] = []" "sent_to_peer (SentPeer m # es) = m # sent_to_peer es"
  "sent_to_peer (Show c # es) = sent_to_peer es" "sent_to_peer (es @ es') = sent_to_peer es @ sent_to_peer es'"
  "sent_to_peer (map Show cs) = []"
  by (induction cs) (simp_all add: sent_to_peer_def)

lemma channel_simps [simp]:
  "channel_events [] = []" "channel_events (ToCm d # es) = to_channel d # channel_events es"
  "channel_events (WriteLog l # es) = channel_events es"
  by (simp_all add: channel_events_def)

text \<open>Showing the progress of jobs changes nothing else.\<close>

definition core :: "remote \<Rightarrow> login_handler \<times> transfer_job list \<times> transfer_job list \<times> disk \<times> nat \<times> ui_data list \<times> (int \<rightharpoonup> remove_job)" where
  "core R = (lc R, r_read_jobs R, r_write_jobs R, r_disk R, r_last_recv R, ui_queue R, remove_jobs R)"

definition progress_only :: "remote \<Rightarrow> remote \<Rightarrow> bool" where
  "progress_only R R' \<longleftrightarrow> core R' = core R \<and>
     (\<exists>cs. r_out R' = r_out R @ map Show cs \<and> list_all (\<lambda>c. case c of JobProgress _ _ _ _ _ \<Rightarrow> True | _ \<Rightarrow> False) cs)"

lemma progress_refl [simp]: "progress_only R R"
  by (auto simp: progress_only_def intro: exI [of _ "[]"])

lemma progress_trans: "progress_only R R' \<Longrightarrow> progress_only R' R'' \<Longrightarrow> progress_only R R''"
proof -
  assume a: "progress_only R R'" "progress_only R' R''"
  obtain cs where c: "r_out R' = r_out R @ map Show cs" "list_all (\<lambda>c. case c of JobProgress _ _ _ _ _ \<Rightarrow> True | _ \<Rightarrow> False) cs"
    using a(1) by (auto simp: progress_only_def)
  obtain ds where d: "r_out R'' = r_out R' @ map Show ds" "list_all (\<lambda>c. case c of JobProgress _ _ _ _ _ \<Rightarrow> True | _ \<Rightarrow> False) ds"
    using a(2) by (auto simp: progress_only_def)
  have "r_out R'' = r_out R @ map Show (cs @ ds)" using c(1) d(1) by simp
  then show ?thesis using a c(2) d(2) unfolding progress_only_def by (metis list_all_append)
qed

lemma job_status_progress: "progress_only R (update_job_status n j R)"
  by (auto simp: progress_only_def update_job_status_def core_def r_does_def Let_def intro: exI [of _ "[]"] exI [of _ "[c]" for c])

lemma fold_status_progress: "progress_only R (fold (update_job_status n) js R)"
proof (induction js arbitrary: R)
  case (Cons j js)
  show ?case using progress_trans [OF job_status_progress Cons.IH] by simp
qed simp

lemma progress_time: "progress_only R (R'\<lparr>last_status := t\<rparr>) = progress_only R R'"
  by (simp add: progress_only_def core_def)

lemma jobs_status_progress: "progress_only R (update_jobs_status E R)"
  using progress_trans [OF fold_status_progress fold_status_progress]
  by (auto simp: update_jobs_status_def progress_time Let_def)

lemma jobs_status_frame:
  "core (update_jobs_status E R) = core R \<and> (\<exists>cs. r_out (update_jobs_status E R) = r_out R @ map Show cs)"
  using jobs_status_progress by (auto simp: progress_only_def)

text \<open>One tick with one job.\<close>

lemma timer_one_job:
  assumes "r_now E - r_last_recv R < SEC30" "r_sends E = (\<lambda>_. True)" "r_read_jobs R = [j]"
    and "read (r_fs E) j (r_disk R) = (Done r, j')" "job_id j' = job_id j"
    and "m = (case r of Some b \<Rightarrow> new_block b | None \<Rightarrow> new_done (job_id j') (file_num j'))"
    and "js = (case r of Some _ \<Rightarrow> [j'] | None \<Rightarrow> [])"
  shows "\<exists>R'. remote_step E Ec Timer R = (Running, R') \<and> sent_to_peer (drop (length (r_out R)) (r_out R')) = [m] \<and>
    core R' = core (R\<lparr>r_read_jobs := js\<rparr>)"
proof -
  let ?R = "r_does (SentPeer m) (R\<lparr>r_read_jobs := js\<rparr>)"
  have "handle_read_jobs (r_fs E) (r_sends E) (r_disk R) (r_read_jobs R) = (True, [m], js)"
    using assms(2-7) by (cases r) (simp_all add: handle_read_jobs_def remove_job_def)
  then have s: "remote_step E Ec Timer R = (Running, update_jobs_status E ?R)"
    using assms(1,3) by (simp add: remote_step_def on_timer_def Let_def)
  obtain cs where "r_out (update_jobs_status E ?R) = r_out ?R @ map Show cs" "core (update_jobs_status E ?R) = core ?R"
    using jobs_status_frame by blast
  with s show ?thesis by (auto simp: r_does_def core_def)
qed

text \<open>A block arrives in the stream's job.\<close>

lemma deliver_block:
  assumes "authorized S" "stream_open st" "write_jobs st = [jw]" "b_id b = job_id jw"
    and "write_block (cm_fs Em) b None jw (cm_disk W) = (Done (), jw', dw')" "job_id jw' = job_id jw"
  shows "\<exists>S'. deliver Es Em (new_block b) (S, st, W) = (S', st\<lparr>write_jobs := [jw']\<rparr>, W\<lparr>cm_disk := dw'\<rparr>) \<and> authorized S'"
proof -
  obtain i n bs z where b: "b = \<lparr>b_id = i, b_file_num = n, b_data = bs, b_compressed = z\<rparr>" by (cases b) auto
  have w: "write_block (cm_fs Em) \<lparr>b_id = i, b_file_num = n, b_data = [], b_compressed = z\<rparr> (Some bs) jw (cm_disk W)
      = (Done (), jw', dw')"
    using assms(5) by (simp add: write_block_raw b)
  have g: "get_job i [jw] = Some jw" using assms(4) by (simp add: get_job_def b)
  have p: "put_job jw' [jw] = [jw']" using assms(6) by (simp add: put_job_def)
  have "deliver Es Em (new_block b) (S, st, W) =
      (send_fs (FsWriteBlock i n bs z) (touch Es S), cm_step Em (FromService (IFS (FsWriteBlock i n [] z)) (Some bs)) (st, W))"
    using assms(1)
    by (simp add: deliver_def new_block_def on_message_def b send_fs_def send_to_cm_def does_def touch_def Let_def)
  also have "cm_step Em (FromService (IFS (FsWriteBlock i n [] z)) (Some bs)) (st, W) =
      (st\<lparr>write_jobs := [jw']\<rparr>, W\<lparr>cm_disk := dw'\<rparr>)"
    using assms(2,3) g w p by (simp add: cm_step_def cm_handle_data_def Let_def)
  finally show ?thesis using assms(1) by (simp add: send_fs_def send_to_cm_def does_def touch_def)
qed

lemma deliver_done:
  assumes "authorized S" "stream_open st" "write_jobs st = [jw]" "i = job_id jw"
  shows "\<exists>S' st'. deliver Es Em (new_done i n) (S, st, W) = (S', st', W\<lparr>cm_disk := modify_time jw (cm_disk W)\<rparr>) \<and>
    authorized S' \<and> write_jobs st' = [] \<and> stream_open st'"
  using assms
  by (auto simp: deliver_def new_done_def on_message_def send_fs_def send_to_cm_def does_def touch_def cm_step_def
      cm_handle_data_def get_job_def remove_job_def cm_send_def Let_def)


lemma read_keeps_id: "read E j d = (r, j') \<Longrightarrow> job_id j' = job_id j"
  by (auto simp: read_def Let_def split: if_splits option.splits prod.splits)

lemma write_data_keeps_id: "write_data E b bs j d = (r, j', d') \<Longrightarrow> job_id j' = job_id j"
  by (auto simp: write_data_def Let_def split: if_splits option.splits prod.splits)

lemma write_keeps_id: "write_block E b side j d = (r, j', d') \<Longrightarrow> job_id j' = job_id j"
  by (fastforce simp: write_block_def Let_def split: if_splits dest: write_data_keeps_id)

text \<open>What both ends have to be for an upload to go on.\<close>

definition upload_ready :: "'e remote_env_scheme \<Rightarrow> 'm cm_env_scheme \<Rightarrow> remote \<times> session \<times> cm_stream \<times> cm_world \<Rightarrow> bool" where
  "upload_ready E Em x \<longleftrightarrow>
     (case x of (R, S, st, W) \<Rightarrow> r_now E - r_last_recv R < SEC30 \<and> r_sends E = (\<lambda>_. True) \<and> cm_fs Em = r_fs E \<and>
       authorized S \<and> stream_open st)"

lemma idle_ticks:
  assumes "r_now E - r_last_recv R < SEC30" "r_read_jobs R = []"
  shows "\<exists>R'. fold (upload_step E Ec Es Em) (replicate n Timer) (R, y) = (R', y) \<and> r_read_jobs R' = []"
  using assms
proof (induction n arbitrary: R)
  case 0
  then show ?case by simp
next
  case (Suc n)
  have "upload_step E Ec Es Em Timer (R, y) = (R\<lparr>quick_timer := False\<rparr>, y)"
    using Suc.prems by (simp add: upload_step_def remote_step_def on_timer_def Let_def)
  with Suc.IH [of "R\<lparr>quick_timer := False\<rparr>"] Suc.prems show ?case by simp
qed

lemma upload_follows_pump:
  assumes "upload_ready E Em (R, S, st, W)" "r_read_jobs R = [jr]" "write_jobs st = [jw]" "job_id jw = job_id jr"
    and "pump (r_fs E) n jr (r_disk R) jw (cm_disk W) = (True, dw')"
  shows "\<exists>R' S' st' W'. fold (upload_step E Ec Es Em) (replicate n Timer) (R, S, st, W) = (R', S', st', W') \<and>
    r_read_jobs R' = [] \<and> write_jobs st' = [] \<and> cm_disk W' = dw'"
  using assms
proof (induction n arbitrary: R S st W jr jw)
  case 0
  then show ?case by simp
next
  case (Suc n)
  have rdy: "r_now E - r_last_recv R < SEC30" "r_sends E = (\<lambda>_. True)" "cm_fs Em = r_fs E" "authorized S" "stream_open st"
    using Suc.prems(1) by (simp_all add: upload_ready_def)
  obtain r jr' where rd: "read (r_fs E) jr (r_disk R) = (r, jr')" by force
  have jid: "job_id jr' = job_id jr" using read_keeps_id [OF rd] .
  have "\<exists>v. r = Done v" using Suc.prems(5) rd by (cases r) auto
  then consider (block) b where "r = Done (Some b)" | (finished) "r = Done None" by (metis option.exhaust)
  then show ?case
  proof cases
    case block
    obtain R1 where R1: "remote_step E Ec Timer R = (Running, R1)"
      "sent_to_peer (drop (length (r_out R)) (r_out R1)) = [new_block b]" "core R1 = core (R\<lparr>r_read_jobs := [jr']\<rparr>)"
      using timer_one_job [OF rdy(1,2) Suc.prems(2) rd [unfolded block] jid refl refl] by auto
    obtain jw1 dw1 where w: "write_block (r_fs E) b None jw (cm_disk W) = (Done (), jw1, dw1)"
      "pump (r_fs E) n jr' (r_disk R) jw1 dw1 = (True, dw')"
      using Suc.prems(5) rd block by (auto split: outcome.splits prod.splits)
    have bid: "b_id b = job_id jr" using rd block by (auto simp: read_def Let_def split: if_splits option.splits prod.splits)
    have kept: "job_id jw1 = job_id jw" using write_keeps_id [OF w(1)] .
    obtain S1 where d: "deliver Es Em (new_block b) (S, st, W) = (S1, st\<lparr>write_jobs := [jw1]\<rparr>, W\<lparr>cm_disk := dw1\<rparr>)" "authorized S1"
      using deliver_block [OF rdy(4,5) Suc.prems(3), of b Em W jw1 dw1 Es] bid Suc.prems(4) w(1) kept rdy(3) by auto
    have st1: "upload_step E Ec Es Em Timer (R, S, st, W) = (R1, S1, st\<lparr>write_jobs := [jw1]\<rparr>, W\<lparr>cm_disk := dw1\<rparr>)"
      using R1 d(1) by (simp add: upload_step_def Let_def)
    have c: "r_read_jobs R1 = [jr']" "r_disk R1 = r_disk R" "r_last_recv R1 = r_last_recv R" using R1(3) by (simp_all add: core_def)
    have "upload_ready E Em (R1, S1, st\<lparr>write_jobs := [jw1]\<rparr>, W\<lparr>cm_disk := dw1\<rparr>)"
      using rdy d(2) c by (simp add: upload_ready_def)
    from Suc.IH [OF this c(1)] w(2) c(2) Suc.prems(4) kept jid show ?thesis by (simp add: st1)
  next
    case finished
    obtain R1 where R1: "remote_step E Ec Timer R = (Running, R1)"
      "sent_to_peer (drop (length (r_out R)) (r_out R1)) = [new_done (job_id jr') (file_num jr')]"
      "core R1 = core (R\<lparr>r_read_jobs := []\<rparr>)"
      using timer_one_job [OF rdy(1,2) Suc.prems(2) rd [unfolded finished] jid refl refl] by auto
    obtain S1 st1 where d: "deliver Es Em (new_done (job_id jr') (file_num jr')) (S, st, W) =
        (S1, st1, W\<lparr>cm_disk := modify_time jw (cm_disk W)\<rparr>)" "write_jobs st1 = []"
      using deliver_done [OF rdy(4,5) Suc.prems(3), of "job_id jr'"] jid Suc.prems(4) by force
    have e: "dw' = modify_time jw (cm_disk W)" using Suc.prems(5) rd finished by simp
    have s1: "upload_step E Ec Es Em Timer (R, S, st, W) = (R1, S1, st1, W\<lparr>cm_disk := modify_time jw (cm_disk W)\<rparr>)"
      using R1 d(1) by (simp add: upload_step_def Let_def)
    have c: "r_read_jobs R1 = []" "r_last_recv R1 = r_last_recv R" using R1(3) by (simp_all add: core_def)
    from idle_ticks [of E R1, OF _ c(1), of Ec Es Em n "(S1, st1, W\<lparr>cm_disk := modify_time jw (cm_disk W)\<rparr>)"] c rdy(1) s1 d(2) e
    show ?thesis by auto
  qed
qed


text \<open>The job that the connection manager makes of the list it is sent.\<close>

definition received_job :: "int \<Rightarrow> string \<Rightarrow> file_entry list \<Rightarrow> transfer_job" where
  "received_job i dp fs = new_write i dp (map (\<lambda>f. named_entry (f_name f, modified_time f)) fs)"

lemma out_got_id: "Config.get_id E S = (i, S') \<Longrightarrow> out S' = out S \<and> authorized S' = authorized S"
  for S :: session
  by (auto simp: Config.get_id_def set_id_def store_config_def Let_def split: if_splits option.splits)

lemma deliver_receive:
  assumes "authorized S" "stream_open st" "file_transfer S \<noteq> None" "log_ok Es" "write_jobs st = []"
  shows "\<exists>S'. deliver Es Em (new_receive i dp fs) (S, st, W) = (S', st\<lparr>write_jobs := [received_job i dp fs]\<rparr>, W) \<and> authorized S'"
proof -
  let ?S = "touch Es S"
  let ?ns = "map (\<lambda>f. (f_name f, modified_time f)) fs"
  obtain own S0 where g: "Config.get_id Es ?S = (own, S0)" by force
  have o: "out S0 = out S" "authorized S0" using out_got_id [OF g] assms(1) by (simp_all add: touch_def)
  obtain l where m: "on_message Es (new_receive i dp fs) S = (Done True, send_fs (FsNewWrite dp i ?ns) (does (WriteLog l) S0))"
    using assms(1,3,4) g by (simp add: new_receive_def on_message_def logged_def Let_def touch_def)
  then have "deliver Es Em (new_receive i dp fs) (S, st, W) =
      (send_fs (FsNewWrite dp i ?ns) (does (WriteLog l) S0), cm_step Em (FromService (IFS (FsNewWrite dp i ?ns)) None) (st, W))"
    using o by (simp add: deliver_def send_fs_def send_to_cm_def does_def Let_def)
  also have "cm_step Em (FromService (IFS (FsNewWrite dp i ?ns)) None) (st, W) = (st\<lparr>write_jobs := [received_job i dp fs]\<rparr>, W)"
    using assms(2,5) by (simp add: cm_step_def cm_handle_data_def received_job_def comp_def)
  finally show ?thesis using o by (simp add: send_fs_def send_to_cm_def does_def)
qed

lemma send_files_step:
  assumes "ui_queue R = [SendFiles i p dp hid False]" "r_read_jobs R = []" "r_sends E = (\<lambda>_. True)"
    and "new_read i p (r_tree E p) hid = Some jr"
  shows "\<exists>R'. remote_step E Ec UiEvent R = (Running, R') \<and>
    sent_to_peer (drop (length (r_out R)) (r_out R')) = [new_receive i dp (files jr)] \<and>
    r_read_jobs R' = [jr] \<and> r_disk R' = r_disk R \<and> r_last_recv R' = r_last_recv R"
  using assms by (simp add: remote_step_def start_send_files_def r_send_def r_does_def of_bool_def Let_def)



subsection \<open>A download\<close>

text \<open>The other direction: the connection reads and sends, the loop of the controlling side writes.\<close>

definition to_peer_messages :: "conn_effect list \<Rightarrow> message list" where
  "to_peer_messages es = concat (map (\<lambda>e. case e of ToPeer m \<Rightarrow> [m] | _ \<Rightarrow> []) es)"

definition receive :: "'e remote_env_scheme \<Rightarrow> clip_env \<Rightarrow> message \<Rightarrow> remote \<Rightarrow> remote" where
  "receive E Ec m R = snd (remote_step E Ec (PeerFrame (Some m)) R)"

definition answer_peer ::
  "'e remote_env_scheme \<Rightarrow> clip_env \<Rightarrow> session \<Rightarrow> remote \<times> session \<Rightarrow> remote \<times> session" where
  "answer_peer E Ec S x =
     (case x of (R, S') \<Rightarrow> (fold (receive E Ec) (to_peer_messages (drop (length (out S)) (out S'))) R, S'))"

definition download_start ::
  "'e remote_env_scheme \<Rightarrow> clip_env \<Rightarrow> 'c conn_env_scheme \<Rightarrow> remote \<times> session \<Rightarrow> remote \<times> session" where
  "download_start E Ec Es x =
     (case x of (R, S) \<Rightarrow>
      let R' = snd (remote_step E Ec UiEvent R);
          S' = fold (\<lambda>m S. snd (on_message Es m S)) (sent_to_peer (drop (length (r_out R)) (r_out R'))) S
      in answer_peer E Ec S (R', S'))"

definition download_tick ::
  "'e remote_env_scheme \<Rightarrow> clip_env \<Rightarrow> 'c conn_env_scheme \<Rightarrow> remote \<times> session \<Rightarrow> remote \<times> session" where
  "download_tick E Ec Es x =
     (case x of (R, S) \<Rightarrow> answer_peer E Ec S (R, snd (conn_step Es (JobTick (\<lambda>_. True)) S)))"

lemma to_peer_simps [simp]:
  "to_peer_messages [] = []" "to_peer_messages (ToPeer m # es) = m # to_peer_messages es"
  "to_peer_messages (WriteLog l # es) = to_peer_messages es"
  by (simp_all add: to_peer_messages_def)

lemma receive_block:
  assumes "r_write_jobs R = [jw]" "b_id b = job_id jw" "write_block (r_fs E) b None jw (r_disk R) = (Done (), jw', dw')"
  shows "r_write_jobs (receive E Ec (new_block b) R) = [jw'] \<and> r_disk (receive E Ec (new_block b) R) = dw'"
proof -
  let ?R = "(put_r_job jw' (R\<lparr>r_last_recv := r_now E\<rparr>))\<lparr>r_disk := dw'\<rparr>"
  have g: "get_job (b_id b) [jw] = Some jw" using assms(2) by (simp add: get_job_def)
  have "receive E Ec (new_block b) R = update_jobs_status E ?R"
    using assms(1,3) g
    by (simp add: receive_def remote_step_def handle_msg_from_peer_def new_block_def on_block_def of_bool_def)
  moreover have "core (update_jobs_status E ?R) = core ?R" using jobs_status_frame by blast
  moreover have "put_job jw' [jw] = [jw']" using write_keeps_id [OF assms(3)] by (simp add: put_job_def)
  ultimately show ?thesis using assms(1) by (simp add: core_def put_r_job_def)
qed

lemma job_done_frame:
  "r_disk (handle_job_status E i n err R) = r_disk R \<and> r_write_jobs (handle_job_status E i n err R) = r_write_jobs R"
  by (auto simp: handle_job_status_def job_message_def enqueue_def r_does_def Let_def split: option.splits)

lemma receive_done:
  assumes "r_write_jobs R = [jw]" "i = job_id jw"
  shows "r_write_jobs (receive E Ec (new_done i n) R) = [] \<and>
    r_disk (receive E Ec (new_done i n) R) = modify_time jw (r_disk R)"
  using assms
  by (simp add: job_done_frame receive_def remote_step_def handle_msg_from_peer_def new_done_def on_done_def of_bool_def get_job_def
      remove_job_def Let_def)

lemma conn_job_tick:
  assumes "read_jobs S = [j]" "read (file_env Es) j (disk_now Es) = (Done r, j')" "job_id j' = job_id j"
    and "m = (case r of Some b \<Rightarrow> new_block b | None \<Rightarrow> new_done (job_id j') (file_num j'))"
    and "js = (case r of Some _ \<Rightarrow> [j'] | None \<Rightarrow> [])"
  shows "conn_step Es (JobTick (\<lambda>_. True)) S = (Running, send m (S\<lparr>read_jobs := js\<rparr>))"
proof -
  have "handle_read_jobs (file_env Es) (\<lambda>_. True) (disk_now Es) (read_jobs S) = (True, [m], js)"
    using assms by (cases r) (simp_all add: handle_read_jobs_def remove_job_def)
  then show ?thesis using assms(1) by (simp add: conn_step_def on_job_tick_def Let_def)
qed

lemma idle_job_ticks:
  "read_jobs S = [] \<Longrightarrow> \<exists>S'. (download_tick E Ec Es ^^ n) (R, S) = (R, S') \<and> read_jobs S' = []"
proof (induction n arbitrary: S)
  case (Suc n)
  have "download_tick E Ec Es (R, S) = (R, S\<lparr>fast_timer := False\<rparr>)"
    using Suc.prems by (simp add: download_tick_def answer_peer_def conn_step_def on_job_tick_def)
  with Suc.IH [of "S\<lparr>fast_timer := False\<rparr>"] Suc.prems show ?case by (simp add: funpow_swap1)
qed simp

lemma download_follows_pump:
  assumes "file_env Es = r_fs E" "read_jobs S = [jr]" "r_write_jobs R = [jw]" "job_id jw = job_id jr"
    and "pump (r_fs E) n jr (disk_now Es) jw (r_disk R) = (True, dw')"
  shows "\<exists>R' S'. (download_tick E Ec Es ^^ n) (R, S) = (R', S') \<and>
    read_jobs S' = [] \<and> r_write_jobs R' = [] \<and> r_disk R' = dw'"
  using assms
proof (induction n arbitrary: R S jr jw)
  case 0
  then show ?case by simp
next
  case (Suc n)
  obtain r jr' where rd: "read (r_fs E) jr (disk_now Es) = (r, jr')" by force
  have jid: "job_id jr' = job_id jr" using read_keeps_id [OF rd] .
  have "\<exists>v. r = Done v" using Suc.prems(5) rd by (cases r) auto
  then consider (block) b where "r = Done (Some b)" | (finished) "r = Done None" by (metis option.exhaust)
  then show ?case
  proof cases
    case block
    let ?S = "send (new_block b) (S\<lparr>read_jobs := [jr']\<rparr>)"
    have S1: "conn_step Es (JobTick (\<lambda>_. True)) S = (Running, ?S)"
      using conn_job_tick [OF Suc.prems(2), of Es "Some b" jr'] rd Suc.prems(1) block jid by simp
    obtain jw1 dw1 where w: "write_block (r_fs E) b None jw (r_disk R) = (Done (), jw1, dw1)"
      "pump (r_fs E) n jr' (disk_now Es) jw1 dw1 = (True, dw')"
      using Suc.prems(5) rd block by (auto split: outcome.splits prod.splits)
    have bid: "b_id b = job_id jw"
      using rd block Suc.prems(4) by (auto simp: read_def Let_def split: if_splits option.splits prod.splits)
    let ?R = "receive E Ec (new_block b) R"
    have R1: "r_write_jobs ?R = [jw1]" "r_disk ?R = dw1" using receive_block [OF Suc.prems(3) bid w(1)] by simp_all
    have t: "download_tick E Ec Es (R, S) = (?R, ?S)"
      by (simp add: download_tick_def S1 answer_peer_def send_def does_def)
    have "read_jobs ?S = [jr']" by (simp add: send_def does_def)
    from Suc.IH [OF Suc.prems(1) this R1(1)] w R1(2) write_keeps_id [OF w(1)] Suc.prems(4) jid show ?thesis
      by (simp add: funpow_swap1 t)
  next
    case finished
    let ?m = "new_done (job_id jr') (file_num jr')"
    let ?S = "send ?m (S\<lparr>read_jobs := []\<rparr>)"
    let ?R = "receive E Ec ?m R"
    have S1: "conn_step Es (JobTick (\<lambda>_. True)) S = (Running, ?S)"
      using conn_job_tick [OF Suc.prems(2), of Es None jr'] rd Suc.prems(1) finished jid by simp
    have R1: "r_write_jobs ?R = []" "r_disk ?R = dw'"
      using receive_done [OF Suc.prems(3), of "job_id jr'" E Ec "file_num jr'"] jid Suc.prems(4,5) rd finished by simp_all
    have t: "download_tick E Ec Es (R, S) = (?R, ?S)"
      by (simp add: download_tick_def S1 answer_peer_def send_def does_def)
    have "read_jobs ?S = []" by (simp add: send_def does_def)
    from idle_job_ticks [OF this, where E = E and Ec = Ec and Es = Es and n = n and R = ?R] R1 show ?thesis by (auto simp: funpow_swap1 t)
  qed
qed


lemma send_files_request:
  assumes "ui_queue R = [SendFiles i p dp hid True]" "r_sends E = (\<lambda>_. True)" "r_write_jobs R = []"
  shows "\<exists>R'. remote_step E Ec UiEvent R = (Running, R') \<and>
    sent_to_peer (drop (length (r_out R)) (r_out R')) = [new_send i p hid] \<and>
    r_write_jobs R' = [new_write i dp []] \<and> r_disk R' = r_disk R \<and> remove_jobs R' = remove_jobs R"
  using assms by (simp add: remote_step_def start_send_files_def r_send_def r_does_def of_bool_def Let_def)

lemma send_request_answered:
  assumes "authorized S" "file_transfer S \<noteq> None" "log_ok Es" "\<not> new_read_is_too_large (tree_at Es p) hid"
    and "new_read i p (tree_at Es p) hid = Some jr" "read_jobs S = []"
  shows "\<exists>S'. on_message Es (new_send i p hid) S = (Done True, S') \<and>
    to_peer_messages (drop (length (out S)) (out S')) = [new_dir i (files jr)] \<and> read_jobs S' = [jr]"
proof -
  let ?S = "touch Es S"
  obtain own S0 where g: "Config.get_id Es ?S = (own, S0)" by force
  have o: "out S0 = out S" "read_jobs S0 = []"
    using out_got_id [OF g] g assms(6)
    by (auto simp: touch_def Config.get_id_def set_id_def store_config_def Let_def split: if_splits option.splits)
  show ?thesis
    using assms g o
    by (simp add: new_send_def on_message_def on_file_send_def logged_def touch_def send_def does_def Let_def)
qed

lemma folder_received:
  assumes "r_write_jobs R = [new_write i dp []]"
  shows "r_write_jobs (receive E Ec (new_dir i fs) R) = [(new_write i dp [])\<lparr>files := fs\<rparr>] \<and>
    r_disk (receive E Ec (new_dir i fs) R) = r_disk R"
  using assms
  by (simp add: receive_def remote_step_def handle_msg_from_peer_def new_dir_def on_folder_def of_bool_def get_job_def
      put_r_job_def put_job_def r_does_def new_write_def Let_def)



subsection \<open>What goes wrong\<close>

lemma write_never_panics: "write_block F b side j d \<noteq> (Panicked, x)"
  by (auto simp: write_block_def write_data_def Let_def split: option.splits if_splits)


text \<open>
  C40: A download that cannot be written is reported as done. When the disk refuses a block, nothing
  is shown but the progress of the jobs, and the peer's message that everything was sent then shows
  the job as done, without an error.
\<close>

theorem failed_write_is_reported_done:
  assumes "get_job i (r_write_jobs R) = Some jw" "remove_jobs R i = None" "b_id b = i"
    and "write_block (r_fs E) b None jw (r_disk R) = (Failed err, jw', d')"
  shows "\<exists>cs. r_out (receive E Ec (new_done i n) (receive E Ec (new_block b) R)) = r_out R @ map Show cs @ [Show (JobDone i n)] \<and>
    list_all (\<lambda>c. case c of JobProgress _ _ _ _ _ \<Rightarrow> True | _ \<Rightarrow> False) cs"
proof -
  let ?R = "(put_r_job jw' (R\<lparr>r_last_recv := r_now E\<rparr>))\<lparr>r_disk := d'\<rparr>"
  have s: "receive E Ec (new_block b) R = update_jobs_status E ?R"
    using assms(1,3,4)
    by (simp add: receive_def remote_step_def handle_msg_from_peer_def new_block_def on_block_def of_bool_def)
  obtain cs where cs: "r_out (update_jobs_status E ?R) = r_out ?R @ map Show cs"
    "list_all (\<lambda>c. case c of JobProgress _ _ _ _ _ \<Rightarrow> True | _ \<Rightarrow> False) cs" "core (update_jobs_status E ?R) = core ?R"
    using jobs_status_progress [of ?R E] by (auto simp: progress_only_def)
  have "remove_jobs (update_jobs_status E ?R) i = None" using cs(3) assms(2) by (simp add: core_def put_r_job_def)
  then have "r_out (receive E Ec (new_done i n) (update_jobs_status E ?R)) = r_out (update_jobs_status E ?R) @ [Show (JobDone i n)]"
    by (auto simp: receive_def remote_step_def handle_msg_from_peer_def new_done_def on_done_def of_bool_def handle_job_status_def
        job_message_def r_does_def Let_def split: option.splits)
  then show ?thesis using s cs(1,2) by (auto simp: put_r_job_def)
qed

subsection \<open>Removing a folder\<close>

definition removal_path :: "remove_job \<Rightarrow> nat \<Rightarrow> string" where
  "removal_path j k = rj_path j @ rj_sep j @ f_name (rj_files j ! k)"

text \<open>File \<open>k\<close> of a local removal is about to be removed.\<close>

definition removing :: "int \<Rightarrow> remove_job \<Rightarrow> nat \<Rightarrow> remote \<Rightarrow> bool" where
  "removing i j k R \<longleftrightarrow>
     ui_queue R = [RemoveFile i (removal_path j k) (int k) False] \<and>
     (\<exists>t. remove_jobs R i = Some (j\<lparr>last_job_status := t\<rparr>))"

definition removed :: "'e remote_env_scheme \<Rightarrow> remove_job \<Rightarrow> nat \<Rightarrow> nat \<Rightarrow> disk \<Rightarrow> string \<rightharpoonup> bytes" where
  "removed E j a b d p =
     (if (\<exists>k. a \<le> k \<and> k < b \<and> p = removal_path j k) \<and> r_remove_error E p = None then None else contents d p)"

lemma if_merge: "(if Q \<and> r then x else if a \<and> r then x else y) = (if (a \<or> Q) \<and> r then x else y)"
  by simp

lemma removed_split:
  assumes "contents d1 = removed E j k (Suc k) d" "k < n"
  shows "removed E j (Suc k) n d1 = removed E j k n d"
proof
  fix p
  have one: "(\<exists>x. k \<le> x \<and> x < Suc k \<and> p = removal_path j x) \<longleftrightarrow> p = removal_path j k"
    by (auto simp: le_less_Suc_eq)
  have all: "(\<exists>x. k \<le> x \<and> x < n \<and> p = removal_path j x) \<longleftrightarrow>
      p = removal_path j k \<or> (\<exists>x. Suc k \<le> x \<and> x < n \<and> p = removal_path j x)"
    using assms(2) by (metis Suc_leI Suc_leD le_eq_less_or_eq)
  have m1: "contents d1 p = (if p = removal_path j k \<and> r_remove_error E p = None then None else contents d p)"
    unfolding assms(1) removed_def one by simp
  show "removed E j (Suc k) n d1 p = removed E j k n d p"
    unfolding removed_def m1 all by (rule if_merge)
qed

lemma removal_step:
  assumes "removing i j k R" "no_confirm j" "\<not> rj_is_remote j" "k < length (rj_files j)" "length (rj_files j) < 2 ^ 31"
  shows "\<exists>R'. remote_step E Ec UiEvent R = (Running, R') \<and>
    contents (r_disk R') = removed E j k (Suc k) (r_disk R) \<and>
    (if Suc k < length (rj_files j) then removing i j (Suc k) R' else ui_queue R' = [] \<and> remove_jobs R' i = None)"
proof -
  obtain t where q: "ui_queue R = [RemoveFile i (removal_path j k) (int k) False]"
    "remove_jobs R i = Some (j\<lparr>last_job_status := t\<rparr>)"
    using assms(1) by (auto simp: removing_def)
  have k: "usize_of_i32 (wrap_i32 (int k + 1)) = Suc k"
    using assms(4,5) usize_of_small [of "Suc k"] wrap_i32_id [of "int (Suc k)"] by (simp add: add.commute)
  have d: "removed E j k (Suc k) (r_disk R) = (if r_remove_error E (removal_path j k) = None
      then (contents (r_disk R))(removal_path j k := None) else contents (r_disk R))"
    by (rule ext) (auto simp: removed_def le_less_Suc_eq)
  show ?thesis
    using q assms(2,3) k
    by (cases "r_remove_error E (removal_path j k)"; cases "Suc k < length (rj_files j)")
      (auto simp: remote_step_def local_remove_file_def handle_job_status_def job_message_def enqueue_def r_does_def
        of_bool_def removing_def removal_path_def d Let_def add.commute)
qed

lemma removal_run:
  assumes "removing i j k R" "no_confirm j" "\<not> rj_is_remote j" "k < length (rj_files j)" "length (rj_files j) < 2 ^ 31"
  shows "\<exists>R'. remote_loop (replicate (length (rj_files j) - k) (E, UiEvent)) Ec R = (Running, R') \<and>
    contents (r_disk R') = removed E j k (length (rj_files j)) (r_disk R) \<and> ui_queue R' = [] \<and> remove_jobs R' i = None"
  using assms
proof (induction "length (rj_files j) - Suc k" arbitrary: k R)
  case 0
  then have e: "length (rj_files j) = Suc k" by simp
  with removal_step [OF "0.prems", of E Ec] show ?case by auto
next
  case (Suc m)
  then have lt: "Suc k < length (rj_files j)" by simp
  obtain R1 where R1: "remote_step E Ec UiEvent R = (Running, R1)" "contents (r_disk R1) = removed E j k (Suc k) (r_disk R)"
    "removing i j (Suc k) R1"
    using removal_step [OF Suc.prems, of E Ec] lt by auto
  have m: "m = length (rj_files j) - Suc (Suc k)" using Suc.hyps(2) by simp
  obtain R' where R': "remote_loop (replicate (length (rj_files j) - Suc k) (E, UiEvent)) Ec R1 = (Running, R')"
    "contents (r_disk R') = removed E j (Suc k) (length (rj_files j)) (r_disk R1)" "ui_queue R' = []" "remove_jobs R' i = None"
    using Suc.hyps(1) [OF m R1(3) Suc.prems(2,3) lt Suc.prems(5)] by blast
  have "length (rj_files j) - k = Suc (length (rj_files j) - Suc k)" using lt by simp
  moreover have "removed E j (Suc k) (length (rj_files j)) (r_disk R1) = removed E j k (length (rj_files j)) (r_disk R)"
    using removed_split [OF R1(2)] lt by simp
  ultimately show ?case using R1(1) R'(1,2,3,4) by simp
qed

text \<open>
  C38: Deleting a folder ends. Once the user has confirmed all files of a local removal, the loop
  takes the files one after another, each when the one before is gone or could not be removed, and
  after as many commands as there are files it has tried every one exactly: those the system
  lets go are removed, everything else is untouched, and the removal and its commands are gone.
\<close>

theorem removal_visits_every_file:
  assumes "remove_jobs R i = Some j" "no_confirm j" "\<not> rj_is_remote j" "rj_files j \<noteq> []" "length (rj_files j) < 2 ^ 31"
    and "ui_queue R = [RemoveFile i (removal_path j 0) 0 False]"
  shows "\<exists>R'. remote_loop (replicate (length (rj_files j)) (E, UiEvent)) Ec R = (Running, R') \<and>
    ui_queue R' = [] \<and> remove_jobs R' i = None \<and>
    (\<forall>p. contents (r_disk R') p = (if (\<exists>k < length (rj_files j). p = removal_path j k) \<and> r_remove_error E p = None
       then None else contents (r_disk R) p))"
proof -
  have "removing i j 0 R" using assms(1,6) by (auto simp: removing_def intro: exI [of _ "last_job_status j"])
  from removal_run [OF this assms(2,3) _ assms(5), of E Ec] assms(4) show ?thesis by (auto simp: removed_def)
qed

subsection \<open>A folder to transfer\<close>

definition sample_tree :: node where
  "sample_tree = Folder True 0 [(''a'', Regular 3 9), (''b'', Regular 0 9)]"

definition sample_remote_env :: remote_env where
  "sample_remote_env = config_env.extend sample_config_env \<lparr>my_username = ''u'', digest = (\<lambda>b. b),
     parse_dirs = (\<lambda>_. Map.empty), print_dirs = (\<lambda>_. []), r_now = 5000, r_fs = sample_fs,
     r_tree = (\<lambda>p. if p = ''s'' then Some sample_tree else None), r_sends = (\<lambda>_. True), r_remove_error = (\<lambda>_. None),
     r_create_error = (\<lambda>_. None), own_platform = ''Linux'', cliprdr_created = True, png_ok = (\<lambda>_ _ _. True)\<rparr>"

definition sample_remote :: remote where
  "sample_remote = \<lparr>lc = sample_login, r_clip = \<lparr>system_text = None, clip_content = []\<rparr>, r_read_jobs = [], r_write_jobs = [],
     remove_jobs = Map.empty, quick_timer = False, last_status = 0, last_transferred = Map.empty, first_frame = False,
     clip_file_context = False, server_keyboard = True, server_clipboard = True, server_file = True, r_disk = sample_disk,
     r_last_recv = 4000, ui_queue = [], r_out = []\<rparr>"

definition sample_cm_env :: cm_env where
  "sample_cm_env = config_env.extend sample_config_env \<lparr>cm_fs = sample_fs, home_dir = ''/home'', cm_tree = (\<lambda>_. None),
     remove_file_error = (\<lambda>_. None), create_dir_error = (\<lambda>_. None), remove_dir_error = (\<lambda>_ _. None),
     reply_sent = (\<lambda>_. True), cliprdr_ok = True\<rparr>"

definition sample_cm :: cm_world where
  "sample_cm = settings.extend default_settings \<lparr>cm_clients = Map.empty, cm_click_time = 0, cm_senders = [], cm_calls = [],
     mails = [], tx_clip_file = [], cm_disk = \<lparr>contents = Map.empty, mtimes = Map.empty\<rparr>, dir_operations = [], cm_exited = False\<rparr>"

definition sample_clip_env :: clip_env where
  "sample_clip_env = \<lparr>zstd = sample_fs, context_ok = True, set_text_ok = True\<rparr>"

definition sample_listing :: "file_entry list" where
  "sample_listing = [\<lparr>entry_type = RegFile, f_name = ''a'', is_hidden = False, f_size = 3, modified_time = 9\<rparr>,
     \<lparr>entry_type = RegFile, f_name = ''b'', is_hidden = False, f_size = 0, modified_time = 9\<rparr>]"

lemma sample_read: "new_read 7 ''s'' (Some sample_tree) hid = Some (new_write 7 ''s'' sample_listing)"
  by (simp add: new_read_def get_recursive_files_def sample_tree_def sample_listing_def new_write_def listed_def dir_entry_def
      join_path_def starts_with_def Let_def)

lemma sample_sources: "sources_ok (new_write 7 ''s'' sample_listing) sample_disk [[1, 2, 3], []]"
  by (auto simp: sources_ok_def new_write_def sample_listing_def sample_disk_def target_def join_job_def join_path_def
      starts_with_def less_Suc_eq)

lemma sample_targets:
  assumes "map f_name (files j) = [''a'', ''b'']" "path j = ''t''"
  shows "targets_ok j \<and> target j 0 = ''t/a'' \<and> target j 1 = ''t/b''"
proof -
  have l: "length (files j) = 2" using assms(1) by (metis length_map length_Cons list.size(3) numeral_2_eq_2)
  have n: "f_name (files j ! 0) = ''a''" "f_name (files j ! 1) = ''b''"
    using assms(1) l by (metis nth_map nth_Cons_0 zero_less_numeral, metis nth_map nth_Cons_Suc nth_Cons_0 One_nat_def one_less_numeral_iff semiring_norm(76))
  have t: "target j 0 = ''t/a''" "target j 1 = ''t/b''" "temporary j 0 = ''t/a.download''" "temporary j 1 = ''t/b.download''"
    using n assms(2) by (simp_all add: target_def temporary_def download_path_def join_job_def join_path_def starts_with_def)
  have "targets_ok j" unfolding targets_ok_def l using t by (simp add: less_2_cases_iff all_conj_distrib)
  with t show ?thesis by simp
qed

lemma sample_remote_reads [simp]:
  "r_now sample_remote_env = 5000" "r_fs sample_remote_env = sample_fs" "r_sends sample_remote_env = (\<lambda>_. True)"
  "r_tree sample_remote_env ''s'' = Some sample_tree" "r_remove_error sample_remote_env p = None"
  "cm_fs sample_cm_env = sample_fs"
  by (simp_all add: sample_remote_env_def sample_cm_env_def config_env.defs)

lemma sample_remote_fields [simp]:
  "r_read_jobs sample_remote = []" "r_write_jobs sample_remote = []" "r_disk sample_remote = sample_disk"
  "r_last_recv sample_remote = 4000" "r_out sample_remote = []" "ui_queue sample_remote = []" "remove_jobs sample_remote = Map.empty"
  by (simp_all add: sample_remote_def)




theorem failed_write_is_reported_done_witness:
  "\<exists>cs. r_out (receive (sample_remote_env\<lparr>r_fs := sample_fs\<lparr>create_ok := (\<lambda>_. False)\<rparr>\<rparr>) sample_clip_env (new_done 7 1)
      (receive (sample_remote_env\<lparr>r_fs := sample_fs\<lparr>create_ok := (\<lambda>_. False)\<rparr>\<rparr>) sample_clip_env
        (new_block \<lparr>b_id = 7, b_file_num = 0, b_data = [1], b_compressed = False\<rparr>)
        (sample_remote\<lparr>r_write_jobs := [new_write 7 ''t'' sample_listing]\<rparr>))) = map Show cs @ [Show (JobDone 7 1)] \<and>
    list_all (\<lambda>c. case c of JobProgress _ _ _ _ _ \<Rightarrow> True | _ \<Rightarrow> False) cs"
proof -
  let ?R = "sample_remote\<lparr>r_write_jobs := [new_write 7 ''t'' sample_listing]\<rparr>"
  let ?E = "sample_remote_env\<lparr>r_fs := sample_fs\<lparr>create_ok := (\<lambda>_. False)\<rparr>\<rparr>"
  let ?b = "\<lparr>b_id = 7, b_file_num = 0, b_data = [1], b_compressed = False\<rparr>"
  obtain jw' d' where w: "write_block (r_fs ?E) ?b None (new_write 7 ''t'' sample_listing) (r_disk ?R) = (Failed ''create'', jw', d')"
    by (simp add: write_block_def new_write_def sample_listing_def sample_fs_def usize_of_i32_def Let_def)
  have "get_job 7 (r_write_jobs ?R) = Some (new_write 7 ''t'' sample_listing)" "remove_jobs ?R 7 = None" "b_id ?b = 7"
    by (simp_all add: get_job_def new_write_def)
  from failed_write_is_reported_done [OF this w, of sample_clip_env 1] show ?thesis by simp
qed

theorem removal_visits_every_file_witness:
  "\<exists>R'. remote_loop (replicate 2 (sample_remote_env, UiEvent)) sample_clip_env
      (sample_remote\<lparr>remove_jobs := [3 \<mapsto> \<lparr>rj_files = sample_listing, rj_path = ''s'', rj_sep = ''/'', rj_is_remote = False,
           no_confirm = True, last_job_status = 0\<rparr>],
         ui_queue := [RemoveFile 3 ''s/a'' 0 False]\<rparr>) = (Running, R') \<and>
    contents (r_disk R') ''s/a'' = None \<and> contents (r_disk R') ''s/b'' = None \<and> remove_jobs R' 3 = None"
proof -
  let ?j = "\<lparr>rj_files = sample_listing, rj_path = ''s'', rj_sep = ''/'', rj_is_remote = False, no_confirm = True, last_job_status = 0\<rparr>"
  let ?R = "sample_remote\<lparr>remove_jobs := [3 \<mapsto> ?j], ui_queue := [RemoveFile 3 ''s/a'' 0 False]\<rparr>"
  have l: "length (rj_files ?j) = 2" by (simp add: sample_listing_def)
  have p: "removal_path ?j 0 = ''s/a''" "removal_path ?j 1 = ''s/b''" by (simp_all add: removal_path_def sample_listing_def)
  have h: "remove_jobs ?R 3 = Some ?j" "no_confirm ?j" "\<not> rj_is_remote ?j" "rj_files ?j \<noteq> []" "length (rj_files ?j) < 2 ^ 31"
    "ui_queue ?R = [RemoveFile 3 (removal_path ?j 0) 0 False]"
    using l p by auto
  obtain R' where R': "remote_loop (replicate (length (rj_files ?j)) (sample_remote_env, UiEvent)) sample_clip_env ?R = (Running, R')"
    "remove_jobs R' 3 = None"
    "\<forall>p. contents (r_disk R') p = (if (\<exists>k < length (rj_files ?j). p = removal_path ?j k) \<and> r_remove_error sample_remote_env p = None
       then None else contents (r_disk ?R) p)"
    using removal_visits_every_file [OF h, of sample_remote_env sample_clip_env] by blast
  have "\<exists>k < length (rj_files ?j). ''s/a'' = removal_path ?j k" "\<exists>k < length (rj_files ?j). ''s/b'' = removal_path ?j k"
    using p l by (metis zero_less_numeral, metis one_less_numeral_iff semiring_norm(76))
  with R' l show ?thesis by simp
qed

end
