(* ===== verification/Keys.thy ===== *)
theory Keys
  imports Message_Proto
begin

text \<open>
  The keys: their numbers on the wire (\<open>message.proto\<close>), the keys of the library that presses them
  (\<open>libs/enigo/src/lib.rs\<close>), the table of the controlled side from one to the other
  (\<open>server/input_service.rs\<close>), the table of the names the user interface gives to keys
  (\<open>client.rs\<close>), and the predicates of \<open>common.rs\<close>.
\<close>

fun ctl_value :: "control_key \<Rightarrow> int" where
  "ctl_value CUnknown = 0" | "ctl_value Alt = 1" | "ctl_value Backspace = 2" | "ctl_value CapsLock = 3"
| "ctl_value Control = 4" | "ctl_value Delete = 5" | "ctl_value DownArrow = 6" | "ctl_value End = 7"
| "ctl_value Escape = 8" | "ctl_value F1 = 9" | "ctl_value F10 = 10" | "ctl_value F11 = 11"
| "ctl_value F12 = 12" | "ctl_value F2 = 13" | "ctl_value F3 = 14" | "ctl_value F4 = 15"
| "ctl_value F5 = 16" | "ctl_value F6 = 17" | "ctl_value F7 = 18" | "ctl_value F8 = 19"
| "ctl_value F9 = 20" | "ctl_value Home = 21" | "ctl_value LeftArrow = 22" | "ctl_value Meta = 23"
| "ctl_value Option = 24" | "ctl_value PageDown = 25" | "ctl_value PageUp = 26" | "ctl_value Return = 27"
| "ctl_value RightArrow = 28" | "ctl_value Shift = 29" | "ctl_value Space = 30" | "ctl_value Tab = 31"
| "ctl_value UpArrow = 32" | "ctl_value Numpad0 = 33" | "ctl_value Numpad1 = 34" | "ctl_value Numpad2 = 35"
| "ctl_value Numpad3 = 36" | "ctl_value Numpad4 = 37" | "ctl_value Numpad5 = 38" | "ctl_value Numpad6 = 39"
| "ctl_value Numpad7 = 40" | "ctl_value Numpad8 = 41" | "ctl_value Numpad9 = 42" | "ctl_value Cancel = 43"
| "ctl_value Clear = 44" | "ctl_value Menu = 45" | "ctl_value Pause = 46" | "ctl_value Kana = 47"
| "ctl_value Hangul = 48" | "ctl_value Junja = 49" | "ctl_value Final = 50" | "ctl_value Hanja = 51"
| "ctl_value Kanji = 52" | "ctl_value Convert = 53" | "ctl_value Select = 54" | "ctl_value Print = 55"
| "ctl_value Execute = 56" | "ctl_value Snapshot_Key = 57" | "ctl_value Insert = 58"
| "ctl_value Help = 59" | "ctl_value Sleep = 60" | "ctl_value Separator = 61" | "ctl_value Scroll = 62"
| "ctl_value NumLock = 63" | "ctl_value RWin = 64" | "ctl_value Apps = 65" | "ctl_value Multiply = 66"
| "ctl_value Add = 67" | "ctl_value Subtract = 68" | "ctl_value Decimal = 69" | "ctl_value Divide = 70"
| "ctl_value Equals = 71" | "ctl_value NumpadEnter = 72" | "ctl_value RShift = 73"
| "ctl_value RControl = 74" | "ctl_value RAlt = 75" | "ctl_value CtrlAltDel = 100"
| "ctl_value LockScreen = 101"

fun enum_value :: "control_key proto_enum \<Rightarrow> int" where
  "enum_value (Known k) = ctl_value k"
| "enum_value (Unknown v) = v"

datatype (plugins only:) enigo_key =
  KAlt | KBackspace | KCapsLock | KCommand | KControl | KDelete | KDownArrow | KEnd | KEscape | KF1
  | KF10 | KF11 | KF12 | KF2 | KF3 | KF4 | KF5 | KF6 | KF7 | KF8 | KF9 | KHome | KLeftArrow | KMeta
  | KOption | KPageDown | KPageUp | KReturn | KRightArrow | KShift | KSpace | KSuper | KTab | KUpArrow
  | KWindows | KNumpad0 | KNumpad1 | KNumpad2 | KNumpad3 | KNumpad4 | KNumpad5 | KNumpad6 | KNumpad7
  | KNumpad8 | KNumpad9 | KCancel | KClear | KPause | KKana | KHangul | KJunja | KFinal | KHanja | KKanji
  | KConvert | KSelect | KPrint | KExecute | KSnapshot | KInsert | KHelp | KSleep | KSeparator | KVolumeUp
  | KVolumeDown | KMute | KScroll | KNumLock | KRWin | KApps | KMultiply | KAdd | KSubtract | KDecimal
  | KDivide | KEquals | KNumpadEnter | KRightShift | KRightControl | KRightAlt | KLayout nat | KRaw nat

definition key_table :: "(control_key \<times> enigo_key) list" where
  "key_table =
    [(Alt, KAlt), (Backspace, KBackspace), (CapsLock, KCapsLock), (Control, KControl), (Delete, KDelete),
     (DownArrow, KDownArrow), (End, KEnd), (Escape, KEscape), (F1, KF1), (F10, KF10), (F11, KF11),
     (F12, KF12), (F2, KF2), (F3, KF3), (F4, KF4), (F5, KF5), (F6, KF6), (F7, KF7), (F8, KF8), (F9, KF9),
     (Home, KHome), (LeftArrow, KLeftArrow), (Meta, KMeta), (Option, KOption), (PageDown, KPageDown),
     (PageUp, KPageUp), (Return, KReturn), (RightArrow, KRightArrow), (Shift, KShift), (Space, KSpace),
     (Tab, KTab), (UpArrow, KUpArrow), (Numpad0, KNumpad0), (Numpad1, KNumpad1), (Numpad2, KNumpad2),
     (Numpad3, KNumpad3), (Numpad4, KNumpad4), (Numpad5, KNumpad5), (Numpad6, KNumpad6),
     (Numpad7, KNumpad7), (Numpad8, KNumpad8), (Numpad9, KNumpad9), (Cancel, KCancel), (Clear, KClear),
     (Menu, KAlt), (Pause, KPause), (Kana, KKana), (Hangul, KHangul), (Junja, KJunja), (Final, KFinal),
     (Hanja, KHanja), (Kanji, KKanji), (Convert, KConvert), (Select, KSelect), (Print, KPrint),
     (Execute, KExecute), (Snapshot_Key, KSnapshot), (Insert, KInsert), (Help, KHelp), (Sleep, KSleep),
     (Separator, KSeparator), (Scroll, KScroll), (NumLock, KNumLock), (RWin, KRWin), (Apps, KApps),
     (Multiply, KMultiply), (Add, KAdd), (Subtract, KSubtract), (Decimal, KDecimal), (Divide, KDivide),
     (Equals, KEquals), (NumpadEnter, KNumpadEnter), (RAlt, KRightAlt), (RWin, KRWin),
     (RControl, KRightControl), (RShift, KRightShift)]"

text \<open>Collected into a \<open>HashMap<i32, Key>\<close>; the only key that occurs twice has one value.\<close>

definition key_map :: "int \<Rightarrow> enigo_key option" where
  "key_map v = map_of (map (\<lambda>(a, b). (ctl_value a, b)) key_table) v"

definition numpad_keys :: "control_key list" where
  "numpad_keys = [Home, UpArrow, PageUp, LeftArrow, RightArrow, End, DownArrow, PageDown, Insert, Delete]"

definition NUMPAD_KEY_MAP :: "int \<Rightarrow> bool" where
  "NUMPAD_KEY_MAP v \<longleftrightarrow> v \<in> set (map ctl_value numpad_keys)"

datatype client_key = ClControl control_key | ClChr nat | Cl_Raw nat

definition KEY_MAP :: "(string \<times> client_key) list" where
  "KEY_MAP =
    [(''VK_A'', ClChr 97), (''VK_B'', ClChr 98), (''VK_C'', ClChr 99), (''VK_D'', ClChr 100),
     (''VK_E'', ClChr 101), (''VK_F'', ClChr 102), (''VK_G'', ClChr 103), (''VK_H'', ClChr 104),
     (''VK_I'', ClChr 105), (''VK_J'', ClChr 106), (''VK_K'', ClChr 107), (''VK_L'', ClChr 108),
     (''VK_M'', ClChr 109), (''VK_N'', ClChr 110), (''VK_O'', ClChr 111), (''VK_P'', ClChr 112),
     (''VK_Q'', ClChr 113), (''VK_R'', ClChr 114), (''VK_S'', ClChr 115), (''VK_T'', ClChr 116),
     (''VK_U'', ClChr 117), (''VK_V'', ClChr 118), (''VK_W'', ClChr 119), (''VK_X'', ClChr 120),
     (''VK_Y'', ClChr 121), (''VK_Z'', ClChr 122), (''VK_0'', ClChr 48), (''VK_1'', ClChr 49),
     (''VK_2'', ClChr 50), (''VK_3'', ClChr 51), (''VK_4'', ClChr 52), (''VK_5'', ClChr 53),
     (''VK_6'', ClChr 54), (''VK_7'', ClChr 55), (''VK_8'', ClChr 56), (''VK_9'', ClChr 57),
     (''VK_COMMA'', ClChr 44), (''VK_SLASH'', ClChr 47), (''VK_SEMICOLON'', ClChr 59),
     (''VK_QUOTE'', ClChr 39), (''VK_LBRACKET'', ClChr 91), (''VK_RBRACKET'', ClChr 93),
     (''VK_BACKSLASH'', ClChr 92), (''VK_MINUS'', ClChr 45), (''VK_PLUS'', ClChr 61),
     (''VK_DIVIDE'', ClControl Divide), (''VK_MULTIPLY'', ClControl Multiply),
     (''VK_SUBTRACT'', ClControl Subtract), (''VK_ADD'', ClControl Add),
     (''VK_DECIMAL'', ClControl Decimal), (''VK_F1'', ClControl F1), (''VK_F2'', ClControl F2),
     (''VK_F3'', ClControl F3), (''VK_F4'', ClControl F4), (''VK_F5'', ClControl F5),
     (''VK_F6'', ClControl F6), (''VK_F7'', ClControl F7), (''VK_F8'', ClControl F8),
     (''VK_F9'', ClControl F9), (''VK_F10'', ClControl F10), (''VK_F11'', ClControl F11),
     (''VK_F12'', ClControl F12), (''VK_ENTER'', ClControl Return), (''VK_CANCEL'', ClControl Cancel),
     (''VK_BACK'', ClControl Backspace), (''VK_TAB'', ClControl Tab), (''VK_CLEAR'', ClControl Clear),
     (''VK_RETURN'', ClControl Return), (''VK_SHIFT'', ClControl Shift),
     (''VK_CONTROL'', ClControl Control), (''VK_MENU'', ClControl Alt), (''VK_PAUSE'', ClControl Pause),
     (''VK_CAPITAL'', ClControl CapsLock), (''VK_KANA'', ClControl Kana),
     (''VK_HANGUL'', ClControl Hangul), (''VK_JUNJA'', ClControl Junja), (''VK_FINAL'', ClControl Final),
     (''VK_HANJA'', ClControl Hanja), (''VK_KANJI'', ClControl Kanji), (''VK_ESCAPE'', ClControl Escape),
     (''VK_CONVERT'', ClControl Convert), (''VK_SPACE'', ClControl Space),
     (''VK_PRIOR'', ClControl PageUp), (''VK_NEXT'', ClControl PageDown), (''VK_END'', ClControl End),
     (''VK_HOME'', ClControl Home), (''VK_LEFT'', ClControl LeftArrow), (''VK_UP'', ClControl UpArrow),
     (''VK_RIGHT'', ClControl RightArrow), (''VK_DOWN'', ClControl DownArrow),
     (''VK_SELECT'', ClControl Select), (''VK_PRINT'', ClControl Print),
     (''VK_EXECUTE'', ClControl Execute), (''VK_SNAPSHOT'', ClControl Snapshot_Key),
     (''VK_INSERT'', ClControl Insert), (''VK_DELETE'', ClControl Delete), (''VK_HELP'', ClControl Help),
     (''VK_SLEEP'', ClControl Sleep), (''VK_SEPARATOR'', ClControl Separator),
     (''VK_NUMPAD0'', ClControl Numpad0), (''VK_NUMPAD1'', ClControl Numpad1),
     (''VK_NUMPAD2'', ClControl Numpad2), (''VK_NUMPAD3'', ClControl Numpad3),
     (''VK_NUMPAD4'', ClControl Numpad4), (''VK_NUMPAD5'', ClControl Numpad5),
     (''VK_NUMPAD6'', ClControl Numpad6), (''VK_NUMPAD7'', ClControl Numpad7),
     (''VK_NUMPAD8'', ClControl Numpad8), (''VK_NUMPAD9'', ClControl Numpad9), (''Apps'', ClControl Apps),
     (''Meta'', ClControl Meta), (''RAlt'', ClControl RAlt), (''RWin'', ClControl RWin),
     (''RControl'', ClControl RControl), (''RShift'', ClControl RShift),
     (''CTRL_ALT_DEL'', ClControl CtrlAltDel), (''LOCK_SCREEN'', ClControl LockScreen)]"

definition client_key_map :: "string \<Rightarrow> client_key option" where
  "client_key_map n = map_of KEY_MAP n"

subsection \<open>Predicates on key events\<close>

definition is_control_key :: "key_event \<Rightarrow> control_key \<Rightarrow> bool" where
  "is_control_key ke k = (case k_union ke of ControlKey c \<Rightarrow> enum_value c = ctl_value k | _ \<Rightarrow> False)"

definition is_modifier :: "key_event \<Rightarrow> bool" where
  "is_modifier ke = (case k_union ke of
       ControlKey c \<Rightarrow> enum_value c \<in> set (map ctl_value [Alt, Shift, Control, Meta, RAlt, RShift, RControl, RWin])
     | _ \<Rightarrow> False)"

definition valid_for_numlock :: "key_event \<Rightarrow> bool" where
  "valid_for_numlock ke = (case k_union ke of
       ControlKey c \<Rightarrow> ctl_value Numpad0 \<le> enum_value c \<and> enum_value c \<le> ctl_value Numpad9
         \<or> enum_value c = ctl_value Decimal
     | _ \<Rightarrow> False)"

lemma ctl_value_nonneg: "0 \<le> ctl_value k"
  by (cases k) simp_all

lemma ctl_value_small: "ctl_value k < 9999"
  by (cases k) simp_all

lemma ctl_value_inj: "ctl_value a = ctl_value b \<longleftrightarrow> a = b"
  by (cases a; cases b) simp_all

end
