(* ===== verification/Input_Service.thy ===== *)
theory Input_Service
  imports Keys Connection
begin

text \<open>
  Input on the controlled side, \<open>KdDeskTC_Client/src/server/input_service.rs\<close>: the handlers of mouse
  and key events, the table of the keys that are down with its time-out, and the two services that
  report the position and the shape of the cursor.

  The library that moves the mouse and presses the keys (Enigo) is a trace of calls; what it reads
  of the keyboard is \<open>key_state\<close> of the environment, a function of the calls made so far, and the
  environment differs from step to step, so that a user at the machine can type as well. The three
  builds are the values of \<open>os\<close>. \<open>KEYS_DOWN\<close> is an association list: its order is that of the
  \<open>HashMap\<close>'s iteration.
\<close>

datatype os = Windows | Linux | MacOS

datatype mouse_button = LeftButton | MiddleButton | RightButton

datatype en_call =
    KeyDown enigo_key
  | KeyUp enigo_key
  | TypeChar nat
  | TypeText string
  | MouseMoveTo int int
  | MouseMoveRelative int int
  | MouseDown mouse_button
  | MouseUp mouse_button
  | MouseScrollX int
  | MouseScrollY int
  | ResetFlag
  | AddFlag enigo_key
  | EnigoReset
  | SendSas
  | LockStation
  | SwitchToPrimary

record input_env =
  os_is :: os
  time_ms :: int
  key_state :: "en_call list \<Rightarrow> enigo_key \<Rightarrow> bool"

record input_state =
  calls :: "en_call list"
  keys_down :: "(nat \<times> int) list"
  latest_conn :: int
  latest_time :: int
  exiting :: bool

definition init_input :: input_state where
  "init_input = \<lparr>calls = [], keys_down = [], latest_conn = 0, latest_time = 0, exiting = False\<rparr>"

definition KEY_CHAR_START :: nat where "KEY_CHAR_START = 9999"

definition en :: "en_call \<Rightarrow> input_state \<Rightarrow> input_state" where
  "en c I = I\<lparr>calls := calls I @ [c]\<rparr>"

definition get_key_state :: "'e input_env_scheme \<Rightarrow> input_state \<Rightarrow> enigo_key \<Rightarrow> bool" where
  "get_key_state E I k = key_state E (calls I) k"

fun other_side :: "enigo_key \<Rightarrow> enigo_key option" where
  "other_side KShift = Some KRightShift"
| "other_side KControl = Some KRightControl"
| "other_side KAlt = Some KRightAlt"
| "other_side KMeta = Some KRWin"
| "other_side KRightShift = Some KShift"
| "other_side KRightControl = Some KControl"
| "other_side KRightAlt = Some KAlt"
| "other_side KRWin = Some KMeta"
| "other_side _ = None"

definition get_modifier_state :: "'e input_env_scheme \<Rightarrow> input_state \<Rightarrow> enigo_key \<Rightarrow> bool" where
  "get_modifier_state E I k =
     (get_key_state E I k \<or> (case other_side k of Some k' \<Rightarrow> get_key_state E I k' | None \<Rightarrow> False))"

text \<open>A number that is no character is the character 0.\<close>

definition valid_char :: "nat \<Rightarrow> bool" where
  "valid_char n \<longleftrightarrow> n < 0xD800 \<or> 0xE000 \<le> n \<and> n < 0x110000"

definition get_layout :: "nat \<Rightarrow> enigo_key" where
  "get_layout n = KLayout (if valid_char n then n else 0)"

subsection \<open>Keys that stay down\<close>

text \<open>The key of an entry of \<open>KEYS_DOWN\<close>.\<close>

definition key_of_entry :: "nat \<Rightarrow> enigo_key option" where
  "key_of_entry n = (if n < KEY_CHAR_START then key_map (int n) else Some (get_layout (n - KEY_CHAR_START)))"

definition fix_one :: "'e input_env_scheme \<Rightarrow> bool \<Rightarrow> nat \<times> int \<Rightarrow> input_state \<Rightarrow> input_state" where
  "fix_one E force e I =
     (if force \<or> time_ms E - snd e \<ge> 360000 then
        let I = I\<lparr>keys_down := AList.delete (fst e) (keys_down I)\<rparr> in
        (case key_of_entry (fst e) of Some k \<Rightarrow> en (KeyUp k) I | None \<Rightarrow> I)
      else I)"

definition fix_key_down_timeout :: "'e input_env_scheme \<Rightarrow> bool \<Rightarrow> input_state \<Rightarrow> input_state" where
  "fix_key_down_timeout E force I = fold (fix_one E force) (keys_down I) I"

definition fix_key_down_timeout_at_exit :: "'e input_env_scheme \<Rightarrow> input_state \<Rightarrow> input_state" where
  "fix_key_down_timeout_at_exit E I =
     (if exiting I then I else fix_key_down_timeout E True (I\<lparr>exiting := True\<rparr>))"

subsection \<open>Modifiers\<close>

definition fix_modifier ::
  "'e input_env_scheme \<Rightarrow> control_key proto_enum list \<Rightarrow> control_key \<Rightarrow> enigo_key \<Rightarrow> input_state \<Rightarrow> input_state" where
  "fix_modifier E mods key0 key1 I =
     (if get_modifier_state E I key1 \<and> ctl_value key0 \<notin> set (map enum_value mods) then
        if os_is E = Windows \<and> key0 = Control \<and> get_modifier_state E I KAlt then I
        else en (KeyUp key1) I
      else I)"

definition modifier_table :: "(control_key \<times> control_key \<times> enigo_key) list" where
  "modifier_table =
    [(Shift, Shift, KShift), (RShift, Shift, KRightShift), (Alt, Alt, KAlt), (RAlt, Alt, KRightAlt),
     (Control, Control, KControl), (RControl, Control, KRightControl), (Meta, Meta, KMeta), (RWin, Meta, KRWin)]"

definition fix_modifiers ::
  "'e input_env_scheme \<Rightarrow> control_key proto_enum list \<Rightarrow> int \<Rightarrow> input_state \<Rightarrow> input_state" where
  "fix_modifiers E mods ck I =
     fold (\<lambda>(own, key0, key1) I. if ck \<noteq> ctl_value own then fix_modifier E mods key0 key1 I else I) modifier_table I"

text \<open>Presses a modifier that is not down; it is released after the event.\<close>

definition press_modifier ::
  "'e input_env_scheme \<Rightarrow> enigo_key \<Rightarrow> enigo_key list \<times> input_state \<Rightarrow> enigo_key list \<times> input_state" where
  "press_modifier E k st =
     (case st of (rel, I) \<Rightarrow>
        if \<not> get_modifier_state E I k then (rel @ [k], en (KeyDown k) I) else (rel, I))"

definition release_all :: "enigo_key list \<Rightarrow> input_state \<Rightarrow> input_state" where
  "release_all ks I = fold (\<lambda>k. en (KeyUp k)) ks I"

subsection \<open>Mouse events\<close>

definition mouse_move_relative :: "int \<Rightarrow> int \<Rightarrow> input_state \<Rightarrow> input_state" where
  "mouse_move_relative x y = en (MouseMoveRelative x y)"

definition mouse_modifier ::
  "'e input_env_scheme \<Rightarrow> control_key proto_enum \<Rightarrow> enigo_key list \<times> input_state \<Rightarrow> enigo_key list \<times> input_state" where
  "mouse_modifier E m st =
     (case key_map (enum_value m) of
        None \<Rightarrow> st
      | Some k \<Rightarrow>
          if os_is E = MacOS then apsnd (en (AddFlag k)) st
          else if k \<noteq> KCapsLock \<and> k \<noteq> KNumLock then press_modifier E k st
          else st)"

definition button_of :: "int \<Rightarrow> mouse_button option" where
  "button_of b = (if b = 1 then Some LeftButton else if b = 2 then Some RightButton
     else if b = 4 then Some MiddleButton else None)"

definition mouse_action :: "'e input_env_scheme \<Rightarrow> mouse_event \<Rightarrow> input_state \<Rightarrow> input_state" where
  "mouse_action E me I =
     (let buttons = m_mask me div 8; evt_type = m_mask me mod 8 in
      if evt_type = 0 then en (MouseMoveTo (m_x me) (m_y me)) I
      else if evt_type = 1 then (case button_of buttons of Some b \<Rightarrow> en (MouseDown b) I | None \<Rightarrow> I)
      else if evt_type = 2 then (case button_of buttons of Some b \<Rightarrow> en (MouseUp b) I | None \<Rightarrow> I)
      else if evt_type = 3 then
        let x = (if os_is E = Windows then m_x me else wrap_i32 (- m_x me));
            y = (if os_is E = Windows then m_y me else wrap_i32 (- m_y me));
            I = (if x \<noteq> 0 then en (MouseScrollX x) I else I)
        in if y \<noteq> 0 then en (MouseScrollY y) I else I
      else I)"

definition mouse_modifiers :: "'e input_env_scheme \<Rightarrow> mouse_event \<Rightarrow> input_state \<Rightarrow> enigo_key list \<times> input_state" where
  "mouse_modifiers E me I =
     (if m_mask me mod 8 = 1 then
        let I = fix_modifiers E (m_modifiers me) 0 I
        in fold (mouse_modifier E) (m_modifiers me) ([], if os_is E = MacOS then en ResetFlag I else I)
      else ([], I))"

definition handle_mouse :: "'e input_env_scheme \<Rightarrow> mouse_event \<Rightarrow> int \<Rightarrow> input_state \<Rightarrow> input_state" where
  "handle_mouse E me conn I =
     (if exiting I then I
      else
        let I = (if m_mask me mod 8 = 0 then I\<lparr>latest_time := time_ms E, latest_conn := conn\<rparr> else I);
            st = mouse_modifiers E me I
        in release_all (fst st) (mouse_action E me (snd st)))"

subsection \<open>Key events\<close>

text \<open>What a modifier of a key event does: keys to release, whether caps lock and num lock are asked for.\<close>

definition key_modifier ::
  "'e input_env_scheme \<Rightarrow> control_key proto_enum
     \<Rightarrow> (bool \<times> bool) \<times> enigo_key list \<times> input_state \<Rightarrow> (bool \<times> bool) \<times> enigo_key list \<times> input_state" where
  "key_modifier E m st =
     (case key_map (enum_value m) of
        None \<Rightarrow> st
      | Some k \<Rightarrow>
          let I = snd (snd st) in
          if os_is E = Linux \<and> k = KAlt \<and> \<not> get_modifier_state E I k
             \<and> map_of (keys_down I) (nat (ctl_value RAlt)) \<noteq> None then st
          else if os_is E = MacOS then apsnd (apsnd (en (AddFlag k))) st
          else if k = KCapsLock then apfst (apfst (\<lambda>_. True)) st
          else if k = KNumLock then (if os_is E = Windows then apfst (apsnd (\<lambda>_. True)) st else st)
          else apsnd (press_modifier E k) st)"

definition click_key :: "enigo_key \<Rightarrow> input_state \<Rightarrow> input_state" where
  "click_key k I = en (KeyUp k) (en (KeyDown k) I)"

text \<open>Presses or releases a key and keeps the table of keys that are down.\<close>

definition press_or_release :: "'e input_env_scheme \<Rightarrow> bool \<Rightarrow> nat \<Rightarrow> enigo_key \<Rightarrow> input_state \<Rightarrow> input_state" where
  "press_or_release E dn n k I =
     (if dn then (let I = en (KeyDown k) I in I\<lparr>keys_down := AList.update n (time_ms E) (keys_down I)\<rparr>)
      else (let I = en (KeyUp k) I in I\<lparr>keys_down := AList.delete n (keys_down I)\<rparr>))"

text \<open>Whether num lock has to be switched back afterwards, and whether the screen is to be locked.\<close>

definition key_action ::
  "'e input_env_scheme \<Rightarrow> key_event \<Rightarrow> input_state \<Rightarrow> (bool \<times> bool) \<times> input_state" where
  "key_action E ke I =
     (case k_union ke of
        ControlKey c \<Rightarrow>
          (case key_map (enum_value c) of
             Some k \<Rightarrow>
               let off = (os_is E = Windows \<and> NUMPAD_KEY_MAP (enum_value c) \<and> get_key_state E I KNumLock);
                   I = (if off then click_key KNumLock I else I)
               in ((off, False), press_or_release E (down ke) (nat (enum_value c)) k I)
           | None \<Rightarrow>
               if enum_value c = ctl_value CtrlAltDel then ((False, False), en SendSas I)
               else if enum_value c = ctl_value LockScreen then
                 ((False, True), en SwitchToPrimary (if os_is E = Windows then en LockStation I else I))
               else ((False, False), I))
      | Chr c \<Rightarrow> ((False, False), press_or_release E (down ke) (c + KEY_CHAR_START) (get_layout c) I)
      | Unicode c \<Rightarrow> ((False, False), if valid_char c then en (TypeChar c) I else I)
      | Seq s \<Rightarrow> ((False, False), en (TypeText s) I)
      | NoKey \<Rightarrow> ((False, False), I))"

text \<open>The modifiers of a press; a release leaves them alone.\<close>

definition set_modifiers ::
  "'e input_env_scheme \<Rightarrow> key_event \<Rightarrow> input_state \<Rightarrow> (bool \<times> bool) \<times> enigo_key list \<times> input_state" where
  "set_modifiers E ke I =
     (let I = (if os_is E = MacOS then en ResetFlag I else I);
          ck = (case k_union ke of ControlKey c \<Rightarrow> enum_value c | _ \<Rightarrow> - 1)
      in if down ke
         then fold (key_modifier E) (k_modifiers ke) ((False, False), [], fix_modifiers E (k_modifiers ke) ck I)
         else ((False, False), [], I))"

definition sync_locks :: "'e input_env_scheme \<Rightarrow> key_event \<Rightarrow> bool \<times> bool \<Rightarrow> input_state \<Rightarrow> input_state" where
  "sync_locks E ke locks I =
     (let I = (if os_is E \<noteq> MacOS \<and> fst locks \<noteq> get_key_state E I KCapsLock then click_key KCapsLock I else I)
      in if os_is E = Windows \<and> valid_for_numlock ke \<and> snd locks \<noteq> get_key_state E I KNumLock
         then click_key KNumLock I else I)"

text \<open>\<open>handle_key_\<close>: the first result is whether the screen is to be locked.\<close>

definition handle_key_event :: "'e input_env_scheme \<Rightarrow> key_event \<Rightarrow> input_state \<Rightarrow> bool \<times> input_state" where
  "handle_key_event E ke I =
     (if exiting I then (False, I)
      else
        let st = set_modifiers E ke I;
            act = key_action E ke (sync_locks E ke (fst st) (snd (snd st)));
            I = release_all (fst (snd st)) (snd act)
        in (snd (fst act), if fst (fst act) then click_key KNumLock I else I))"

text \<open>The thread that locks the screen with the shortcut of the desktop; on Windows there is none.\<close>

definition lock_events :: "os \<Rightarrow> key_event list" where
  "lock_events o' =
     (case o' of
        Windows \<Rightarrow> []
      | Linux \<Rightarrow> [\<lparr>down = True, press = False, k_union = Chr 108, k_modifiers = [Known Meta]\<rparr>,
                  \<lparr>down = False, press = False, k_union = Chr 108, k_modifiers = [Known Meta]\<rparr>]
      | MacOS \<Rightarrow> [\<lparr>down = True, press = False, k_union = Chr 113, k_modifiers = [Known Meta, Known Control]\<rparr>,
                  \<lparr>down = False, press = False, k_union = Chr 113, k_modifiers = [Known Meta, Known Control]\<rparr>])"

definition lock_thread :: "'e input_env_scheme \<Rightarrow> input_state \<Rightarrow> input_state" where
  "lock_thread E I = fold (\<lambda>ke I. snd (handle_key_event E ke I)) (lock_events (os_is E)) I"

text \<open>The thread waits for the lock of the keyboard, so it runs when the event is done.\<close>

definition handle_key :: "'e input_env_scheme \<Rightarrow> key_event \<Rightarrow> input_state \<Rightarrow> input_state" where
  "handle_key E ke I =
     (case handle_key_event E ke I of (lock, I) \<Rightarrow> if lock then lock_thread E I else I)"

definition lock_screen :: "'e input_env_scheme \<Rightarrow> input_state \<Rightarrow> input_state" where
  "lock_screen E I =
     (if os_is E = Windows then en SwitchToPrimary (en LockStation I)
      else lock_thread E (en SwitchToPrimary I))"

text \<open>What the input thread of a session does with a message of the session.\<close>

definition run_input_effect :: "'e input_env_scheme \<Rightarrow> input_effect \<Rightarrow> input_state \<Rightarrow> input_state" where
  "run_input_effect E e I =
     (case e of HandleMouse me c \<Rightarrow> handle_mouse E me c I | HandleKey ke \<Rightarrow> handle_key E ke I | _ \<Rightarrow> I)"

subsection \<open>The cursor\<close>

text \<open>
  The subscriber of the cursor service remembers which cursors it has sent: a cursor is sent once,
  then its id. \<open>inner_out\<close> is what the connection has got.
\<close>

record mouse_cursor_sub =
  inner_out :: "message list"
  cached :: "nat \<rightharpoonup> message"

definition new_sub :: mouse_cursor_sub where
  "new_sub = \<lparr>inner_out = [], cached = Map.empty\<rparr>"

definition sub_send :: "message \<Rightarrow> mouse_cursor_sub \<Rightarrow> mouse_cursor_sub" where
  "sub_send m t =
     (case m of
        CursorData cd \<Rightarrow>
          (case cached t (cd_id cd) of
             Some m' \<Rightarrow> t\<lparr>inner_out := inner_out t @ [m']\<rparr>
           | None \<Rightarrow> t\<lparr>inner_out := inner_out t @ [m], cached := (cached t)(cd_id cd \<mapsto> CursorId (cd_id cd))\<rparr>)
      | _ \<Rightarrow> t\<lparr>inner_out := inner_out t @ [m]\<rparr>)"

record state_cursor =
  hcursor :: nat
  cursor_msg :: message
  cached_cursors :: "nat \<rightharpoonup> message"

definition init_cursor :: state_cursor where
  "init_cursor = \<lparr>hcursor = 0, cursor_msg = EmptyMessage, cached_cursors = Map.empty\<rparr>"

record cursor_env =
  get_cursor :: "nat option outcome"
  get_cursor_data :: "nat \<Rightarrow> cursor_data outcome"
  compress_colors :: "bytes \<Rightarrow> bytes"
  get_cursor_pos :: "(int \<times> int) option"
  cursor_time :: int

definition cursor_snapshot ::
  "state_cursor \<Rightarrow> mouse_cursor_sub service \<Rightarrow> unit outcome \<times> mouse_cursor_sub service" where
  "cursor_snapshot st = snapshot (\<lambda>s. (Done (), send_new_subscribes sub_send (cursor_msg st) s))"

text \<open>The message of a cursor, from the cache or new.\<close>

definition cursor_message :: "cursor_env \<Rightarrow> nat \<Rightarrow> state_cursor \<Rightarrow> message outcome \<times> state_cursor" where
  "cursor_message E h st =
     (case cached_cursors st h of
        Some m \<Rightarrow> (Done m, st)
      | None \<Rightarrow>
          (case get_cursor_data E h of
             Done d \<Rightarrow>
               let m = CursorData (d\<lparr>colors := compress_colors E (colors d)\<rparr>)
               in (Done m, st\<lparr>cached_cursors := (cached_cursors st)(h \<mapsto> m)\<rparr>)
           | Failed err \<Rightarrow> (Failed err, st)
           | Panicked \<Rightarrow> (Panicked, st)))"

definition run_cursor ::
  "cursor_env \<Rightarrow> mouse_cursor_sub service \<Rightarrow> state_cursor
     \<Rightarrow> unit outcome \<times> state_cursor \<times> mouse_cursor_sub service" where
  "run_cursor E s st =
     (case get_cursor E of
        Failed err \<Rightarrow> (Failed err, st, s)
      | Panicked \<Rightarrow> (Panicked, st, s)
      | Done None \<Rightarrow> (case cursor_snapshot st s of (r, s) \<Rightarrow> (r, st, s))
      | Done (Some h) \<Rightarrow>
          if h = hcursor st then (case cursor_snapshot st s of (r, s) \<Rightarrow> (r, st, s))
          else
            (case cursor_message E h st of
               (Done m, st) \<Rightarrow>
                 let s = send_shared sub_send m s; st = st\<lparr>hcursor := h, cursor_msg := m\<rparr>
                 in (case cursor_snapshot st s of (r, s) \<Rightarrow> (r, st, s))
             | (Failed err, st) \<Rightarrow> (Failed err, st, s)
             | (Panicked, st) \<Rightarrow> (Panicked, st, s)))"

text \<open>When nobody watches any more, the service forgets the cursor and lets go of every key.\<close>

definition reset_cursor :: "'e input_env_scheme \<Rightarrow> state_cursor \<times> input_state \<Rightarrow> state_cursor \<times> input_state" where
  "reset_cursor E st =
     (let I = fix_key_down_timeout E True (snd st)
      in (init_cursor, if os_is E = Linux then en EnigoReset I else I))"

text \<open>The position; the connection that moved the mouse less than 300 ms ago is left out.\<close>

definition run_pos ::
  "cursor_env \<Rightarrow> input_state \<Rightarrow> message list service \<Rightarrow> int \<times> int
     \<Rightarrow> unit outcome \<times> (int \<times> int) \<times> message list service" where
  "run_pos E I s pos =
     (case (case get_cursor_pos E of
              None \<Rightarrow> (pos, s)
            | Some p \<Rightarrow>
                if fst pos \<noteq> fst p \<or> snd pos \<noteq> snd p
                then (p, send_without (\<lambda>m t. t @ [m]) (CursorPosition (fst p) (snd p))
                          (if cursor_time E - latest_time I < 300 then latest_conn I else 0) s)
                else (pos, s)) of
        (pos, s) \<Rightarrow>
          (case snapshot (\<lambda>s. (Done (), send_new_subscribes (\<lambda>m t. t @ [m]) (CursorPosition (fst pos) (snd pos)) s)) s of
             (r, s) \<Rightarrow> (r, pos, s)))"

subsection \<open>Which keys are held\<close>

text \<open>The keys that this program has pressed and not released, from the calls it made.\<close>

fun hold :: "en_call \<Rightarrow> enigo_key set \<Rightarrow> enigo_key set" where
  "hold (KeyDown k) H = insert k H"
| "hold (KeyUp k) H = H - {k}"
| "hold _ H = H"

definition held :: "input_state \<Rightarrow> enigo_key set" where
  "held I = fold hold (calls I) {}"

definition entries :: "input_state \<Rightarrow> enigo_key set" where
  "entries I = {k. \<exists>n \<in> fst ` set (keys_down I). key_of_entry n = Some k}"

lemma held_simps [simp]:
  "held (en c I) = hold c (held I)"
  "held (I\<lparr>keys_down := kd\<rparr>) = held I"
  "held (I\<lparr>latest_time := t, latest_conn := i\<rparr>) = held I"
  "held (I\<lparr>exiting := b\<rparr>) = held I"
  "keys_down (en c I) = keys_down I"
  "exiting (en c I) = exiting I"
  by (simp_all add: held_def en_def)

lemma held_release:
  "held (release_all ks I) = held I - set ks" "keys_down (release_all ks I) = keys_down I"
  "exiting (release_all ks I) = exiting I"
  by (induction ks arbitrary: I) (auto simp: release_all_def)

lemma held_click:
  "held (click_key k I) = held I - {k}" "keys_down (click_key k I) = keys_down I" "exiting (click_key k I) = exiting I"
  by (auto simp: click_key_def)

lemma held_fix_modifier:
  "held (fix_modifier E ms a b I) \<subseteq> held I" "keys_down (fix_modifier E ms a b I) = keys_down I"
  "exiting (fix_modifier E ms a b I) = exiting I"
  by (auto simp: fix_modifier_def)

lemma held_fix_modifiers:
  "held (fix_modifiers E ms ck I) \<subseteq> held I" "keys_down (fix_modifiers E ms ck I) = keys_down I"
  "exiting (fix_modifiers E ms ck I) = exiting I"
proof -
  have step: "held (fold (\<lambda>(own, a, b) I. if ck \<noteq> ctl_value own then fix_modifier E ms a b I else I) xs I) \<subseteq> held I \<and>
      keys_down (fold (\<lambda>(own, a, b) I. if ck \<noteq> ctl_value own then fix_modifier E ms a b I else I) xs I) = keys_down I \<and>
      exiting (fold (\<lambda>(own, a, b) I. if ck \<noteq> ctl_value own then fix_modifier E ms a b I else I) xs I) = exiting I"
    for xs
  proof (induction xs arbitrary: I)
    case (Cons x xs)
    obtain own a b where x: "x = (own, a, b)" by (cases x)
    show ?case
    proof (cases "ck = ctl_value own")
      case True
      with Cons [of I] x show ?thesis by simp
    next
      case False
      with Cons [of "fix_modifier E ms a b I"] x held_fix_modifier [of E ms a b I] show ?thesis by (auto dest: subsetD)
    qed
  qed simp
  show "held (fix_modifiers E ms ck I) \<subseteq> held I" "keys_down (fix_modifiers E ms ck I) = keys_down I"
    "exiting (fix_modifiers E ms ck I) = exiting I"
    using step [of modifier_table] by (simp_all add: fix_modifiers_def)
qed

lemma entries_cong: "keys_down I' = keys_down I \<Longrightarrow> entries I' = entries I"
  by (simp add: entries_def)

lemma key_map_range: "key_map v = Some k \<Longrightarrow> 0 \<le> v \<and> v < 9999"
  unfolding key_map_def
  by (drule map_of_SomeD) (auto simp: ctl_value_nonneg ctl_value_small)

lemma key_of_entry_control: "key_map v = Some k \<Longrightarrow> key_of_entry (nat v) = Some k"
  using key_map_range [of v k] by (auto simp: key_of_entry_def KEY_CHAR_START_def)

lemma key_of_entry_chr: "key_of_entry (c + KEY_CHAR_START) = Some (get_layout c)"
  by (simp add: key_of_entry_def)

text \<open>Every key that is held has an entry in the table; \<open>rel\<close> are the modifiers yet to be released.\<close>

definition tracked :: "enigo_key set \<Rightarrow> input_state \<Rightarrow> bool" where
  "tracked rel I \<longleftrightarrow> held I \<subseteq> entries I \<union> rel \<and> distinct (map fst (keys_down I)) \<and> \<not> exiting I"

lemma entries_en [simp]: "entries (en c I) = entries I"
  by (simp add: entries_def)

lemma entries_update:
  "key_of_entry n = Some k \<Longrightarrow> entries (I\<lparr>keys_down := AList.update n t (keys_down I)\<rparr>) = insert k (entries I)"
  by (force simp: entries_def fst_update)

lemma entries_delete:
  "key_of_entry n = Some k \<Longrightarrow> entries I \<subseteq> insert k (entries (I\<lparr>keys_down := AList.delete n (keys_down I)\<rparr>))"
  by (force simp: entries_def fst_delete)

lemma tracked_mono:
  assumes "tracked rel I" "held I' \<subseteq> held I \<union> rel'" "keys_down I' = keys_down I" "exiting I' = exiting I"
    "rel \<union> rel' \<subseteq> rel''"
  shows "tracked rel'' I'"
proof -
  have "entries I' = entries I" by (rule entries_cong) (rule assms(3))
  with assms show ?thesis unfolding tracked_def by (simp add: subset_iff) blast
qed

lemma tracked_press:
  assumes "key_of_entry n = Some k" "tracked rel I"
  shows "tracked rel (press_or_release E dn n k I)"
proof (cases dn)
  case True
  with assms entries_update [OF assms(1), where I = "en (KeyDown k) I" and t = "time_ms E"] show ?thesis
    by (auto simp: tracked_def press_or_release_def distinct_update)
next
  case False
  with assms entries_delete [OF assms(1), where I = "en (KeyUp k) I"] show ?thesis
    by (auto simp: tracked_def press_or_release_def distinct_delete)
qed

lemma tracked_press_modifier:
  "tracked (set (fst st)) (snd st) \<Longrightarrow> tracked (set (fst (press_modifier E k st))) (snd (press_modifier E k st))"
  by (cases st) (auto simp: press_modifier_def tracked_def subset_iff)

lemma tracked_quiet [simp]: "(\<And>H. hold c H = H) \<Longrightarrow> tracked rel (en c I) \<longleftrightarrow> tracked rel I"
  by (auto simp: tracked_def)

lemma tracked_key_modifier:
  assumes "tracked (set (fst (snd st))) (snd (snd st))"
  shows "tracked (set (fst (snd (key_modifier E m st)))) (snd (snd (key_modifier E m st)))"
proof (cases "key_map (enum_value m)")
  case (Some k)
  obtain lk rel I where st: "st = (lk, rel, I)" by (cases st) auto
  have "tracked (set (fst (press_modifier E k (rel, I)))) (snd (press_modifier E k (rel, I)))"
    using assms st by (intro tracked_press_modifier) simp
  moreover have "tracked (set rel) (en (AddFlag k) I)"
    using assms st by (auto)
  ultimately show ?thesis using assms Some by (simp add: key_modifier_def st Let_def)
qed (use assms in \<open>simp add: key_modifier_def\<close>)

lemma tracked_mouse_modifier:
  assumes "tracked (set (fst st)) (snd st)"
  shows "tracked (set (fst (mouse_modifier E m st))) (snd (mouse_modifier E m st))"
proof (cases "key_map (enum_value m)")
  case (Some k)
  have "tracked (set (fst (press_modifier E k st))) (snd (press_modifier E k st))"
    using assms by (rule tracked_press_modifier)
  moreover have "tracked (set (fst st)) (en (AddFlag k) (snd st))"
    using assms by (auto)
  ultimately show ?thesis using assms Some by (simp add: mouse_modifier_def)
qed (use assms in \<open>simp add: mouse_modifier_def\<close>)

lemma tracked_fold:
  assumes "\<And>x st. P st \<Longrightarrow> P (f x st)" "P st"
  shows "P (fold f xs st)"
  using assms by (induction xs arbitrary: st) auto

lemma tracked_click: "tracked rel I \<Longrightarrow> tracked rel (click_key k I)"
  by (erule tracked_mono [where rel' = "{}"]) (auto simp: held_click)

lemma tracked_release: "tracked (set ks) I \<Longrightarrow> tracked {} (release_all ks I)"
  using entries_cong [OF held_release(2), of ks I] by (auto simp: tracked_def held_release)

lemma tracked_action:
  assumes "tracked rel I"
  shows "tracked rel (snd (key_action E ke I))"
proof (cases "k_union ke")
  case (ControlKey c)
  show ?thesis
  proof (cases "key_map (enum_value c)")
    case None
    with ControlKey assms show ?thesis by (simp add: key_action_def)
  next
    case (Some k)
    with ControlKey assms show ?thesis
      by (simp add: key_action_def Let_def tracked_press [OF key_of_entry_control] tracked_click)
  qed
qed (use assms in \<open>simp_all add: key_action_def tracked_press [OF key_of_entry_chr]\<close>)

lemma tracked_fix_modifiers: "tracked rel I \<Longrightarrow> tracked rel (fix_modifiers E ms ck I)"
  by (erule tracked_mono [where rel' = "{}"]) (simp_all add: held_fix_modifiers)

lemma tracked_set_modifiers:
  assumes "tracked {} I"
  shows "tracked (set (fst (snd (set_modifiers E ke I)))) (snd (snd (set_modifiers E ke I)))"
proof -
  have reset: "tracked {} (if b then en ResetFlag I else I)" for b
    using assms by (auto)
  have "(\<lambda>st. tracked (set (fst (snd st))) (snd (snd st)))
      (fold (key_modifier E) ms ((False, False), [], fix_modifiers E ms ck J))" if "tracked {} J" for ms ck J
    by (rule tracked_fold) (simp_all add: tracked_key_modifier tracked_fix_modifiers that)
  from this [OF reset] show ?thesis
    using reset by (simp add: set_modifiers_def Let_def)
qed

lemma tracked_sync_locks: "tracked rel I \<Longrightarrow> tracked rel (sync_locks E ke l I)"
  by (simp add: sync_locks_def Let_def tracked_click)

lemma tracked_key_event: "tracked {} I \<Longrightarrow> tracked {} (snd (handle_key_event E ke I))"
proof -
  assume a: "tracked {} I"
  have "tracked {} (release_all (fst (snd (set_modifiers E ke I)))
      (snd (key_action E ke (sync_locks E ke (fst (set_modifiers E ke I)) (snd (snd (set_modifiers E ke I)))))))"
    by (intro tracked_release tracked_action tracked_sync_locks tracked_set_modifiers a)
  with a show ?thesis by (simp add: handle_key_event_def Let_def tracked_click)
qed

lemma tracked_lock_thread: "tracked {} I \<Longrightarrow> tracked {} (lock_thread E I)"
  unfolding lock_thread_def by (rule tracked_fold) (auto intro: tracked_key_event)

lemma tracked_handle_key: "tracked {} I \<Longrightarrow> tracked {} (handle_key E ke I)"
  using tracked_key_event [of I E ke] by (auto simp: handle_key_def tracked_lock_thread split: prod.split)

lemma tracked_mouse_action: "tracked rel I \<Longrightarrow> tracked rel (mouse_action E me I)"
  unfolding mouse_action_def Let_def by (auto split: option.split )

lemma tracked_mouse_modifiers:
  assumes "tracked {} I"
  shows "tracked (set (fst (mouse_modifiers E me I))) (snd (mouse_modifiers E me I))"
proof -
  have f: "tracked {} (if b then en ResetFlag (fix_modifiers E ms 0 I) else fix_modifiers E ms 0 I)" for b ms
    using assms by (simp add: tracked_fix_modifiers)
  have "(\<lambda>st. tracked (set (fst st)) (snd st))
      (fold (mouse_modifier E) ms ([], if b then en ResetFlag (fix_modifiers E ms 0 I) else fix_modifiers E ms 0 I))"
    for b ms
    by (rule tracked_fold) (simp_all only: tracked_mouse_modifier f fst_conv snd_conv list.set)
  with assms show ?thesis unfolding mouse_modifiers_def Let_def by simp
qed

lemma tracked_handle_mouse: "tracked {} I \<Longrightarrow> tracked {} (handle_mouse E me conn I)"
proof -
  assume i: "tracked {} I"
  then have a: "tracked {} (if b then I\<lparr>latest_time := t, latest_conn := conn\<rparr> else I)" for b t
    by (auto simp: tracked_def entries_def)
  show ?thesis
    unfolding handle_mouse_def Let_def
    by (simp only: i if_True split: if_split)
      (intro conjI impI i tracked_release tracked_mouse_action tracked_mouse_modifiers a [of True, simplified] TrueI)
qed

lemma tracked_fix_one: "tracked {} I \<Longrightarrow> tracked {} (fix_one E force e I)"
proof (cases "key_of_entry (fst e)")
  case None
  moreover assume "tracked {} I"
  moreover have "entries (I\<lparr>keys_down := AList.delete (fst e) (keys_down I)\<rparr>) = entries I"
    using None by (force simp: entries_def fst_delete)
  ultimately show ?thesis
    by (auto simp: fix_one_def Let_def tracked_def distinct_delete)
next
  case (Some k)
  moreover assume a: "tracked {} I"
  ultimately show ?thesis
    using entries_delete [OF Some, of I] by (auto simp: fix_one_def Let_def tracked_def distinct_delete)
qed

lemma tracked_fix: "tracked {} I \<Longrightarrow> tracked {} (fix_key_down_timeout E force I)"
  unfolding fix_key_down_timeout_def by (rule tracked_fold) (auto intro: tracked_fix_one)

text \<open>A forced fix empties the table.\<close>

lemma forced_fix_keys:
  "fst ` set (keys_down (fold (fix_one E True) es I)) = fst ` set (keys_down I) - fst ` set es"
proof (induction es arbitrary: I)
  case (Cons e es)
  have "fst ` set (keys_down (fix_one E True e I)) = fst ` set (keys_down I) - {fst e}"
    by (auto simp: fix_one_def Let_def fst_delete split: option.split)
  with Cons [of "fix_one E True e I"] show ?case by auto
qed simp

lemma forced_fix_empties: "keys_down (fix_key_down_timeout E True I) = []"
  using forced_fix_keys [of E "keys_down I" I] by (simp add: fix_key_down_timeout_def)

subsection \<open>No key stays down\<close>

datatype input_event =
    InKeyEvent key_event
  | InMouseEvent mouse_event int
  | InTimer
  | InReset
  | InExit

definition input_step :: "'e input_env_scheme \<times> input_event \<Rightarrow> input_state \<Rightarrow> input_state" where
  "input_step e I =
     (case snd e of
        InKeyEvent ke \<Rightarrow> handle_key (fst e) ke I
      | InMouseEvent me c \<Rightarrow> handle_mouse (fst e) me c I
      | InTimer \<Rightarrow> fix_key_down_timeout (fst e) False I
      | InReset \<Rightarrow> snd (reset_cursor (fst e) (init_cursor, I))
      | InExit \<Rightarrow> fix_key_down_timeout_at_exit (fst e) I)"

definition run_input :: "('e input_env_scheme \<times> input_event) list \<Rightarrow> input_state" where
  "run_input es = fold input_step es init_input"

text \<open>After the end of the process was asked for nothing is pressed any more.\<close>

definition gone :: "input_state \<Rightarrow> bool" where
  "gone I \<longleftrightarrow> exiting I \<and> held I = {}"

lemma fix_held: "held (fix_key_down_timeout E force I) \<subseteq> held I \<and> exiting (fix_key_down_timeout E force I) = exiting I"
proof -
  have "held (fold (fix_one E force) es I) \<subseteq> held I \<and> exiting (fold (fix_one E force) es I) = exiting I" for es
  proof (induction es arbitrary: I)
    case (Cons e es)
    have "held (fix_one E force e I) \<subseteq> held I \<and> exiting (fix_one E force e I) = exiting I"
      by (auto simp: fix_one_def Let_def split: option.split)
    with Cons [of "fix_one E force e I"] show ?case by auto
  qed simp
  then show ?thesis by (simp add: fix_key_down_timeout_def)
qed

lemma gone_fix: "gone I \<Longrightarrow> gone (fix_key_down_timeout E force I)"
  using fix_held [of E force I] by (auto simp: gone_def)

lemma gone_input_step: "gone I \<Longrightarrow> gone (input_step e I)"
  unfolding input_step_def
  by (auto simp: gone_fix reset_cursor_def Let_def handle_key_def handle_key_event_def handle_mouse_def
      fix_key_down_timeout_at_exit_def gone_def split: input_event.split dest: fix_held [THEN conjunct1, THEN subsetD])
    (use gone_fix [of I] in \<open>auto simp: gone_def\<close>)

lemma tracked_empty: "tracked {} I \<Longrightarrow> keys_down I = [] \<Longrightarrow> held I = {}"
  by (auto simp: tracked_def entries_def)

lemma forced_fix_lets_go: "tracked {} I \<Longrightarrow> held (fix_key_down_timeout E True I) = {}"
  by (intro tracked_empty tracked_fix forced_fix_empties)

lemma held_exit: "tracked {} I \<Longrightarrow> held (fix_key_down_timeout_at_exit E I) = {}"
proof -
  assume a: "tracked {} I"
  have "fix_one E True e (J\<lparr>exiting := True\<rparr>) = (fix_one E True e J)\<lparr>exiting := True\<rparr>" for e J
    by (auto simp: fix_one_def Let_def en_def split: option.split)
  then have "fold (fix_one E True) es (J\<lparr>exiting := True\<rparr>) = (fold (fix_one E True) es J)\<lparr>exiting := True\<rparr>" for es J
    by (induction es arbitrary: J) simp_all
  then have "fix_key_down_timeout E True (I\<lparr>exiting := True\<rparr>) = (fix_key_down_timeout E True I)\<lparr>exiting := True\<rparr>"
    by (simp add: fix_key_down_timeout_def)
  with a show ?thesis by (simp add: fix_key_down_timeout_at_exit_def forced_fix_lets_go) (simp add: tracked_def)
qed

lemma exit_gone: "tracked {} I \<Longrightarrow> gone (fix_key_down_timeout_at_exit E I)"
  using held_exit [of I E] fix_held [of E True "I\<lparr>exiting := True\<rparr>"]
  by (auto simp: gone_def fix_key_down_timeout_at_exit_def tracked_def)

lemma tracked_input_step: "tracked {} I \<Longrightarrow> tracked {} (input_step e I) \<or> gone (input_step e I)"
  unfolding input_step_def
  by (auto simp: tracked_handle_key tracked_handle_mouse tracked_fix reset_cursor_def Let_def exit_gone
      split: input_event.split)

lemma tracked_run_input: "tracked {} (run_input es) \<or> gone (run_input es)"
  unfolding run_input_def
proof (rule tracked_fold)
  show "tracked {} (input_step x st) \<or> gone (input_step x st)" if "tracked {} st \<or> gone st"
    for x :: "'a input_env_scheme \<times> input_event" and st
    using that tracked_input_step gone_input_step by blast
qed (simp add: tracked_def init_input_def held_def)

text \<open>
  C0: whatever events arrive, and whatever the keyboard answers, every key that the controlled side has
  pressed and not released has an entry in the table of keys that are down, so that the end of the
  process, and the end of the last session that watches the cursor, release every key.
\<close>

theorem no_key_stays_down:
  "held (run_input es) \<subseteq> entries (run_input es) \<and>
   held (fix_key_down_timeout_at_exit E (run_input es)) = {} \<and>
   held (snd (reset_cursor E (st, run_input es))) = {}"
  using tracked_run_input [of es]
proof
  assume a: "tracked {} (run_input es)"
  with forced_fix_lets_go [OF a] held_exit [OF a] show ?thesis
    by (auto simp: reset_cursor_def Let_def tracked_def)
next
  assume a: "gone (run_input es)"
  with fix_held [of E True "run_input es"] show ?thesis
    by (auto simp: gone_def fix_key_down_timeout_at_exit_def reset_cursor_def Let_def)
qed

subsection \<open>The modifiers of a key\<close>

text \<open>
  A keyboard that only the remote user types on and whose state is read right: a modifier counts as
  down when one of its two sides is (on Linux the right side is never reported, on Windows both
  are), and caps lock is on after an odd number of presses.
\<close>

definition pressed :: "enigo_key \<Rightarrow> enigo_key set \<Rightarrow> bool" where
  "pressed k H \<longleftrightarrow> k \<in> H \<or> (case other_side k of Some k' \<Rightarrow> k' \<in> H | None \<Rightarrow> False)"

definition caps_on :: "input_state \<Rightarrow> bool" where
  "caps_on I \<longleftrightarrow> odd (length (filter ((=) (KeyDown KCapsLock)) (calls I)))"

definition modifier_pairs :: "(control_key \<times> enigo_key \<times> enigo_key) list" where
  "modifier_pairs =
    [(Shift, KShift, KRightShift), (Alt, KAlt, KRightAlt), (Control, KControl, KRightControl), (Meta, KMeta, KRWin)]"

definition reports :: "'e input_env_scheme \<Rightarrow> bool" where
  "reports E \<longleftrightarrow> (\<forall>I. (\<forall>(m, l, r) \<in> set modifier_pairs.
       get_modifier_state E I l = pressed l (held I) \<and> get_modifier_state E I r = pressed l (held I)) \<and>
     get_key_state E I KCapsLock = caps_on I)"

text \<open>The modifiers a controlling side sends, and no AltGr, for which there are exceptions.\<close>

definition plain_modifiers :: "'e input_env_scheme \<Rightarrow> control_key list \<Rightarrow> input_state \<Rightarrow> bool" where
  "plain_modifiers E ms I \<longleftrightarrow>
     set ms \<subseteq> {Alt, Shift, Control, Meta, CapsLock, NumLock} \<and>
     (os_is E = Windows \<longrightarrow> Alt \<in> set ms \<longrightarrow> Control \<in> set ms) \<and>
     (os_is E = Linux \<longrightarrow> map_of (keys_down I) (nat (ctl_value RAlt)) = None)"

lemma reports_state:
  assumes "reports E"
  shows "get_modifier_state E I KShift = pressed KShift (held I)" "get_modifier_state E I KRightShift = pressed KShift (held I)"
    "get_modifier_state E I KAlt = pressed KAlt (held I)" "get_modifier_state E I KRightAlt = pressed KAlt (held I)"
    "get_modifier_state E I KControl = pressed KControl (held I)"
    "get_modifier_state E I KRightControl = pressed KControl (held I)"
    "get_modifier_state E I KMeta = pressed KMeta (held I)" "get_modifier_state E I KRWin = pressed KMeta (held I)"
    "get_key_state E I KCapsLock = caps_on I"
  using assms by (simp_all add: reports_def modifier_pairs_def)

lemma pressed_simps:
  "pressed KShift H \<longleftrightarrow> KShift \<in> H \<or> KRightShift \<in> H" "pressed KAlt H \<longleftrightarrow> KAlt \<in> H \<or> KRightAlt \<in> H"
  "pressed KControl H \<longleftrightarrow> KControl \<in> H \<or> KRightControl \<in> H" "pressed KMeta H \<longleftrightarrow> KMeta \<in> H \<or> KRWin \<in> H"
  by (simp_all add: pressed_def)

lemma known_mem: "ctl_value m \<in> enum_value ` Known ` set ms \<longleftrightarrow> m \<in> set ms"
  by (force simp: ctl_value_inj)

lemma caps_en [simp]: "caps_on (en c I) = (if c = KeyDown KCapsLock then \<not> caps_on I else caps_on I)"
  by (auto simp: caps_on_def en_def)

lemma caps_fix_modifier [simp]: "caps_on (fix_modifier E ms a b I) = caps_on I"
  by (simp add: fix_modifier_def)

lemma fix_modifier_held:
  "os_is E = Windows \<longrightarrow> m = Control \<longrightarrow> m \<notin> set ms \<longrightarrow> \<not> get_modifier_state E I KAlt \<Longrightarrow>
   held (fix_modifier E (map Known ms) m k I) =
     (if m \<notin> set ms \<and> get_modifier_state E I k then held I - {k} else held I)"
  by (auto simp: fix_modifier_def known_mem ctl_value_inj)

text \<open>The two rows of a modifier in the table: both sides go up unless the modifier is wanted.\<close>

definition up_unless :: "bool \<Rightarrow> enigo_key set \<Rightarrow> enigo_key set \<Rightarrow> enigo_key set" where
  "up_unless b K H = (if b then H else H - K)"

lemma fix_rows:
  assumes "reports E"
  shows
    "held (fix_modifier E (map Known ms) Shift KRightShift (fix_modifier E (map Known ms) Shift KShift I)) =
       up_unless (Shift \<in> set ms) {KShift, KRightShift} (held I)"
    "held (fix_modifier E (map Known ms) Alt KRightAlt (fix_modifier E (map Known ms) Alt KAlt I)) =
       up_unless (Alt \<in> set ms) {KAlt, KRightAlt} (held I)"
    "held (fix_modifier E (map Known ms) Meta KRWin (fix_modifier E (map Known ms) Meta KMeta I)) =
       up_unless (Meta \<in> set ms) {KMeta, KRWin} (held I)"
    "os_is E = Windows \<longrightarrow> Control \<notin> set ms \<longrightarrow> \<not> pressed KAlt (held I) \<Longrightarrow>
     held (fix_modifier E (map Known ms) Control KRightControl (fix_modifier E (map Known ms) Control KControl I)) =
       up_unless (Control \<in> set ms) {KControl, KRightControl} (held I)"
  by (auto simp: fix_modifier_held reports_state [OF assms] pressed_simps up_unless_def)

lemma fix_modifiers_held:
  assumes r: "reports E" and w: "os_is E = Windows \<longrightarrow> Alt \<in> set ms \<longrightarrow> Control \<in> set ms"
    and ck: "\<forall>(own, x) \<in> set modifier_table. ck \<noteq> ctl_value own"
  shows "held (fix_modifiers E (map Known ms) ck I) =
    up_unless (Meta \<in> set ms) {KMeta, KRWin} (up_unless (Control \<in> set ms) {KControl, KRightControl}
     (up_unless (Alt \<in> set ms) {KAlt, KRightAlt} (up_unless (Shift \<in> set ms) {KShift, KRightShift} (held I))))"
proof -
  let ?f = "\<lambda>m k. fix_modifier E (map Known ms) m k"
  have e: "fix_modifiers E (map Known ms) ck I =
      ?f Meta KRWin (?f Meta KMeta (?f Control KRightControl (?f Control KControl
        (?f Alt KRightAlt (?f Alt KAlt (?f Shift KRightShift (?f Shift KShift I)))))))"
    using ck by (simp add: fix_modifiers_def modifier_table_def)
  have "os_is E = Windows \<longrightarrow> Control \<notin> set ms \<longrightarrow>
      \<not> pressed KAlt (held (?f Alt KRightAlt (?f Alt KAlt (?f Shift KRightShift (?f Shift KShift I)))))"
    unfolding fix_rows [OF r] using w by (auto simp: up_unless_def pressed_simps)
  from fix_rows(4) [OF r this] show ?thesis
    unfolding e by (simp only: fix_rows(1-3) [OF r])
qed

lemma fix_modifiers_pressed:
  assumes "reports E" "os_is E = Windows \<longrightarrow> Alt \<in> set ms \<longrightarrow> Control \<in> set ms"
    "\<forall>(own, x) \<in> set modifier_table. ck \<noteq> ctl_value own" "(m, l, r) \<in> set modifier_pairs"
  shows "pressed l (held (fix_modifiers E (map Known ms) ck I)) \<longleftrightarrow> m \<in> set ms \<and> pressed l (held I)"
  using assms(4) unfolding fix_modifiers_held [OF assms(1-3)]
  by (auto simp: modifier_pairs_def pressed_simps up_unless_def)

lemma caps_fix_modifiers [simp]: "caps_on (fix_modifiers E ms ck I) = caps_on I"
  by (simp add: fix_modifiers_def modifier_table_def)

text \<open>Pressing the modifiers that are wanted.\<close>

lemma key_map_modifiers [simp]:
  "key_map (ctl_value Shift) = Some KShift" "key_map (ctl_value Alt) = Some KAlt"
  "key_map (ctl_value Control) = Some KControl" "key_map (ctl_value Meta) = Some KMeta"
  "key_map (ctl_value CapsLock) = Some KCapsLock" "key_map (ctl_value NumLock) = Some KNumLock"
  "key_map (ctl_value RShift) = Some KRightShift" "key_map (ctl_value RAlt) = Some KRightAlt"
  "key_map (ctl_value RControl) = Some KRightControl" "key_map (ctl_value RWin) = Some KRWin"
  by (simp_all add: key_map_def key_table_def)

definition ready :: "control_key list \<Rightarrow> input_state \<Rightarrow> (bool \<times> bool) \<times> enigo_key list \<times> input_state \<Rightarrow> bool" where
  "ready ms J st \<longleftrightarrow>
     (fst (fst st) \<longleftrightarrow> CapsLock \<in> set ms) \<and> caps_on (snd (snd st)) = caps_on J \<and>
     keys_down (snd (snd st)) = keys_down J \<and> set (fst (snd st)) \<subseteq> {KShift, KAlt, KControl, KMeta} \<and>
     (\<forall>(m, l, r) \<in> set modifier_pairs.
       pressed l (held (snd (snd st))) \<longleftrightarrow> pressed l (held J) \<or> m \<in> set ms)"

lemma pairs_inj: "(m, l, r) \<in> set modifier_pairs \<Longrightarrow> (m', l', r') \<in> set modifier_pairs \<Longrightarrow> m = m' \<longleftrightarrow> l = l'"
  by (auto simp: modifier_pairs_def)

lemma pressed_insert:
  "(m, l, r) \<in> set modifier_pairs \<Longrightarrow> (m', l', r') \<in> set modifier_pairs \<Longrightarrow>
     pressed l' (insert l H) \<longleftrightarrow> pressed l' H \<or> l' = l"
  by (auto simp: modifier_pairs_def pressed_simps)

lemma pairs_key: "(m, l, r) \<in> set modifier_pairs \<Longrightarrow> l \<in> {KShift, KAlt, KControl, KMeta} \<and> l \<noteq> KCapsLock \<and> m \<noteq> CapsLock"
  by (auto simp: modifier_pairs_def)

lemma ready_press:
  assumes r: "reports E" and m: "(m, l, r) \<in> set modifier_pairs" and a: "ready ms J (lk, rel, I)"
  shows "ready (ms @ [m]) J (lk, press_modifier E l (rel, I))"
proof -
  have g: "get_modifier_state E I l = pressed l (held I)"
    using m reports_state [OF r] by (auto simp: modifier_pairs_def)
  have k: "pressed l' (held (snd (press_modifier E l (rel, I)))) \<longleftrightarrow> pressed l' (held I) \<or> m' = m"
    if "(m', l', r') \<in> set modifier_pairs" for m' l' r'
    using pressed_insert [OF m that] pairs_inj [OF m that] g by (auto simp: press_modifier_def)
  have "set (fst (press_modifier E l (rel, I))) \<subseteq> {KShift, KAlt, KControl, KMeta}"
    "caps_on (snd (press_modifier E l (rel, I))) = caps_on J" "keys_down (snd (press_modifier E l (rel, I))) = keys_down J"
    using a pairs_key [OF m] by (auto simp: press_modifier_def ready_def)
  with a pairs_key [OF m] k show ?thesis unfolding ready_def by auto
qed

lemma ready_step:
  assumes r: "reports E" and o: "os_is E \<noteq> MacOS"
    and l: "os_is E = Linux \<longrightarrow> map_of (keys_down J) (nat (ctl_value RAlt)) = None"
    and m: "m \<in> {Alt, Shift, Control, Meta, CapsLock, NumLock}" and a: "ready ms J st"
  shows "ready (ms @ [m]) J (key_modifier E (Known m) st)"
proof -
  obtain cap num rel I where st: "st = ((cap, num), rel, I)" by (metis prod.exhaust)
  note [simp del] = ctl_value.simps
  have kd: "keys_down I = keys_down J" using a st by (simp add: ready_def)
  consider lt where "(m, lt) \<in> set modifier_pairs" | "m = CapsLock" | "m = NumLock"
    using m by (auto simp: modifier_pairs_def)
  then show ?thesis
  proof cases
    case 1
    then obtain l' r' where p: "(m, l', r') \<in> set modifier_pairs" by (cases lt) auto
    then have "key_modifier E (Known m) st = ((cap, num), press_modifier E l' (rel, I))"
      using o l kd by (auto simp: modifier_pairs_def st key_modifier_def apsnd_def map_prod_def)
    with ready_press [OF r p] a st show ?thesis by simp
  next
    case 2
    with a o show ?thesis by (auto simp: st ready_def key_modifier_def modifier_pairs_def)
  next
    case 3
    with a o show ?thesis by (auto simp: st ready_def key_modifier_def modifier_pairs_def)
  qed
qed

lemma ready_fold:
  assumes r: "reports E" and o: "os_is E \<noteq> MacOS"
    and l: "os_is E = Linux \<longrightarrow> map_of (keys_down J) (nat (ctl_value RAlt)) = None"
  shows "set ns \<subseteq> {Alt, Shift, Control, Meta, CapsLock, NumLock} \<Longrightarrow> ready ms J st
    \<Longrightarrow> ready (ms @ ns) J (fold (key_modifier E) (map Known ns) st)"
proof (induction ns arbitrary: ms st)
  case (Cons n ns)
  then have "ready (ms @ [n]) J (key_modifier E (Known n) st)"
    by (intro ready_step r o l) auto
  with Cons show ?case by fastforce
qed simp

lemma ready_set_modifiers:
  assumes r: "reports E" and o: "os_is E \<noteq> MacOS" and p: "plain_modifiers E ms I" and d: "down ke"
    and ms: "k_modifiers ke = map Known ms"
    and ck: "\<forall>c. k_union ke = ControlKey c \<longrightarrow> (\<forall>(own, x) \<in> set modifier_table. enum_value c \<noteq> ctl_value own)"
  shows "ready ms (fix_modifiers E (map Known ms) (case k_union ke of ControlKey c \<Rightarrow> enum_value c | _ \<Rightarrow> - 1) I)
    (set_modifiers E ke I)"
proof -
  let ?J = "fix_modifiers E (map Known ms) (case k_union ke of ControlKey c \<Rightarrow> enum_value c | _ \<Rightarrow> - 1) I"
  have "ready ([] @ ms) ?J (fold (key_modifier E) (map Known ms) ((False, False), [], ?J))"
    by (rule ready_fold [OF r o]) (use p in \<open>auto simp: plain_modifiers_def ready_def held_fix_modifiers\<close>)
  then show ?thesis using o d by (simp add: set_modifiers_def Let_def ms)
qed

lemma ready_pressed:
  assumes r: "reports E" and o: "os_is E \<noteq> MacOS" and p: "plain_modifiers E ms I" and d: "down ke"
    and ms: "k_modifiers ke = map Known ms"
    and ck: "\<forall>c. k_union ke = ControlKey c \<longrightarrow> (\<forall>(own, x) \<in> set modifier_table. enum_value c \<noteq> ctl_value own)"
    and m: "(m, l, r') \<in> set modifier_pairs"
  shows "pressed l (held (snd (snd (set_modifiers E ke I)))) \<longleftrightarrow> m \<in> set ms"
proof -
  let ?ck = "case k_union ke of ControlKey c \<Rightarrow> enum_value c | _ \<Rightarrow> - 1"
  have n: "\<forall>(own, x) \<in> set modifier_table. ?ck \<noteq> ctl_value own"
    using ck by (auto simp: modifier_table_def split: key_union.split)
  have "pressed l (held (fix_modifiers E (map Known ms) ?ck I)) \<longleftrightarrow> m \<in> set ms \<and> pressed l (held I)"
    using p by (intro fix_modifiers_pressed [OF r _ n m]) (simp add: plain_modifiers_def)
  with ready_set_modifiers [OF r o p d ms ck] m show ?thesis by (auto simp: ready_def)
qed

text \<open>The key of an event, and what a history of calls holds and locks.\<close>

definition key_of_event :: "key_event \<Rightarrow> enigo_key option" where
  "key_of_event ke = (case k_union ke of
       ControlKey c \<Rightarrow> key_map (enum_value c)
     | Chr c \<Rightarrow> Some (get_layout c)
     | _ \<Rightarrow> None)"

definition modifier_keys :: "enigo_key list" where
  "modifier_keys = [KShift, KRightShift, KAlt, KRightAlt, KControl, KRightControl, KMeta, KRWin, KCapsLock]"

definition history :: "en_call list \<Rightarrow> input_state" where
  "history cs = init_input\<lparr>calls := cs\<rparr>"

text \<open>
  At the moment of the press of \<open>k\<close> exactly the modifiers \<open>ms\<close> are down, and afterwards \<open>k\<close> is.
\<close>

definition typed_with :: "enigo_key \<Rightarrow> control_key list \<Rightarrow> input_state \<Rightarrow> bool" where
  "typed_with k ms I \<longleftrightarrow>
     (\<exists>pre post. calls I = pre @ KeyDown k # post \<and>
        (\<forall>(m, l, r) \<in> set modifier_pairs. pressed l (held (history pre)) \<longleftrightarrow> m \<in> set ms) \<and>
        (caps_on (history pre) \<longleftrightarrow> CapsLock \<in> set ms)) \<and> k \<in> held I"

lemma history_calls [simp]: "held (history (calls I)) = held I" "caps_on (history (calls I)) = caps_on I"
  by (simp_all add: history_def held_def caps_on_def)

lemma ck_not_modifier:
  assumes "key_of_event ke = Some k" "k \<notin> set modifier_keys"
  shows "\<forall>c. k_union ke = ControlKey c \<longrightarrow> (\<forall>(own, x) \<in> set modifier_table. enum_value c \<noteq> ctl_value own)"
  using assms by (auto simp: key_of_event_def modifier_table_def modifier_keys_def
      simp del: ctl_value.simps split: key_union.splits)

lemma calls_click: "calls (click_key k I) = calls I @ [KeyDown k, KeyUp k]"
  by (simp add: click_key_def en_def)

lemma calls_press: "calls (press_or_release E True n k I) = calls I @ [KeyDown k]"
  by (simp add: press_or_release_def en_def)

lemma calls_release: "calls (release_all ks I) = calls I @ map KeyUp ks"
  by (induction ks arbitrary: I) (auto simp: release_all_def en_def)

lemma caps_click: "caps_on (click_key k I) \<longleftrightarrow> (if k = KCapsLock then \<not> caps_on I else caps_on I)"
  by (simp add: click_key_def)

lemma sync_locks_ready:
  assumes "reports E" "os_is E \<noteq> MacOS"
  shows "caps_on (sync_locks E ke l I) = fst l" "(m, lk, r) \<in> set modifier_pairs \<Longrightarrow>
    pressed lk (held (sync_locks E ke l I)) = pressed lk (held I)"
  using assms(2) by (auto simp: sync_locks_def Let_def caps_click held_click reports_state [OF assms(1)]
      modifier_pairs_def pressed_simps)

text \<open>The action of a press: num lock may be clicked first, then the key goes down.\<close>

lemma key_action_press:
  assumes "key_of_event ke = Some k" "down ke"
  shows "\<exists>off n J. key_action E ke I = ((off, False), press_or_release E True n k J) \<and>
    (J = I \<or> J = click_key KNumLock I) \<and> (off \<longrightarrow> k \<noteq> KNumLock)"
proof (cases "k_union ke")
  case (ControlKey c)
  with assms have k: "key_map (enum_value c) = Some k" by (simp add: key_of_event_def)
  have "k \<noteq> KNumLock" if "NUMPAD_KEY_MAP (enum_value c)"
    using that k by (auto simp: NUMPAD_KEY_MAP_def numpad_keys_def key_map_def key_table_def)
  with ControlKey k assms(2) show ?thesis by (auto simp: key_action_def Let_def)
next
  case (Chr c)
  with assms show ?thesis by (auto simp: key_action_def key_of_event_def)
qed (use assms in \<open>simp_all add: key_of_event_def\<close>)

text \<open>
  C0: on Windows and Linux, on a keyboard whose state is read right, a press that arrives with a set of
  modifiers (and is no modifier itself) is typed with exactly these: those that are down and not
  wanted have been released, those that are wanted and not down have been pressed, caps lock is as
  on the other side, and afterwards the key is down. AltGr is left out, for which the code has exceptions.
\<close>

theorem key_typed_with_modifiers:
  assumes r: "reports E" and o: "os_is E \<noteq> MacOS" and x: "\<not> exiting I" and p: "plain_modifiers E ms I"
    and d: "down ke" and ms: "k_modifiers ke = map Known ms" and k: "key_of_event ke = Some k" "k \<notin> set modifier_keys"
  shows "typed_with k ms (handle_key E ke I)"
proof -
  note ck = ck_not_modifier [OF k]
  let ?st = "set_modifiers E ke I" and ?J = "fix_modifiers E (map Known ms) (case k_union ke of ControlKey c \<Rightarrow> enum_value c | _ \<Rightarrow> - 1) I"
  let ?S = "sync_locks E ke (fst ?st) (snd (snd ?st))"
  have rd: "ready ms ?J ?st" by (rule ready_set_modifiers [OF r o p d ms ck])
  have pr: "pressed l (held ?S) \<longleftrightarrow> m \<in> set ms" if "(m, l, r') \<in> set modifier_pairs" for m l r'
    using sync_locks_ready(2) [OF r o that] ready_pressed [OF r o p d ms ck that] by simp
  have cp: "caps_on ?S \<longleftrightarrow> CapsLock \<in> set ms"
    using sync_locks_ready(1) [OF r o] rd by (simp add: ready_def)
  obtain off n J where act: "key_action E ke ?S = ((off, False), press_or_release E True n k J)"
    and J: "J = ?S \<or> J = click_key KNumLock ?S" and off: "off \<longrightarrow> k \<noteq> KNumLock"
    using key_action_press [OF k(1) d, of E ?S] by blast
  let ?R = "release_all (fst (snd ?st)) (press_or_release E True n k J)"
  have h: "handle_key E ke I = (if off then click_key KNumLock ?R else ?R)"
    using x by (simp add: handle_key_def handle_key_event_def act)
  have prJ: "pressed l (held J) \<longleftrightarrow> m \<in> set ms" if "(m, l, r') \<in> set modifier_pairs" for m l r'
    using J pr [OF that] that by (auto simp: held_click modifier_pairs_def pressed_simps)
  have cpJ: "caps_on J \<longleftrightarrow> CapsLock \<in> set ms" using J cp by (auto simp: caps_click)
  have post: "calls (handle_key E ke I) = calls J @ KeyDown k #
      (map KeyUp (fst (snd ?st)) @ (if off then [KeyDown KNumLock, KeyUp KNumLock] else []))"
    by (simp add: h calls_click calls_release calls_press)
  have "k \<in> held ?R"
    using rd k(2) by (auto simp: held_release press_or_release_def ready_def modifier_keys_def)
  then have "k \<in> held (handle_key E ke I)" using off by (simp add: h held_click)
  then show ?thesis
    unfolding typed_with_def
    by (intro conjI exI [of _ "calls J"] exI) (use post prJ cpJ in auto)
qed

definition sample_keyboard :: input_env where
  "sample_keyboard = \<lparr>os_is = Linux, time_ms = 0,
     key_state = (\<lambda>cs k. if k = KCapsLock then odd (length (filter ((=) (KeyDown KCapsLock)) cs)) else k \<in> fold hold cs {})\<rparr>"

lemma sample_reports: "reports sample_keyboard"
  by (auto simp: reports_def sample_keyboard_def get_modifier_state_def get_key_state_def modifier_pairs_def
      held_def pressed_def caps_on_def)

lemma key_typed_with_modifiers_witness:
  "typed_with (KLayout 97) [Shift, Control] (handle_key sample_keyboard
     \<lparr>down = True, press = False, k_union = Chr 97, k_modifiers = [Known Shift, Known Control]\<rparr>
     (en (KeyDown KRightAlt) init_input))"
  by (rule key_typed_with_modifiers [OF sample_reports])
    (simp_all add: sample_keyboard_def init_input_def en_def plain_modifiers_def key_of_event_def get_layout_def
      valid_char_def modifier_keys_def)

text \<open>A release carries no modifiers for \<open>sync_locks\<close>: caps lock that is on is switched off by it.\<close>

lemma release_switches_caps_lock_off:
  assumes "reports E" "os_is E \<noteq> MacOS" "\<not> exiting I" "\<not> down ke" "k_union ke = Chr c"
  shows "\<not> caps_on (handle_key E ke I)"
proof -
  have "caps_on (sync_locks E ke (False, False) I) = False"
    using sync_locks_ready(1) [OF assms(1,2), of ke "(False, False)" I] by simp
  then show ?thesis using assms
    by (simp add: handle_key_def handle_key_event_def set_modifiers_def Let_def key_action_def
        press_or_release_def release_all_def caps_on_def en_def)
qed

subsection \<open>The cursor\<close>

text \<open>What a controlling side that keeps the cursors it was sent shows, one entry for each change.\<close>

fun show_cursors :: "(nat \<rightharpoonup> cursor_data) \<Rightarrow> message list \<Rightarrow> cursor_data option list" where
  "show_cursors known [] = []"
| "show_cursors known (CursorData cd # ms) = Some cd # show_cursors (known(cd_id cd \<mapsto> cd)) ms"
| "show_cursors known (CursorId i # ms) = known i # show_cursors known ms"
| "show_cursors known (_ # ms) = show_cursors known ms"

definition cursor_datas :: "message list \<Rightarrow> cursor_data list" where
  "cursor_datas ms = concat (map (\<lambda>m. case m of CursorData cd \<Rightarrow> [cd] | _ \<Rightarrow> []) ms)"

text \<open>What the service sends: no bare ids, and an id always stands for one cursor.\<close>

definition one_cursor_per_id :: "message list \<Rightarrow> bool" where
  "one_cursor_per_id ms \<longleftrightarrow> (\<forall>i. CursorId i \<notin> set ms) \<and>
     (\<forall>a \<in> set (cursor_datas ms). \<forall>b \<in> set (cursor_datas ms). cd_id a = cd_id b \<longrightarrow> a = b)"

definition learn :: "cursor_data list \<Rightarrow> (nat \<rightharpoonup> cursor_data) \<Rightarrow> (nat \<rightharpoonup> cursor_data)" where
  "learn ds known = fold (\<lambda>cd m. m(cd_id cd \<mapsto> cd)) ds known"

lemma learn_simps [simp]:
  "learn [] known = known" "learn (cd # ds) known = learn ds (known(cd_id cd \<mapsto> cd))"
  "learn (ds @ [cd]) known = (learn ds known)(cd_id cd \<mapsto> cd)"
  by (simp_all add: learn_def)

lemma cursor_datas_simps [simp]:
  "cursor_datas [] = []" "cursor_datas (CursorData cd # ms) = cd # cursor_datas ms"
  "cursor_datas (xs @ ys) = cursor_datas xs @ cursor_datas ys"
  by (simp_all add: cursor_datas_def)

lemma cursor_datas_other: "(\<forall>cd. m \<noteq> CursorData cd) \<Longrightarrow> cursor_datas (m # ms) = cursor_datas ms"
  by (cases m) (simp_all add: cursor_datas_def)

lemma show_cursors_append:
  "show_cursors known (xs @ ys) = show_cursors known xs @ show_cursors (learn (cursor_datas xs) known) ys"
  by (induction known xs rule: show_cursors.induct) (simp_all add: cursor_datas_other fun_upd_def)

lemma learn_mem: "learn ds Map.empty i = Some cd \<Longrightarrow> cd \<in> set ds \<and> cd_id cd = i"
proof (induction ds rule: rev_induct)
  case (snoc d ds)
  then show ?case by (cases "i = cd_id d") auto
qed simp

lemma learn_dom: "learn ds Map.empty i = None \<longleftrightarrow> i \<notin> cd_id ` set ds"
  by (induction ds rule: rev_induct) auto

definition sub_agrees :: "message list \<Rightarrow> mouse_cursor_sub \<Rightarrow> bool" where
  "sub_agrees ms t \<longleftrightarrow>
     show_cursors Map.empty (inner_out t) = show_cursors Map.empty ms \<and>
     learn (cursor_datas (inner_out t)) Map.empty = learn (cursor_datas ms) Map.empty \<and>
     cached t = (\<lambda>i. if learn (cursor_datas ms) Map.empty i = None then None else Some (CursorId i)) \<and>
     distinct (map cd_id (cursor_datas (inner_out t)))"

lemma show_last:
  "(\<forall>cd. m \<noteq> CursorData cd) \<Longrightarrow> (\<forall>i. m \<noteq> CursorId i) \<Longrightarrow> show_cursors known [m] = []"
  by (cases m) simp_all

lemma sub_agrees_step:
  assumes "one_cursor_per_id (ms @ [m])" "sub_agrees ms t"
  shows "sub_agrees (ms @ [m]) (sub_send m t)"
proof (cases "\<exists>cd. m = CursorData cd")
  case False
  with assms have "sub_send m t = t\<lparr>inner_out := inner_out t @ [m]\<rparr>" "\<forall>i. m \<noteq> CursorId i"
    by (auto simp: sub_send_def one_cursor_per_id_def split: message.split)
  with False assms(2) show ?thesis
    by (simp add: sub_agrees_def show_cursors_append show_last cursor_datas_other)
next
  case True
  then obtain cd where m: "m = CursorData cd" by blast
  let ?k = "learn (cursor_datas ms) Map.empty"
  show ?thesis
  proof (cases "?k (cd_id cd)")
    case None
    then have "cd_id cd \<notin> cd_id ` set (cursor_datas (inner_out t))"
      using assms(2) learn_dom [of "cursor_datas (inner_out t)"] by (simp add: sub_agrees_def)
    with None assms(2) m show ?thesis
      by (auto simp: sub_agrees_def sub_send_def show_cursors_append fun_eq_iff)
  next
    case (Some c)
    with learn_mem [OF Some] assms(1) m have "c = cd" by (auto simp: one_cursor_per_id_def)
    with Some assms(2) m show ?thesis
      by (auto simp: sub_agrees_def sub_send_def show_cursors_append cursor_datas_other fun_eq_iff)
  qed
qed

text \<open>
  C0: a subscriber of the cursor service that is sent each cursor once, and its id afterwards, shows
  on a controlling side that keeps what it was sent the same cursors as if every cursor had been
  sent whole, as long as an id stands for one cursor.
\<close>

theorem cursor_cache_is_transparent:
  assumes "one_cursor_per_id ms"
  shows "show_cursors Map.empty (inner_out (fold sub_send ms new_sub)) = show_cursors Map.empty ms \<and>
    distinct (map cd_id (cursor_datas (inner_out (fold sub_send ms new_sub))))"
proof -
  have "one_cursor_per_id ms \<longrightarrow> sub_agrees ms (fold sub_send ms new_sub)"
  proof (induction ms rule: rev_induct)
    case Nil
    show ?case by (simp add: sub_agrees_def new_sub_def)
  next
    case (snoc m ms)
    have "one_cursor_per_id ms" if "one_cursor_per_id (ms @ [m])"
      using that by (simp add: one_cursor_per_id_def)
    with snoc sub_agrees_step show ?case by auto
  qed
  with assms show ?thesis by (simp add: sub_agrees_def)
qed

definition sample_cursor :: "nat \<Rightarrow> cursor_data" where
  "sample_cursor i = \<lparr>cd_id = i, hotx = 0, hoty = 0, cd_width = 1, cd_height = 1, colors = [1, 2, 3, 255]\<rparr>"

lemma cursor_cache_is_transparent_witness:
  "show_cursors Map.empty (inner_out (fold sub_send
      [CursorData (sample_cursor 1), CursorData (sample_cursor 2), CursorData (sample_cursor 1)] new_sub)) =
    [Some (sample_cursor 1), Some (sample_cursor 2), Some (sample_cursor 1)]"
  using cursor_cache_is_transparent
    [of "[CursorData (sample_cursor 1), CursorData (sample_cursor 2), CursorData (sample_cursor 1)]"]
  by (auto simp: one_cursor_per_id_def sample_cursor_def)

end
