(* ===== verification/Spec2Isabelle.thy ===== *)
theory Spec2Isabelle
  imports Prelude Bytes_Codec Net_Addr Version Peer_Map Rendezvous_Proto Rendezvous_Server
    Relay_Server Service Message_Proto File_Transfer Config Clipboard_Sync Ipc Connection
    Secure_Stream Handshake Client Client_Connect Mediator Cm
    Remote Remote_Session Keys Input_Service
begin

text \<open>
  Header.
\<close>

end
